theory Spec2Isabelle
  imports Complex_Main "HOL-Library.AList" "HOL-Library.Char_ord" "HOL-Library.List_Lexorder"
begin

section \<open>Errors and values\<close>

text \<open>
  Every exception the modelled Python raises is a value of \<open>error\<close>; a call returns
  \<open>error + 'a\<close> with \<open>Inl\<close> for the raise. Python floats and numpy floats are
  modelled as \<open>real\<close> (exact arithmetic, no rounding, no nan). \<open>NonTermination\<close>
  is not an exception: it stands for a call that never returns.
\<close>

datatype error =
    RuntimeError string
  | ValueError string
  | TypeError
  | IndexError
  | KeyError string
  | AssertionError
  | ZeroDivisionError
  | NonTermination

text \<open>
  The values an \<open>extract\<close> returns for one structure, as far as
  \<open>AtomsProperty.get\<close> looks at them: \<open>None\<close>, a numpy array of floats, or a
  Python list of objects. An array of any number of dimensions is given by its shape and its
  entries in row-major order, as many as the product of the shape; a number (a Python float
  or a numpy scalar) is the array of shape \<open>()\<close>, with one entry: it adds and divides
  as such and has no \<open>len\<close>. An object of a list either carries an attribute
  \<open>data\<close> (the tensor objects, type \<open>'t\<close>) or does not (dictionaries,
  quaternions, type \<open>'o\<close>); \<open>NpItem\<close> is what indexing a numpy array gives, a
  numpy scalar or a sub-array (both carry \<open>data\<close> too).
\<close>

datatype ('t, 'o) pyobj = HasData 't | NoData 'o | NpItem "nat list" "real list"

datatype ('t, 'o) pyval = NoneVal | NdArray "nat list" "real list" | PyList "(('t, 'o) pyobj) list"

definition scalar :: "real \<Rightarrow> ('t, 'o) pyval" where
  "scalar x = NdArray [] [x]"

fun hasattr_data :: "('t, 'o) pyobj \<Rightarrow> bool" where
  "hasattr_data (HasData t) = True"
| "hasattr_data (NoData x) = False"
| "hasattr_data (NpItem sh a) = True"

text \<open>
  \<open>len(r)\<close> and \<open>r[i]\<close> for a non-negative index. The length of an array is its
  first axis, and \<open>r[i]\<close> is its \<open>i\<close>-th block along that axis; an array of
  shape \<open>()\<close> has neither.
\<close>

fun py_len :: "('t, 'o) pyval \<Rightarrow> error + nat" where
  "py_len NoneVal = Inl TypeError"
| "py_len (NdArray [] a) = Inl TypeError"
| "py_len (NdArray (d # ds) a) = Inr d"
| "py_len (PyList l) = Inr (length l)"

fun py_getitem :: "('t, 'o) pyval \<Rightarrow> nat \<Rightarrow> error + ('t, 'o) pyobj" where
  "py_getitem NoneVal i = Inl TypeError"
| "py_getitem (NdArray [] a) i = Inl IndexError"
| "py_getitem (NdArray (d # ds) a) i =
     (if i < d then Inr (NpItem ds (take (prod_list ds) (drop (i * prod_list ds) a)))
      else Inl IndexError)"
| "py_getitem (PyList l) i = (if i < length l then Inr (l ! i) else Inl IndexError)"

text \<open>A list comprehension over a call that may raise stops at the first raise.\<close>

fun traverse :: "('a \<Rightarrow> error + 'b) \<Rightarrow> 'a list \<Rightarrow> error + 'b list" where
  "traverse f [] = Inr []"
| "traverse f (x # xs) =
     (case f x of
        Inl e \<Rightarrow> Inl e
      | Inr y \<Rightarrow> (case traverse f xs of Inl e \<Rightarrow> Inl e | Inr ys \<Rightarrow> Inr (y # ys)))"

subsection \<open>numpy addition and Python's \<open>sum\<close>\<close>

text \<open>
  Two axis lengths broadcast when they are equal or one of them is 1. \<open>np_binop\<close> is an
  elementwise operation on two one-dimensional arrays.
\<close>

definition broadcast_len :: "nat \<Rightarrow> nat \<Rightarrow> nat option" where
  "broadcast_len n k =
     (if n = k then Some n else if n = 1 then Some k else if k = 1 then Some n else None)"

definition np_binop :: "(real \<Rightarrow> real \<Rightarrow> real) \<Rightarrow> real list \<Rightarrow> real list \<Rightarrow> error + real list" where
  "np_binop f a b =
     (case broadcast_len (length a) (length b) of
        None \<Rightarrow> Inl (ValueError ''operands could not be broadcast together'')
      | Some n \<Rightarrow>
          Inr (map (\<lambda>i. f (if length a = 1 then a ! 0 else a ! i)
                          (if length b = 1 then b ! 0 else b ! i)) [0..<n]))"

text \<open>
  Arrays of any shape. Shapes are aligned at their last axes; two axis lengths combine when
  they are equal or one of them is 1, and the shorter shape is completed with axes of
  length 1.
\<close>

fun broadcast_axes :: "nat list \<Rightarrow> nat list \<Rightarrow> nat list option" where
  "broadcast_axes [] ys = Some ys"
| "broadcast_axes (x # xs) [] = Some (x # xs)"
| "broadcast_axes (x # xs) (y # ys) =
     (case broadcast_len x y of
        None \<Rightarrow> None
      | Some d \<Rightarrow> map_option ((#) d) (broadcast_axes xs ys))"

definition broadcast_shape :: "nat list \<Rightarrow> nat list \<Rightarrow> nat list option" where
  "broadcast_shape s1 s2 = map_option rev (broadcast_axes (rev s1) (rev s2))"

text \<open>
  Row-major order: \<open>unravel shape i\<close> is the index tuple of the \<open>i\<close>-th entry
  of an array of that shape, \<open>ravel shape idx\<close> the position of the entry at an index
  tuple, an axis of length 1 being read at 0 whatever the index (this is how it is
  stretched). \<open>nd_item sh a rsh i\<close> is the entry that the array of shape \<open>sh\<close>
  and entries \<open>a\<close>, broadcast to the shape \<open>rsh\<close>, has at position \<open>i\<close>.
\<close>

fun unravel :: "nat list \<Rightarrow> nat \<Rightarrow> nat list" where
  "unravel [] i = []"
| "unravel (d # ds) i = (i div prod_list ds) # unravel ds (i mod prod_list ds)"

fun ravel :: "nat list \<Rightarrow> nat list \<Rightarrow> nat" where
  "ravel [] idx = 0"
| "ravel (d # ds) [] = 0"
| "ravel (d # ds) (j # js) = (if d = 1 then 0 else j) * prod_list ds + ravel ds js"

definition nd_item :: "nat list \<Rightarrow> real list \<Rightarrow> nat list \<Rightarrow> nat \<Rightarrow> real" where
  "nd_item sh a rsh i = a ! ravel sh (drop (length rsh - length sh) (unravel rsh i))"

definition nd_add :: "nat list \<times> real list \<Rightarrow> nat list \<times> real list \<Rightarrow> error + nat list \<times> real list" where
  "nd_add x y =
     (case broadcast_shape (fst x) (fst y) of
        None \<Rightarrow> Inl (ValueError ''operands could not be broadcast together'')
      | Some rsh \<Rightarrow>
          Inr (rsh, map (\<lambda>i. nd_item (fst x) (snd x) rsh i + nd_item (fst y) (snd y) rsh i)
                        [0..<prod_list rsh]))"

text \<open>
  A Python list as numpy reads it when it is added to an array: a list of numpy items of one
  shape becomes the array of these blocks (the empty list the empty array of shape
  \<open>(0,)\<close>); any other list is not an array of floats.
\<close>

fun item_of :: "('t, 'o) pyobj \<Rightarrow> (nat list \<times> real list) option" where
  "item_of (NpItem sh a) = Some (sh, a)"
| "item_of (HasData t) = None"
| "item_of (NoData x) = None"

definition as_array :: "(('t, 'o) pyobj) list \<Rightarrow> (nat list \<times> real list) option" where
  "as_array l =
     (case l of
        [] \<Rightarrow> Some ([0], [])
      | x # _ \<Rightarrow>
          if list_all (\<lambda>y. item_of y \<noteq> None \<and> map_option fst (item_of y) = map_option fst (item_of x)) l
          then Some (length l # fst (the (item_of x)), concat (map (\<lambda>y. snd (the (item_of y))) l))
          else None)"

text \<open>
  \<open>acc + r\<close> inside \<open>sum\<close>. The accumulator is the integer \<open>0\<close> (\<open>None\<close>
  here) before the first addition and a numpy array afterwards: an integer plus a list, and
  anything plus \<open>None\<close>, raise \<open>TypeError\<close>; an integer plus an array adds
  elementwise; two arrays add elementwise after broadcasting. An array plus a Python list
  converts the list to an array first; the opaque objects of this model (tensors,
  dictionaries) are taken not to add to a float, as the classes of this repository, so that
  addition raises \<open>TypeError\<close> unless the broadcast result is empty.
\<close>

fun sum_step :: "(nat list \<times> real list) option \<Rightarrow> ('t, 'o) pyval \<Rightarrow> error + nat list \<times> real list" where
  "sum_step acc NoneVal = Inl TypeError"
| "sum_step None (NdArray sh a) = Inr (sh, map (\<lambda>x. 0 + x) a)"
| "sum_step None (PyList l) = Inl TypeError"
| "sum_step (Some acc) (NdArray sh a) = nd_add acc (sh, a)"
| "sum_step (Some acc) (PyList l) =
     (case as_array l of
        Some arr \<Rightarrow> nd_add acc arr
      | None \<Rightarrow>
          (case broadcast_shape (fst acc) [length l] of
             None \<Rightarrow> Inl (ValueError ''operands could not be broadcast together'')
           | Some rsh \<Rightarrow> if prod_list rsh = 0 then Inr (rsh, []) else Inl TypeError))"

fun py_sum_from ::
  "(nat list \<times> real list) option \<Rightarrow> (('t, 'o) pyval) list \<Rightarrow> error + (nat list \<times> real list) option" where
  "py_sum_from acc [] = Inr acc"
| "py_sum_from acc (r # rs) =
     (case sum_step acc r of Inl e \<Rightarrow> Inl e | Inr acc' \<Rightarrow> py_sum_from (Some acc') rs)"

text \<open>
  \<open>sum(results) / len(results)\<close>; the source evaluates it for a non-empty list only
  (for an empty one the sum is the integer 0 and the division is by zero).
\<close>

definition py_mean :: "(('t, 'o) pyval) list \<Rightarrow> error + ('t, 'o) pyval" where
  "py_mean results =
     (case py_sum_from None results of
        Inl e \<Rightarrow> Inl e
      | Inr None \<Rightarrow> Inl ZeroDivisionError
      | Inr (Some acc) \<Rightarrow>
          Inr (NdArray (fst acc) (map (\<lambda>x. x / real (length results)) (snd acc))))"

text \<open>
  The sum of arrays as the specification has it, \<open>r1 + r2 + \<dots> + rn\<close> with numpy's
  addition, for a non-empty list.
\<close>

fun nd_sum_from :: "nat list \<times> real list \<Rightarrow> (nat list \<times> real list) list \<Rightarrow> error + nat list \<times> real list" where
  "nd_sum_from acc [] = Inr acc"
| "nd_sum_from acc (x # xs) =
     (case nd_add acc x of Inl e \<Rightarrow> Inl e | Inr acc' \<Rightarrow> nd_sum_from acc' xs)"

section \<open>AtomsProperty.get\<close>

text \<open>
  \<open>get\<close> dispatches on its argument: a single structure or a Python list of structures
  (a trajectory, as its docstring says). The class \<open>AtomsCollection\<close> is not part of
  the sources at hand, so the collection branch is left out. \<open>extract\<close> stands for the
  subclass's \<open>extract\<close> with the default parameters updated by the keyword arguments;
  it may raise and may write arrays to the structure, so it returns the structure too.
  \<open>tensor_average\<close> stands for \<open>NMRTensor.average\<close>, which is not part of the
  sources either.
\<close>

datatype 's input = Single 's | Frames "'s list"

text \<open>\<open>[self.get(a, **kwargs) for a in s]\<close>: the frames in order, up to the first raise.\<close>

fun get_frames :: "('s \<Rightarrow> (error + 'v) \<times> 's) \<Rightarrow> 's list \<Rightarrow> (error + 'v list) \<times> 's list" where
  "get_frames extract [] = (Inr [], [])"
| "get_frames extract (a # as) =
     (case extract a of
        (Inl e, a') \<Rightarrow> (Inl e, a' # as)
      | (Inr v, a') \<Rightarrow>
          (case get_frames extract as of
             (Inl e, as') \<Rightarrow> (Inl e, a' # as')
           | (Inr vs, as') \<Rightarrow> (Inr (v # vs), a' # as')))"

text \<open>
  The tensor branch: \<open>n_atoms = min(len(r) for r in results)\<close> and then, for every
  \<open>i < n_atoms\<close>, \<open>NMRTensor.average([r[i] for r in results])\<close>.
\<close>

definition average_sites ::
  "((('t, 'o) pyobj) list \<Rightarrow> error + ('t, 'o) pyobj) \<Rightarrow> (('t, 'o) pyval) list \<Rightarrow> error + ('t, 'o) pyval" where
  "average_sites tensor_average results =
     (case traverse py_len results of
        Inl e \<Rightarrow> Inl e
      | Inr lens \<Rightarrow>
          (case traverse (\<lambda>i. case traverse (\<lambda>r. py_getitem r i) results of
                                 Inl e \<Rightarrow> Inl e
                               | Inr items \<Rightarrow> tensor_average items)
                         [0..<Min (set lens)] of
             Inl e \<Rightarrow> Inl e
           | Inr avs \<Rightarrow> Inr (PyList avs)))"

text \<open>The body of the \<open>average == True\<close> branch once the per-frame results are there.\<close>

definition average_results ::
  "((('t, 'o) pyobj) list \<Rightarrow> error + ('t, 'o) pyobj) \<Rightarrow> (('t, 'o) pyval) list \<Rightarrow> error + ('t, 'o) pyval" where
  "average_results tensor_average results =
     (case results of
        [] \<Rightarrow> Inr NoneVal
      | r0 # _ \<Rightarrow>
          (case r0 of
             PyList (x # _) \<Rightarrow>
               if hasattr_data x then average_sites tensor_average results else py_mean results
           | _ \<Rightarrow> py_mean results))"

fun get ::
  "((('t, 'o) pyobj) list \<Rightarrow> error + ('t, 'o) pyobj) \<Rightarrow> ('s \<Rightarrow> (error + ('t, 'o) pyval) \<times> 's) \<Rightarrow>
     bool \<Rightarrow> 's input \<Rightarrow> (error + ('t, 'o) pyval) \<times> 's input" where
  "get tensor_average extract average (Single a) =
     (case extract a of (r, a') \<Rightarrow> (r, Single a'))"
| "get tensor_average extract average (Frames s) =
     (if average then
        (case get_frames extract s of
           (Inl e, s') \<Rightarrow> (Inl e, Frames s')
         | (Inr results, s') \<Rightarrow> (average_results tensor_average results, Frames s'))
      else if s = [] then (Inl IndexError, Frames s)
      else (case extract (last s) of (r, a') \<Rightarrow> (r, Frames (butlast s @ [a']))))"

section \<open>Averaging quaternions by tags\<close>

text \<open>
  \<open>get_duplicates\<close> builds \<open>tally\<close>, a dictionary from each value of the sequence to
  the list of its indices, and keeps the values with more than one index. The dictionary is
  an association list in insertion order; \<open>tally[item].append(i)\<close> on a
  \<open>defaultdict(list)\<close> appends to the entry, creating it at the end when it is new.
\<close>

definition tally_append :: "('k \<times> nat list) list \<Rightarrow> 'k \<Rightarrow> nat \<Rightarrow> ('k \<times> nat list) list" where
  "tally_append tally item i =
     AList.update item ((case map_of tally item of None \<Rightarrow> [] | Some locs \<Rightarrow> locs) @ [i]) tally"

fun tally_from :: "nat \<Rightarrow> 'k list \<Rightarrow> ('k \<times> nat list) list \<Rightarrow> ('k \<times> nat list) list" where
  "tally_from i [] tally = tally"
| "tally_from i (item # seq) tally = tally_from (Suc i) seq (tally_append tally item i)"

definition get_duplicates :: "'k list \<Rightarrow> ('k \<times> nat list) list" where
  "get_duplicates seq = filter (\<lambda>(key, locs). length locs > 1) (tally_from 0 seq [])"

text \<open>\<open>xs[i]\<close> on a Python list, for a non-negative index.\<close>

definition list_getitem :: "'a list \<Rightarrow> nat \<Rightarrow> error + 'a" where
  "list_getitem xs i = (if i < length xs then Inr (xs ! i) else Inl IndexError)"

text \<open>
  The loop over \<open>dupl_dict.items()\<close>. \<open>average_quaternions\<close> (of
  \<open>soprano.utils\<close>, not part of the sources at hand) is a parameter that may raise. The
  group is read first, which raises \<open>IndexError\<close> on an index past the end of
  \<open>quaternions\<close>; the writes that follow use the indices just read. The list is mutated
  in place; the model returns the list after the call, or the error alone on a raise.
\<close>

fun average_groups ::
  "('q list \<Rightarrow> error + 'q) \<Rightarrow> ('k \<times> nat list) list \<Rightarrow> 'q list \<Rightarrow> error + 'q list" where
  "average_groups average_quaternions [] quaternions = Inr quaternions"
| "average_groups average_quaternions ((tag, idx) # rest) quaternions =
     (case traverse (list_getitem quaternions) idx of
        Inl e \<Rightarrow> Inl e
      | Inr quat_group \<Rightarrow>
          (case average_quaternions quat_group of
             Inl e \<Rightarrow> Inl e
           | Inr quat_av \<Rightarrow>
               average_groups average_quaternions rest
                 (fold (\<lambda>ig qs. qs[ig := quat_av]) idx quaternions)))"

text \<open>\<open>len(set(tags))\<close> is the number of distinct tags.\<close>

definition average_quaternions_by_tags ::
  "('q list \<Rightarrow> error + 'q) \<Rightarrow> 'q list \<Rightarrow> 'k list \<Rightarrow> error + 'q list" where
  "average_quaternions_by_tags average_quaternions quaternions tags =
     (if length (remdups tags) \<noteq> length tags
      then average_groups average_quaternions (get_duplicates tags) quaternions
      else Inr quaternions)"

text \<open>The indices of the entries that carry tag \<open>t\<close>, in increasing order.\<close>

definition positions :: "'k list \<Rightarrow> 'k \<Rightarrow> nat list" where
  "positions tags t = filter (\<lambda>j. tags ! j = t) [0..<length tags]"

section \<open>EFG properties\<close>

subsection \<open>Structures\<close>

text \<open>
  An \<open>ase.Atoms\<close> structure, as far as the EFG properties use it: the chemical symbols
  and the named per-atom arrays \<open>efg\<close> (the raw 3 by 3 tensors),
  \<open>efg_diagonal_evals\<close>, \<open>efg_diagonal_evals_hsort\<close> and
  \<open>efg_diagonal_evecs\<close>; an array that the structure does not have is \<open>None\<close>.
  The state of a run is the structure together with the lines printed so far.
\<close>

type_synonym matrix = "real list list"

record atoms =
  symbols :: "string list"
  efg :: "matrix list option"
  efg_diagonal_evals :: "real list list option"
  efg_diagonal_evals_hsort :: "real list list option"
  efg_diagonal_evecs :: "matrix list option"

type_synonym state = "atoms \<times> string list"

definition has :: "atoms \<Rightarrow> string \<Rightarrow> bool" where
  "has s name =
     (if name = ''efg'' then efg s \<noteq> None
      else if name = ''efg_diagonal_evals'' then efg_diagonal_evals s \<noteq> None
      else if name = ''efg_diagonal_evals_hsort'' then efg_diagonal_evals_hsort s \<noteq> None
      else if name = ''efg_diagonal_evecs'' then efg_diagonal_evecs s \<noteq> None
      else False)"

text \<open>
  What the EFG module imports from the rest of the package and from numpy, none of it part
  of the sources at hand, passed as a record: the constant \<open>EFG_TO_CHI\<close>, the isotope
  resolvers \<open>_get_isotope_list\<close> and \<open>_get_isotope_data\<close> (they may raise), the
  constructor of \<open>ElectricFieldGradient\<close> objects (type \<open>'t\<close>),
  \<open>np.linalg.eigh\<close>, \<open>_haeb_sort\<close> and \<open>_asymmetry\<close>. An isotope dictionary is a
  map from element symbols to mass numbers; a per-atom isotope list holds a mass number or
  \<open>None\<close> for every atom.
\<close>

record 't lib =
  EFG_TO_CHI :: real
  get_isotope_list ::
    "string list \<Rightarrow> (string \<rightharpoonup> int) \<Rightarrow> int option list option \<Rightarrow> bool \<Rightarrow> error + int list"
  get_isotope_data ::
    "string list \<Rightarrow> string \<Rightarrow> (string \<rightharpoonup> int) \<Rightarrow> int option list option \<Rightarrow> bool \<Rightarrow> error + real list"
  ElectricFieldGradient :: "matrix \<Rightarrow> string \<Rightarrow> string \<Rightarrow> error + 't"
  eigh :: "matrix \<Rightarrow> real list \<times> matrix"
  haeb_sort :: "real list list \<Rightarrow> real list list"
  asymmetry :: "real list list \<Rightarrow> real list"

subsection \<open>The decorator\<close>

text \<open>
  \<open>_has_efg_check(f)\<close> is \<open>decorated_f\<close>: it raises before calling \<open>f\<close> when the
  structure has no array \<open>efg\<close>. The other arguments of \<open>f\<close> are applied before the
  state.
\<close>

definition has_efg_check :: "(state \<Rightarrow> (error + 'a) \<times> state) \<Rightarrow> state \<Rightarrow> (error + 'a) \<times> state" where
  "has_efg_check f st =
     (if \<not> has (fst st) ''efg''
      then (Inl (RuntimeError ''No electric field gradient data found for this system''), st)
      else f st)"

subsection \<open>Text of numbers\<close>

definition digit :: "nat \<Rightarrow> char" where
  "digit d = ''0123456789'' ! d"

fun show_nat :: "nat \<Rightarrow> string" where
  "show_nat n = (if n < 10 then [digit n] else show_nat (n div 10) @ [digit (n mod 10)])"

declare show_nat.simps [simp del]

definition show_int :: "int \<Rightarrow> string" where
  "show_int i = (if i < 0 then ''-'' @ show_nat (nat (- i)) else show_nat (nat i))"

text \<open>
  The text Python gives a float in an f-string, for the multiples of 1/2 of magnitude below
  \<open>10^16\<close>, which is all that the quantum numbers \<open>m\<close> of a nuclear spin can be:
  the integer part, a point, and the digit 0 or 5. For any other real the function is not
  Python's text.
\<close>

definition float_str :: "real \<Rightarrow> string" where
  "float_str x =
     (if x < 0 then ''-'' else '''') @ show_nat (nat \<lfloor>\<bar>x\<bar>\<rfloor>) @
     (if frac \<bar>x\<bar> = 0 then ''.0'' else ''.5'')"

subsection \<open>EFGDiagonal, EFGVzz, EFGAsymmetry\<close>

text \<open>\<open>(efg + efg.T) / 2.0\<close> for a square matrix.\<close>

definition symmetrise :: "matrix \<Rightarrow> matrix" where
  "symmetrise m = map2 (map2 (\<lambda>a b. (a + b) / 2)) m (transpose m)"

text \<open>
  \<open>EFGDiagonal.extract\<close>. Unpacking \<open>zip(*efg_diag)\<close> into two names raises
  \<open>ValueError\<close> when there is no atom. The returned array of dictionaries is the list
  of (eigenvalues, eigenvectors) pairs.
\<close>

definition EFGDiagonal_extract ::
  "'t lib \<Rightarrow> bool \<Rightarrow> state \<Rightarrow> (error + (real list \<times> matrix) list) \<times> state" where
  "EFGDiagonal_extract lib save_array =
     has_efg_check (\<lambda>(s, out).
       case efg s of
         None \<Rightarrow> (Inl (KeyError ''efg''), (s, out))
       | Some efgs \<Rightarrow>
           let efg_diag = map (\<lambda>m. eigh lib (symmetrise m)) efgs in
           if efg_diag = [] then (Inl (ValueError ''not enough values to unpack''), (s, out))
           else
             let efg_evals = map fst efg_diag;
                 efg_evecs = map snd efg_diag;
                 s' = (if save_array
                       then s\<lparr>efg_diagonal_evals := Some efg_evals,
                              efg_diagonal_evals_hsort := Some (haeb_sort lib efg_evals),
                              efg_diagonal_evecs := Some efg_evecs\<rparr>
                       else s)
             in (Inr efg_diag, (s', out)))"

text \<open>
  The first lines of the other extracts:
  \<open>if not s.has("efg_diagonal_evals_hsort") or force_recalc: EFGDiagonal.get(s)\<close>.
  \<open>X.get(s)\<close> on a single structure is \<open>X.extract\<close> with the default parameters
  (\<open>save_array=True\<close> here). The result is the error raised, if any.
\<close>

definition ensure_diagonal :: "'t lib \<Rightarrow> bool \<Rightarrow> state \<Rightarrow> error option \<times> state" where
  "ensure_diagonal lib force_recalc st =
     (if \<not> has (fst st) ''efg_diagonal_evals_hsort'' \<or> force_recalc
      then (case EFGDiagonal_extract lib True st of
              (Inl e, st') \<Rightarrow> (Some e, st')
            | (Inr d, st') \<Rightarrow> (None, st'))
      else (None, st))"

text \<open>\<open>s.get_array("efg_diagonal_evals_hsort")\<close>.\<close>

definition get_evals_hsort :: "atoms \<Rightarrow> error + real list list" where
  "get_evals_hsort s =
     (case efg_diagonal_evals_hsort s of
        None \<Rightarrow> Inl (KeyError ''efg_diagonal_evals_hsort'')
      | Some evals \<Rightarrow> Inr evals)"

text \<open>\<open>efg_evals[:, -1]\<close>: the last entry of every row.\<close>

definition last_column :: "real list list \<Rightarrow> error + real list" where
  "last_column evals = traverse (\<lambda>row. if row = [] then Inl IndexError else Inr (last row)) evals"

definition EFGVzz_extract :: "'t lib \<Rightarrow> bool \<Rightarrow> state \<Rightarrow> (error + real list) \<times> state" where
  "EFGVzz_extract lib force_recalc =
     has_efg_check (\<lambda>st.
       case ensure_diagonal lib force_recalc st of
         (Some e, st') \<Rightarrow> (Inl e, st')
       | (None, st') \<Rightarrow>
           (case get_evals_hsort (fst st') of
              Inl e \<Rightarrow> (Inl e, st')
            | Inr efg_evals \<Rightarrow> (last_column efg_evals, st')))"

definition EFGAsymmetry_extract :: "'t lib \<Rightarrow> bool \<Rightarrow> state \<Rightarrow> (error + real list) \<times> state" where
  "EFGAsymmetry_extract lib force_recalc =
     has_efg_check (\<lambda>st.
       case ensure_diagonal lib force_recalc st of
         (Some e, st') \<Rightarrow> (Inl e, st')
       | (None, st') \<Rightarrow>
           (case get_evals_hsort (fst st') of
              Inl e \<Rightarrow> (Inl e, st')
            | Inr efg_evals \<Rightarrow> (Inr (asymmetry lib efg_evals), st')))"

subsection \<open>The isotope list check\<close>

text \<open>
  \<open>if isotope_list is not None and len(isotope_list) != len(elems):\<close> print the warning
  and set \<open>isotope_list = None\<close>. The result is the list to use and the lines printed.
\<close>

definition check_isotope_list ::
  "int option list option \<Rightarrow> string list \<Rightarrow> string list \<Rightarrow> int option list option \<times> string list" where
  "check_isotope_list isotope_list elems out =
     (if isotope_list \<noteq> None \<and> length (the isotope_list) \<noteq> length elems
      then (None, out @ [''WARNING - invalid isotope_list, ignoring''])
      else (isotope_list, out))"

subsection \<open>EFGTensor, EFGQuadrupolarConstant, EFGQuadrupolarProduct\<close>

definition EFGTensor_extract ::
  "'t lib \<Rightarrow> string \<Rightarrow> bool \<Rightarrow> (string \<rightharpoonup> int) \<Rightarrow> int option list option \<Rightarrow> state \<Rightarrow>
     (error + 't list) \<times> state" where
  "EFGTensor_extract lib order use_q_isotopes isotopes isotope_list =
     has_efg_check (\<lambda>(s, out).
       let elems = symbols s;
           (isotope_list, out) = check_isotope_list isotope_list elems out
       in (case get_isotope_list lib elems isotopes isotope_list use_q_isotopes of
             Inl e \<Rightarrow> (Inl e, (s, out))
           | Inr isotopelist \<Rightarrow>
               let isotopelist = map (\<lambda>(iso, elem). show_int iso @ elem) (zip isotopelist elems) in
               (case efg s of
                  None \<Rightarrow> (Inl (KeyError ''efg''), (s, out))
                | Some efgs \<Rightarrow>
                    (traverse (\<lambda>(efg, species). ElectricFieldGradient lib efg species order)
                              (zip efgs isotopelist), (s, out)))))"

definition EFGQuadrupolarConstant_extract ::
  "'t lib \<Rightarrow> bool \<Rightarrow> bool \<Rightarrow> (string \<rightharpoonup> int) \<Rightarrow> int option list option \<Rightarrow> state \<Rightarrow>
     (error + real list) \<times> state" where
  "EFGQuadrupolarConstant_extract lib force_recalc use_q_isotopes isotopes isotope_list =
     has_efg_check (\<lambda>st.
       case ensure_diagonal lib force_recalc st of
         (Some e, st') \<Rightarrow> (Inl e, st')
       | (None, (s, out)) \<Rightarrow>
       let elems = symbols s;
           (isotope_list, out) = check_isotope_list isotope_list elems out
       in (case get_isotope_data lib elems ''Q'' isotopes isotope_list use_q_isotopes of
             Inl e \<Rightarrow> (Inl e, (s, out))
           | Inr q_list \<Rightarrow>
               (case EFGVzz_extract lib False (s, out) of
                  (Inl e, st') \<Rightarrow> (Inl e, st')
                | (Inr vzz, st') \<Rightarrow>
                    (np_binop (*) (map (\<lambda>q. EFG_TO_CHI lib * q) q_list) vzz, st'))))"

definition EFGQuadrupolarProduct_extract ::
  "'t lib \<Rightarrow> bool \<Rightarrow> bool \<Rightarrow> (string \<rightharpoonup> int) \<Rightarrow> int option list option \<Rightarrow> state \<Rightarrow>
     (error + real list) \<times> state" where
  "EFGQuadrupolarProduct_extract lib force_recalc use_q_isotopes isotopes isotope_list =
     has_efg_check (\<lambda>st.
       case ensure_diagonal lib force_recalc st of
         (Some e, st') \<Rightarrow> (Inl e, st')
       | (None, (s, out)) \<Rightarrow>
       let elems = symbols s;
           (isotope_list, out) = check_isotope_list isotope_list elems out
       in (case get_isotope_data lib elems ''Q'' isotopes isotope_list use_q_isotopes of
             Inl e \<Rightarrow> (Inl e, (s, out))
           | Inr q_list \<Rightarrow>
               (case EFGVzz_extract lib False (s, out) of
                  (Inl e, st') \<Rightarrow> (Inl e, st')
                | (Inr vzz, st') \<Rightarrow>
                    (case np_binop (*) (map (\<lambda>q. EFG_TO_CHI lib * q) q_list) vzz of
                       Inl e \<Rightarrow> (Inl e, st')
                     | Inr cq \<Rightarrow>
                         (case EFGAsymmetry_extract lib False st' of
                            (Inl e, st'') \<Rightarrow> (Inl e, st'')
                          | (Inr eta, st'') \<Rightarrow>
                              (np_binop (*) cq (map (\<lambda>e. sqrt (1 + e ^ 2 / 3)) eta), st''))))))"

subsection \<open>EFGNQR\<close>

text \<open>
  Modelled from the spec: \<open>_frange\<close> of \<open>soprano.nmr.utils\<close> is not part of the
  sources at hand. The spec has \<open>m\<close> range over \<open>-I, -I+1, \<dots>\<close>; \<open>extract\<close>
  calls \<open>_frange(-I, I + 1, 1)\<close>, keeps the \<open>m \<ge> 0\<close> and drops the last one. So
  \<open>_frange(start, stop, step)\<close> is taken to be the range of floats: \<open>start\<close>,
  \<open>start + step\<close>, \<dots> while below \<open>stop\<close>. With a step that is not positive
  that loop never ends; the result is \<open>None\<close> then.
\<close>

function frange :: "real \<Rightarrow> real \<Rightarrow> real \<Rightarrow> real list option" where
  "frange start stop step =
     (if start < stop
      then (if step \<le> 0 then None
            else map_option ((#) start) (frange (start + step) stop step))
      else Some [])"
  by pat_completeness auto
termination
proof (relation "measure (\<lambda>(start, stop, step). nat \<lceil>(stop - start) / step\<rceil>)")
  show "wf (measure (\<lambda>(start, stop, step). nat \<lceil>(stop - start) / step\<rceil>))" by simp
next
  fix start stop step :: real
  assume a: "start < stop" and b: "\<not> step \<le> 0"
  have eq: "(stop - (start + step)) / step = (stop - start) / step - 1"
    using b by (simp add: field_simps)
  have pos: "0 < (stop - start) / step" using a b by simp
  then have "0 < \<lceil>(stop - start) / step\<rceil>" by simp
  then have "nat \<lceil>(stop - start) / step - 1\<rceil> < nat \<lceil>(stop - start) / step\<rceil>"
    by simp
  then show "((start + step, stop, step), (start, stop, step))
      \<in> measure (\<lambda>(start, stop, step). nat \<lceil>(stop - start) / step\<rceil>)"
    by (simp add: eq)
qed

declare frange.simps [simp del]

text \<open>
  A dictionary of transitions is an association list in insertion order;
  \<open>d[key] = fq\<close> is \<open>AList.update\<close>. The key is \<open>f'm={m}->{m+1}'\<close>.
\<close>

type_synonym nqr_dict = "(string \<times> real) list"

definition transition_key :: "real \<Rightarrow> string" where
  "transition_key m = ''m='' @ float_str m @ ''->'' @ float_str (m + 1)"

text \<open>
  The loop \<open>for m in ms\<close> for atom \<open>i\<close>: every pass reads \<open>eta_list[i]\<close> and
  then writes \<open>nqr[i][key]\<close>.
\<close>

fun set_transitions :: "real \<Rightarrow> real list \<Rightarrow> nat \<Rightarrow> real list \<Rightarrow> nqr_dict list \<Rightarrow> error + nqr_dict list" where
  "set_transitions A eta_list i [] nqr = Inr nqr"
| "set_transitions A eta_list i (m # ms) nqr =
     (case list_getitem eta_list i of
        Inl e \<Rightarrow> Inl e
      | Inr eta \<Rightarrow>
          if i < length nqr
          then set_transitions A eta_list i ms
                 (nqr[i := AList.update (transition_key m)
                                         (3 * A * (2 * m + 1) * sqrt (1 + eta ^ 2 / 3)) (nqr ! i)])
          else Inl IndexError)"

text \<open>
  The loop \<open>for i in np.where(mask)[0]\<close>; the indices come from \<open>I_list\<close>, so
  \<open>I_list[i]\<close> is in range. \<open>EFGVzz.get(s)\<close> is called in every pass.
\<close>

fun nqr_loop ::
  "'t lib \<Rightarrow> real list \<Rightarrow> real list \<Rightarrow> real list \<Rightarrow> nat list \<Rightarrow> nqr_dict list \<Rightarrow> state \<Rightarrow>
     (error + nqr_dict list) \<times> state" where
  "nqr_loop lib q_list I_list eta_list [] nqr st = (Inr nqr, st)"
| "nqr_loop lib q_list I_list eta_list (i # is) nqr st =
     (case EFGVzz_extract lib False st of
        (Inl e, st') \<Rightarrow> (Inl e, st')
      | (Inr vzz, st') \<Rightarrow>
          (case list_getitem vzz i of
             Inl e \<Rightarrow> (Inl e, st')
           | Inr v \<Rightarrow>
          (case list_getitem q_list i of
             Inl e \<Rightarrow> (Inl e, st')
           | Inr q \<Rightarrow>
               let A = EFG_TO_CHI lib * v * q / (4 * (I_list ! i) * (2 * (I_list ! i) - 1)) in
               (case frange (- (I_list ! i)) (I_list ! i + 1) 1 of
                  None \<Rightarrow> (Inl NonTermination, st')
                | Some r \<Rightarrow>
                    let ms = butlast (filter (\<lambda>m. m \<ge> 0) r) in
                    (case set_transitions A eta_list i ms nqr of
                       Inl e \<Rightarrow> (Inl e, st')
                     | Inr nqr' \<Rightarrow> nqr_loop lib q_list I_list eta_list is nqr' st')))))"

definition EFGNQR_extract ::
  "'t lib \<Rightarrow> bool \<Rightarrow> bool \<Rightarrow> (string \<rightharpoonup> int) \<Rightarrow> int option list option \<Rightarrow> state \<Rightarrow>
     (error + nqr_dict list) \<times> state" where
  "EFGNQR_extract lib force_recalc use_q_isotopes isotopes isotope_list =
     has_efg_check (\<lambda>st.
       case ensure_diagonal lib force_recalc st of
         (Some e, st') \<Rightarrow> (Inl e, st')
       | (None, (s, out)) \<Rightarrow>
       let elems = symbols s;
           (isotope_list, out) = check_isotope_list isotope_list elems out
       in (case get_isotope_data lib elems ''Q'' isotopes isotope_list use_q_isotopes of
             Inl e \<Rightarrow> (Inl e, (s, out))
           | Inr q_list \<Rightarrow>
          (case get_isotope_data lib elems ''I'' isotopes isotope_list use_q_isotopes of
             Inl e \<Rightarrow> (Inl e, (s, out))
           | Inr I_list \<Rightarrow>
          (case EFGAsymmetry_extract lib False (s, out) of
             (Inl e, st') \<Rightarrow> (Inl e, st')
           | (Inr eta_list, st') \<Rightarrow>
               nqr_loop lib q_list I_list eta_list
                 (filter (\<lambda>i. I_list ! i > 0.5) [0..<length I_list])
                 (replicate (length elems) []) st'))))"

subsection \<open>The transition mapping of the specification\<close>

text \<open>
  The mapping the specification gives a quadrupole-active atom: for every \<open>m\<close> of the
  list, in order, the key \<open>m=<m>-><m+1>\<close> with the frequency
  \<open>3 A (2m+1) sqrt(1 + eta^2 / 3)\<close>.
\<close>

definition nqr_entry :: "real \<Rightarrow> real \<Rightarrow> real list \<Rightarrow> nqr_dict" where
  "nqr_entry A eta ms =
     map (\<lambda>m. (transition_key m, 3 * A * (2 * m + 1) * sqrt (1 + eta ^ 2 / 3))) ms"

section \<open>A test structure\<close>

text \<open>
  A structure of one lithium atom with the diagonal EFG tensor \<open>diag(-1, -1, 2)\<close>, and
  an instance of the imported functions for it: \<open>EFG_TO_CHI = 2\<close>, every atom resolved
  to mass number 7 with spin \<open>3/2\<close> and quadrupole moment 5, \<open>eigh\<close> reading the
  eigenvalues off the diagonal, the Haeberlen order being the order they are in, and
  asymmetry 0.
\<close>

definition test_lib :: "string lib" where
  "test_lib =
     \<lparr>EFG_TO_CHI = 2,
      get_isotope_list = (\<lambda>elems isotopes isotope_list use_q_isotopes. Inr (map (\<lambda>e. 7) elems)),
      get_isotope_data = (\<lambda>elems key isotopes isotope_list use_q_isotopes.
                            Inr (map (\<lambda>e. if key = ''I'' then 3 / 2 else 5) elems)),
      ElectricFieldGradient = (\<lambda>efg species order. Inr species),
      eigh = (\<lambda>m. ([m ! 0 ! 0, m ! 1 ! 1, m ! 2 ! 2], m)),
      haeb_sort = (\<lambda>evals. evals),
      asymmetry = (\<lambda>evals. map (\<lambda>row. 0) evals)\<rparr>"

definition test_atoms :: atoms where
  "test_atoms =
     \<lparr>symbols = [''Li''],
      efg = Some [[[-1, 0, 0], [0, -1, 0], [0, 0, 2]]],
      efg_diagonal_evals = None,
      efg_diagonal_evals_hsort = None,
      efg_diagonal_evecs = None\<rparr>"

text \<open>The test structure after \<open>EFGDiagonal\<close> has stored its arrays.\<close>

definition test_atoms_diag :: atoms where
  "test_atoms_diag =
     test_atoms\<lparr>efg_diagonal_evals := Some [[-1, -1, 2]],
                efg_diagonal_evals_hsort := Some [[-1, -1, 2]],
                efg_diagonal_evecs := Some [[[-1, 0, 0], [0, -1, 0], [0, 0, 2]]]\<rparr>"

text \<open>The test structure without its \<open>efg\<close> array.\<close>

definition test_atoms_no_efg :: atoms where
  "test_atoms_no_efg = test_atoms\<lparr>efg := None\<rparr>"

text \<open>
  The same imported functions with resolvers that read the per-atom list: given a list, they
  answer from it (the mass numbers of the list for \<open>_get_isotope_list\<close>, spin 1 and
  quadrupole moment 9 per entry for \<open>_get_isotope_data\<close>); given \<open>None\<close>,
  they answer as those of \<open>test_lib\<close>.
\<close>

definition test_lib_listed :: "string lib" where
  "test_lib_listed =
     test_lib
       \<lparr>get_isotope_list := (\<lambda>elems isotopes isotope_list use_q_isotopes.
            case isotope_list of
              None \<Rightarrow> Inr (map (\<lambda>e. 7) elems)
            | Some l \<Rightarrow> Inr (map (\<lambda>x. case x of None \<Rightarrow> 7 | Some a \<Rightarrow> a) l)),
        get_isotope_data := (\<lambda>elems key isotopes isotope_list use_q_isotopes.
            case isotope_list of
              None \<Rightarrow> Inr (map (\<lambda>e. if key = ''I'' then 3 / 2 else 5) elems)
            | Some l \<Rightarrow> Inr (map (\<lambda>x. if key = ''I'' then 1 else 9) l))\<rparr>"

text \<open>A structure without atoms: the array \<open>efg\<close> is there and empty.\<close>

definition test_atoms_empty :: atoms where
  "test_atoms_empty =
     \<lparr>symbols = [],
      efg = Some [],
      efg_diagonal_evals = None,
      efg_diagonal_evals_hsort = None,
      efg_diagonal_evecs = None\<rparr>"

section \<open>Aggregation of equivalent sites\<close>

text \<open>
  The table of \<open>nmr\<close> at the point where it is aggregated
  (\<open>if average_group or reduce:\<close>): the integer column \<open>tags\<close> and the other columns
  by name, in order. A column has integer, float or object dtype; a float cell may be NaN
  (\<open>None\<close>); \<open>SetCol\<close> is the object column of Python sets that the rule \<open>set\<close>
  leaves. All columns of a table have the length of \<open>tags\<close>. What pandas does for
  \<open>groupby\<close> and \<open>agg\<close> is written out: the groups are the rows of equal tag, in
  increasing order of the tag; \<open>mean\<close> averages the cells that are not NaN, \<open>first\<close>
  takes the first cell that is not NaN, \<open>count\<close> counts the cells that are not NaN, and
  \<open>set\<close> collects the cells of the group.
\<close>

datatype column =
    IntCol "int list"
  | FloatCol "real option list"
  | ObjCol "string list"
  | SetCol "string set list"

datatype rule = Mean | First | Count | SetRule

record dataframe =
  df_tags :: "int list"
  df_columns :: "(string \<times> column) list"

fun is_object :: "column \<Rightarrow> bool" where
  "is_object (IntCol xs) = False"
| "is_object (FloatCol xs) = False"
| "is_object (ObjCol xs) = True"
| "is_object (SetCol xs) = True"

text \<open>The cells of a column in the rows tagged \<open>k\<close>, in row order.\<close>

definition group_values :: "int list \<Rightarrow> 'a list \<Rightarrow> int \<Rightarrow> 'a list" where
  "group_values ts xs k = map snd (filter (\<lambda>(t, x). t = k) (zip ts xs))"

text \<open>The values of the cells that are not NaN.\<close>

definition dropna :: "real option list \<Rightarrow> real list" where
  "dropna cells = List.map_filter (\<lambda>c. c) cells"

definition mean_skipna :: "real option list \<Rightarrow> real option" where
  "mean_skipna cells =
     (let vs = dropna cells
      in if vs = [] then None else Some (sum_list vs / real (length vs)))"

definition first_notna :: "real option list \<Rightarrow> real option" where
  "first_notna cells = (case dropna cells of [] \<Rightarrow> None | v # vs \<Rightarrow> Some v)"

text \<open>
  One column aggregated over the groups \<open>keys\<close>. The mean of an object column raises
  \<open>TypeError\<close>. The rule \<open>set\<close> is only ever given to label columns, whose sets are
  joined with commas afterwards; on a numeric column that join raises \<open>TypeError\<close>,
  which is what the model gives for the rule there.
\<close>

fun agg_column :: "rule \<Rightarrow> column \<Rightarrow> int list \<Rightarrow> int list \<Rightarrow> error + column" where
  "agg_column Mean (IntCol xs) ts keys =
     Inr (FloatCol (map (\<lambda>k. mean_skipna (map (\<lambda>x. Some (real_of_int x)) (group_values ts xs k))) keys))"
| "agg_column Mean (FloatCol xs) ts keys =
     Inr (FloatCol (map (\<lambda>k. mean_skipna (group_values ts xs k)) keys))"
| "agg_column Mean (ObjCol xs) ts keys = Inl TypeError"
| "agg_column Mean (SetCol xs) ts keys = Inl TypeError"
| "agg_column First (IntCol xs) ts keys = Inr (IntCol (map (\<lambda>k. hd (group_values ts xs k)) keys))"
| "agg_column First (FloatCol xs) ts keys =
     Inr (FloatCol (map (\<lambda>k. first_notna (group_values ts xs k)) keys))"
| "agg_column First (ObjCol xs) ts keys = Inr (ObjCol (map (\<lambda>k. hd (group_values ts xs k)) keys))"
| "agg_column First (SetCol xs) ts keys = Inr (SetCol (map (\<lambda>k. hd (group_values ts xs k)) keys))"
| "agg_column Count (IntCol xs) ts keys =
     Inr (IntCol (map (\<lambda>k. int (length (group_values ts xs k))) keys))"
| "agg_column Count (FloatCol xs) ts keys =
     Inr (IntCol (map (\<lambda>k. int (length (dropna (group_values ts xs k)))) keys))"
| "agg_column Count (ObjCol xs) ts keys =
     Inr (IntCol (map (\<lambda>k. int (length (group_values ts xs k))) keys))"
| "agg_column Count (SetCol xs) ts keys =
     Inr (IntCol (map (\<lambda>k. int (length (group_values ts xs k))) keys))"
| "agg_column SetRule (ObjCol xs) ts keys =
     Inr (SetCol (map (\<lambda>k. set (group_values ts xs k)) keys))"
| "agg_column SetRule (IntCol xs) ts keys = Inl TypeError"
| "agg_column SetRule (FloatCol xs) ts keys = Inl TypeError"
| "agg_column SetRule (SetCol xs) ts keys = Inl TypeError"

text \<open>
  \<open>aggrules\<close>, built as the source builds it: every column gets \<open>combine_rule\<close>, the
  object columns get \<open>first\<close>, the entries of \<open>indices\<close> and \<open>tags\<close> are deleted
  (\<open>KeyError\<close> when \<open>indices\<close> is not a column), \<open>labels\<close> gets \<open>set\<close>,
  \<open>MagresView_labels\<close> gets \<open>set\<close> when there is a column \<open>MagresViewLabels\<close>,
  and \<open>multiplicity\<close> gets \<open>count\<close>.
\<close>

definition aggrules :: "rule \<Rightarrow> (string \<times> column) list \<Rightarrow> error + (string \<times> rule) list" where
  "aggrules combine_rule cols =
     (let r1 = map (\<lambda>(name, c). (name, if is_object c then First else combine_rule)) cols
      in if ''indices'' \<notin> fst ` set r1 then Inl (KeyError ''indices'')
         else
           let r2 = AList.delete ''indices'' r1;
               r3 = AList.update ''labels'' SetRule r2;
               r4 = (if ''MagresViewLabels'' \<in> fst ` set cols
                     then AList.update ''MagresView_labels'' SetRule r3 else r3)
           in Inr (AList.update ''multiplicity'' Count r4))"

text \<open>\<open>sep.join(xs)\<close>.\<close>

fun join :: "string \<Rightarrow> string list \<Rightarrow> string" where
  "join sep [] = []"
| "join sep [x] = x"
| "join sep (x # y # ys) = x @ sep @ join sep (y # ys)"

text \<open>
  \<open>df['labels'].apply(lambda x: ','.join(x))\<close>. The order in which a Python set of
  strings is iterated is not fixed by the program; it is the parameter \<open>set_iter\<close>.
  Joining a string joins its characters.
\<close>

fun join_labels :: "(string set \<Rightarrow> string list) \<Rightarrow> column \<Rightarrow> error + column" where
  "join_labels set_iter (SetCol xs) = Inr (ObjCol (map (\<lambda>x. join '','' (set_iter x)) xs))"
| "join_labels set_iter (ObjCol xs) = Inr (ObjCol (map (\<lambda>x. join '','' (map (\<lambda>c. [c]) x)) xs))"
| "join_labels set_iter (IntCol xs) = (if xs = [] then Inr (IntCol xs) else Inl TypeError)"
| "join_labels set_iter (FloatCol xs) = (if xs = [] then Inr (FloatCol xs) else Inl TypeError)"

text \<open>\<open>','.join(sorted(list(x)))\<close> for the column \<open>MagresView_labels\<close>.\<close>

fun join_sorted :: "column \<Rightarrow> error + column" where
  "join_sorted (SetCol xs) = Inr (ObjCol (map (\<lambda>x. join '','' (sorted_list_of_set x)) xs))"
| "join_sorted (ObjCol xs) = Inr (ObjCol (map (\<lambda>x. join '','' (map (\<lambda>c. [c]) (sort x))) xs))"
| "join_sorted (IntCol xs) = (if xs = [] then Inr (IntCol xs) else Inl TypeError)"
| "join_sorted (FloatCol xs) = (if xs = [] then Inr (FloatCol xs) else Inl TypeError)"

text \<open>Apply a function that may raise to the column of one name, when there is one.\<close>

fun apply_column ::
  "string \<Rightarrow> (column \<Rightarrow> error + column) \<Rightarrow> (string \<times> column) list \<Rightarrow> error + (string \<times> column) list" where
  "apply_column name f [] = Inr []"
| "apply_column name f ((n, c) # cols) =
     (case (if n = name then f c else Inr c) of
        Inl e \<Rightarrow> Inl e
      | Inr c' \<Rightarrow>
          (case apply_column name f cols of Inl e \<Rightarrow> Inl e | Inr cols' \<Rightarrow> Inr ((n, c') # cols')))"

text \<open>
  The aggregation: \<open>grouped = df.groupby('tags')\<close>,
  \<open>df = grouped.agg(aggrules).reset_index()\<close> and the two joins. A rule for a name that
  is not a column raises \<open>KeyError\<close>.
\<close>

definition aggregate :: "(string set \<Rightarrow> string list) \<Rightarrow> rule \<Rightarrow> dataframe \<Rightarrow> error + dataframe" where
  "aggregate set_iter combine_rule df =
     (case aggrules combine_rule (df_columns df) of
        Inl e \<Rightarrow> Inl e
      | Inr rules \<Rightarrow>
          let keys = sort (remdups (df_tags df)) in
          (case traverse (\<lambda>(name, r).
                   case map_of (df_columns df) name of
                     None \<Rightarrow> Inl (KeyError name)
                   | Some c \<Rightarrow>
                       (case agg_column r c (df_tags df) keys of
                          Inl e \<Rightarrow> Inl e
                        | Inr c' \<Rightarrow> Inr (name, c')))
                 rules of
             Inl e \<Rightarrow> Inl e
           | Inr cols \<Rightarrow>
               (case apply_column ''labels'' (join_labels set_iter) cols of
                  Inl e \<Rightarrow> Inl e
                | Inr cols1 \<Rightarrow>
                    (case apply_column ''MagresView_labels'' join_sorted cols1 of
                       Inl e \<Rightarrow> Inl e
                     | Inr cols2 \<Rightarrow> Inr \<lparr>df_tags = keys, df_columns = cols2\<rparr>))))"

text \<open>The table of the example: four atoms tagged 0, 0, 1, 1.\<close>

definition test_table :: dataframe where
  "test_table =
     \<lparr>df_tags = [0, 0, 1, 1],
      df_columns =
        [(''indices'', IntCol [0, 1, 2, 3]),
         (''labels'', ObjCol [''H1'', ''H1'', ''H2'', ''H2'']),
         (''species'', ObjCol [''2H'', ''2H'', ''2H'', ''2H'']),
         (''multiplicity'', FloatCol [Some 1, Some 1, Some 1, Some 1]),
         (''file'', ObjCol [''a.magres'', ''a.magres'', ''a.magres'', ''a.magres'']),
         (''EFG_Vzz'', FloatCol [Some 10, Some 10, Some 5, Some 5]),
         (''EFG_asymmetry'', FloatCol [Some 0.1, Some 0.1, Some 0.3, Some 0.3])]\<rparr>"

section \<open>Functional groups\<close>

text \<open>\<open>s.split(c)\<close> for a separator of one character.\<close>

fun split_on :: "char \<Rightarrow> string \<Rightarrow> string list" where
  "split_on c [] = [[]]"
| "split_on c (x # xs) =
     (if x = c then [] # split_on c xs
      else (case split_on c xs of [] \<Rightarrow> [[x]] | w # ws \<Rightarrow> (x # w) # ws))"

text \<open>
  The matches of a candidate's tag vector among the tag vectors seen so far:
  \<open>np.where((seen_tags == tags[group]).all(axis=1))[0]\<close>, the indices of the rows of
  \<open>seen_tags\<close> equal to the vector, when \<open>seen_tags\<close> is not empty.
\<close>

definition find_matches :: "int list list \<Rightarrow> int list \<Rightarrow> nat list" where
  "find_matches seen_tags tg =
     (if length seen_tags > 0
      then filter (\<lambda>k. seen_tags ! k = tg) [0..<length seen_tags]
      else [])"

text \<open>
  One pass of \<open>for ix, xind in enumerate(xinds)\<close>, on the state \<open>(seen_tags, groups)\<close>.
  \<open>bmat\<close> is the bond matrix that \<open>Bonds\<close> (not part of the sources at hand) returns;
  \<open>group\<close> holds positions in \<open>hinds\<close>, as the source has it, and indexes \<open>tags\<close>
  with them.
\<close>

definition xhn_candidate ::
  "(nat \<Rightarrow> nat \<Rightarrow> nat) \<Rightarrow> nat list \<Rightarrow> int list \<Rightarrow> int \<Rightarrow> string \<Rightarrow> nat \<Rightarrow>
     int list list \<times> nat list list \<Rightarrow> error + int list list \<times> nat list list" where
  "xhn_candidate bmat hinds tags n group_pattern xind state =
     (case state of (seen_tags, groups) \<Rightarrow>
        let group = filter (\<lambda>j. bmat xind (hinds ! j) = 1) [0..<length hinds] in
        if int (length group) \<noteq> n then Inl AssertionError
        else
          (case traverse (list_getitem tags) group of
             Inl e \<Rightarrow> Inl e
           | Inr tg \<Rightarrow>
               let match = find_matches seen_tags tg in
               if length match = 1
               then Inr (seen_tags, groups[match ! 0 := groups ! (match ! 0) @ group])
               else if length match = 0
               then Inr (seen_tags @ [tg], groups @ [group])
               else Inl (ValueError (''Found multiple matches for '' @ group_pattern))))"

fun xhn_loop ::
  "(nat \<Rightarrow> nat \<Rightarrow> nat) \<Rightarrow> nat list \<Rightarrow> int list \<Rightarrow> int \<Rightarrow> string \<Rightarrow> nat list \<Rightarrow>
     int list list \<times> nat list list \<Rightarrow> error + int list list \<times> nat list list" where
  "xhn_loop bmat hinds tags n group_pattern [] state = Inr state"
| "xhn_loop bmat hinds tags n group_pattern (xind # xinds) state =
     (case xhn_candidate bmat hinds tags n group_pattern xind state of
        Inl e \<Rightarrow> Inl e
      | Inr state' \<Rightarrow> xhn_loop bmat hinds tags n group_pattern xinds state')"

text \<open>
  The body of \<open>for group_pattern in pattern_string.split(',')\<close>. \<open>py_int\<close> stands for
  Python's \<open>int\<close> on a string, \<open>None\<close> when it raises \<open>ValueError\<close>. Unpacking
  \<open>group_pattern.split('H')\<close> into \<open>X, n\<close> raises \<open>ValueError\<close> unless there are
  exactly two parts.
\<close>

definition find_pattern_groups ::
  "(string \<Rightarrow> int option) \<Rightarrow> string list \<Rightarrow> (nat \<Rightarrow> nat \<Rightarrow> nat) \<Rightarrow> int list \<Rightarrow> string \<Rightarrow>
     error + nat list list" where
  "find_pattern_groups py_int symbs bmat tags group_pattern =
     (if CHR ''H'' \<notin> set group_pattern
      then Inl (ValueError (group_pattern @ '' is not a valid group pattern (must contain an element symbol, H, and the number of H atoms. e.g. CH3)''))
      else
        (case split_on CHR ''H'' group_pattern of
           [X, n_str] \<Rightarrow>
             (case py_int n_str of
                None \<Rightarrow> Inl (ValueError ''invalid literal for int()'')
              | Some n \<Rightarrow>
                  let hinds = filter (\<lambda>i. symbs ! i = ''H'') [0..<length symbs];
                      xinds = filter (\<lambda>i. symbs ! i = X) [0..<length symbs];
                      xinds = filter (\<lambda>x. int (sum_list (map (bmat x) hinds)) = n) xinds
                  in (case xhn_loop bmat hinds tags n group_pattern xinds ([], []) of
                        Inl e \<Rightarrow> Inl e
                      | Inr (seen_tags, groups) \<Rightarrow> Inr groups))
         | _ \<Rightarrow> Inl (ValueError ''too many values to unpack'')))"

text \<open>
  \<open>find_XHn_groups\<close>: \<open>symbs\<close> are the chemical symbols of \<open>atoms\<close>; without
  \<open>tags\<close> every atom is tagged by its index.
\<close>

definition find_XHn_groups ::
  "(string \<Rightarrow> int option) \<Rightarrow> string list \<Rightarrow> (nat \<Rightarrow> nat \<Rightarrow> nat) \<Rightarrow> string \<Rightarrow> int list option \<Rightarrow>
     error + nat list list list" where
  "find_XHn_groups py_int symbs bmat pattern_string tags =
     (let tags = (case tags of None \<Rightarrow> map int [0..<length symbs] | Some t \<Rightarrow> t)
      in traverse (find_pattern_groups py_int symbs bmat tags) (split_on CHR '','' pattern_string))"

text \<open>
  The test molecule: six hydrogens and two carbons, the first carbon bonded to hydrogens
  0, 1, 2 and the second to hydrogens 3, 4, 5; every hydrogen carries tag 1 and every
  carbon tag 2, as symmetry-equivalent methyl groups do. \<open>digits_int\<close> is \<open>int\<close> on
  the strings of one digit.
\<close>

definition test_symbs :: "string list" where
  "test_symbs = [''H'', ''H'', ''H'', ''H'', ''H'', ''H'', ''C'', ''C'']"

definition test_bmat :: "nat \<Rightarrow> nat \<Rightarrow> nat" where
  "test_bmat i j =
     (if (i = 6 \<and> j < 3) \<or> (j = 6 \<and> i < 3) \<or> (i = 7 \<and> 3 \<le> j \<and> j < 6) \<or> (j = 7 \<and> 3 \<le> i \<and> i < 6)
      then 1 else 0)"

definition test_tags :: "int list" where
  "test_tags = [1, 1, 1, 1, 1, 1, 2, 2]"

definition digits_int :: "string \<Rightarrow> int option" where
  "digits_int s =
     (case s of
        [c] \<Rightarrow> (if c \<in> set ''0123456789''
                then Some (int (length (takeWhile (\<lambda>d. d \<noteq> c) ''0123456789''))) else None)
      | _ \<Rightarrow> None)"

text \<open>
  Ethane with the carbons first: atoms 0 and 1 are carbons, the first bonded to hydrogens
  2, 3, 4 and the second to hydrogens 5, 6, 7; the carbons carry tag 5 and the hydrogens of
  each methyl group the tags 1, 2, 3.
\<close>

definition ethane_symbs :: "string list" where
  "ethane_symbs = [''C'', ''C'', ''H'', ''H'', ''H'', ''H'', ''H'', ''H'']"

definition ethane_bmat :: "nat \<Rightarrow> nat \<Rightarrow> nat" where
  "ethane_bmat i j =
     (if (i = 0 \<and> 2 \<le> j \<and> j < 5) \<or> (j = 0 \<and> 2 \<le> i \<and> i < 5) \<or>
         (i = 1 \<and> 5 \<le> j \<and> j < 8) \<or> (j = 1 \<and> 5 \<le> i \<and> i < 8)
      then 1 else 0)"

definition ethane_tags :: "int list" where
  "ethane_tags = [5, 5, 1, 2, 3, 1, 2, 3]"

section \<open>Properties of AtomsProperty.get\<close>

subsection \<open>Helper facts\<close>

lemma np_binop_same_length:
  "length a = length b \<Longrightarrow> np_binop f a b = Inr (map (\<lambda>i. f (a ! i) (b ! i)) [0..<length b])"
  by (auto simp: np_binop_def broadcast_len_def)

lemma broadcast_axes_same: "broadcast_axes xs xs = Some xs"
  by (induction xs) (simp_all add: broadcast_len_def)

lemma broadcast_shape_same: "broadcast_shape sh sh = Some sh"
  by (simp add: broadcast_shape_def broadcast_axes_same)

lemma ravel_unravel: "i < prod_list sh \<Longrightarrow> ravel sh (unravel sh i) = i"
proof (induction sh arbitrary: i)
  case Nil
  then show ?case by simp
next
  case (Cons d ds)
  have pos: "0 < prod_list ds"
  proof (rule ccontr)
    assume "\<not> 0 < prod_list ds"
    then show False using Cons.prems by simp
  qed
  then have "i mod prod_list ds < prod_list ds" by simp
  from Cons.IH[OF this] have ih: "ravel ds (unravel ds (i mod prod_list ds)) = i mod prod_list ds" .
  show ?case
  proof (cases "d = 1")
    case True
    then have "i < prod_list ds" using Cons.prems by simp
    then show ?thesis using True ih by simp
  next
    case False
    then show ?thesis using ih by simp
  qed
qed

lemma nd_item_same: "i < prod_list sh \<Longrightarrow> nd_item sh a sh i = a ! i"
  by (simp add: nd_item_def ravel_unravel)

lemma nd_add_same:
  "nd_add (sh, a) (sh, b) = Inr (sh, map (\<lambda>i. a ! i + b ! i) [0..<prod_list sh])"
  by (simp add: nd_add_def broadcast_shape_same nd_item_same)

lemma py_sum_from_arrays:
  "length acc = prod_list sh \<Longrightarrow>
   py_sum_from (Some (sh, acc)) (map (NdArray sh) arrs) =
     Inr (Some (sh, map (\<lambda>j. acc ! j + (\<Sum>a\<leftarrow>arrs. a ! j)) [0..<prod_list sh]))"
proof (induction arrs arbitrary: acc)
  case Nil
  have "map ((!) acc) [0..<length acc] = acc" by (rule map_nth)
  then show ?case using Nil by simp
next
  case (Cons a arrs)
  let ?acc' = "map (\<lambda>i. acc ! i + a ! i) [0..<prod_list sh]"
  have step: "sum_step (Some (sh, acc)) (NdArray sh a) = Inr (sh, ?acc')"
    by (simp add: nd_add_same)
  have "length ?acc' = prod_list sh" by simp
  from Cons.IH[OF this] show ?case
    using step by (simp add: add.assoc)
qed

lemma sum_step_first: "sum_step None (NdArray sh a) = Inr (sh, a)"
  by (simp add: map_idI)

lemma py_mean_arrays:
  assumes "arrs \<noteq> []" and "\<forall>a \<in> set arrs. length a = prod_list sh"
  shows "py_mean (map (NdArray sh) arrs) =
     Inr (NdArray sh (map (\<lambda>j. (\<Sum>a\<leftarrow>arrs. a ! j) / real (length arrs)) [0..<prod_list sh]))"
proof -
  obtain a0 rest where ar: "arrs = a0 # rest" using assms(1) by (cases arrs) auto
  have l0: "length a0 = prod_list sh" using assms(2) ar by simp
  from py_sum_from_arrays[OF l0, of rest]
  have total: "py_sum_from None (map (NdArray sh) arrs) =
          Inr (Some (sh, map (\<lambda>j. a0 ! j + (\<Sum>a\<leftarrow>rest. a ! j)) [0..<prod_list sh]))"
    using ar by (simp add: sum_step_first del: sum_step.simps)
  show ?thesis unfolding py_mean_def total using ar by (simp add: comp_def)
qed

lemma py_mean_scalars:
  assumes "xs \<noteq> []"
  shows "py_mean (map scalar xs) = Inr (scalar (sum_list xs / real (length xs)))"
proof -
  have m: "map scalar xs = map (NdArray []) (map (\<lambda>x. [x]) xs)"
    by (simp add: scalar_def comp_def)
  have s: "map (\<lambda>j. (\<Sum>a\<leftarrow>map (\<lambda>x. [x]) xs. a ! j) / real (length (map (\<lambda>x. [x]) xs)))
                 [0..<prod_list []] = [sum_list xs / real (length xs)]"
    by (simp add: comp_def)
  have "py_mean (map (NdArray []) (map (\<lambda>x. [x]) xs)) =
          Inr (NdArray [] (map (\<lambda>j. (\<Sum>a\<leftarrow>map (\<lambda>x. [x]) xs. a ! j) / real (length (map (\<lambda>x. [x]) xs)))
                            [0..<prod_list []]))"
    by (rule py_mean_arrays) (use assms in auto)
  then show ?thesis unfolding m s by (simp add: scalar_def)
qed

lemma py_sum_from_nd:
  "py_sum_from (Some acc) (map (\<lambda>x. NdArray (fst x) (snd x)) xs) =
     (case nd_sum_from acc xs of Inl e \<Rightarrow> Inl e | Inr tot \<Rightarrow> Inr (Some tot))"
  by (induction xs arbitrary: acc) (auto split: sum.splits)

lemma py_mean_nd:
  "py_mean (map (\<lambda>x. NdArray (fst x) (snd x)) (x0 # xs)) =
     (case nd_sum_from x0 xs of
        Inl e \<Rightarrow> Inl e
      | Inr tot \<Rightarrow> Inr (NdArray (fst tot) (map (\<lambda>x. x / real (Suc (length xs))) (snd tot))))"
  unfolding py_mean_def
  by (simp add: sum_step_first py_sum_from_nd del: sum_step.simps split: sum.splits)

lemma traverse_cong:
  "(\<And>x. x \<in> set xs \<Longrightarrow> f x = g x) \<Longrightarrow> traverse f xs = traverse g xs"
  by (induction xs) (auto split: sum.splits)

lemma traverse_Inr: "traverse (\<lambda>x. Inr (g x)) xs = Inr (map g xs)"
  by (induction xs) auto

lemma traverse_map: "traverse f (map h xs) = traverse (\<lambda>x. f (h x)) xs"
  by (induction xs) (auto split: sum.splits)

lemma get_frames_length:
  "get_frames extract s = (Inr rs, s') \<Longrightarrow> length rs = length s"
  by (induction s arbitrary: rs s') (auto split: prod.splits sum.splits)

lemma average_sites_lists:
  assumes "ls \<noteq> []"
  shows "average_sites ta (map PyList ls) =
     (case traverse (\<lambda>i. ta (map (\<lambda>l. l ! i) ls)) [0..<Min (length ` set ls)] of
        Inl e \<Rightarrow> Inl e | Inr avs \<Rightarrow> Inr (PyList avs))"
proof -
  have lens: "traverse py_len (map PyList ls) = Inr (map length ls)"
    by (simp add: traverse_map traverse_Inr)
  have items: "traverse (\<lambda>r. py_getitem r i) (map PyList ls) = Inr (map (\<lambda>l. l ! i) ls)"
    if "i < Min (length ` set ls)" for i
  proof -
    have "\<And>l. l \<in> set ls \<Longrightarrow> i < length l"
      using that assms by simp
    then have "traverse (\<lambda>l. py_getitem (PyList l) i) ls = traverse (\<lambda>l. Inr (l ! i)) ls"
      by (intro traverse_cong) simp
    then show ?thesis by (simp add: traverse_map traverse_Inr)
  qed
  have "traverse (\<lambda>i. case traverse (\<lambda>r. py_getitem r i) (map PyList ls) of
                         Inl e \<Rightarrow> Inl e | Inr items \<Rightarrow> ta items)
                 [0..<Min (length ` set ls)] =
        traverse (\<lambda>i. ta (map (\<lambda>l. l ! i) ls)) [0..<Min (length ` set ls)]"
    by (rule traverse_cong) (simp add: items)
  then show ?thesis
    unfolding average_sites_def lens by (simp add: image_image)
qed


subsection \<open>The claims\<close>

text \<open>
  C10. On an empty list of structures with \<open>average=True\<close>, \<open>get\<close> returns
  \<open>None\<close>: nothing is raised, and no frame is there to evaluate (the list is unchanged).
\<close>

theorem get_empty_average_none:
  "get tensor_average extract True (Frames []) = (Inr NoneVal, Frames [])"
  by (simp add: average_results_def)

text \<open>
  C6. On a non-empty list of structures with \<open>average=False\<close>, \<open>get\<close> returns what
  the property gives on the last element \<open>s[-1]\<close> alone: the value is that of
  \<open>get\<close> on the last structure, and the list after the call differs from the list before
  at most in its last element, the only one \<open>extract\<close> was run on.
\<close>

theorem get_last_frame:
  assumes "s \<noteq> []"
  shows "get tensor_average extract False (Frames s) =
           (fst (extract (last s)), Frames (butlast s @ [snd (extract (last s))])) \<and>
         fst (get tensor_average extract False (Frames s)) =
           fst (get tensor_average extract False (Single (last s)))"
  using assms by (simp add: split_beta)

theorem get_last_frame_witness:
  "[1, 2, 3 :: nat] \<noteq> [] \<and>
   get (\<lambda>items. Inr (hd items)) (\<lambda>a::nat. (Inr (NdArray [1] [real a] :: (unit, unit) pyval), a + 10)) False
       (Frames [1, 2, 3]) = (Inr (NdArray [1] [3]), Frames [1, 2, 13])"
  using get_last_frame[of "[1, 2, 3 :: nat]" "\<lambda>items. Inr (hd items)"
      "\<lambda>a::nat. (Inr (NdArray [1] [real a] :: (unit, unit) pyval), a + 10)"]
  by simp

text \<open>
  C5 as stated fails. With \<open>average=True\<close> the tensor branch is taken only when the
  first frame's result is a non-empty list whose first object carries \<open>data\<close>; every
  other case goes to \<open>sum(results) / len(results)\<close>, and \<open>sum\<close> starts from the
  integer 0, so a result that is a list or \<open>None\<close> raises \<open>TypeError\<close> there
  instead of giving a mean. Three trajectories of two frames show it: one whose frames give
  lists of objects without \<open>data\<close> (as the dictionaries of \<open>EFGNQR\<close>), one whose
  first frame gives an empty list and whose second gives a list of one tensor, and one whose
  frames give \<open>None\<close>.
\<close>

theorem get_average_frames_counterexample:
  "get (\<lambda>items. Inr (hd items)) (\<lambda>a::nat. (Inr (PyList [NoData (), NoData ()]), a)) True (Frames [1, 2])
     = (Inl TypeError :: error + (unit, unit) pyval, Frames [1, 2]) \<and>
   get (\<lambda>items. Inr (hd items))
       (\<lambda>a::nat. (Inr (PyList (if a = 1 then [] else [HasData ()])), a)) True (Frames [1, 2])
     = (Inl TypeError :: error + (unit, unit) pyval, Frames [1, 2]) \<and>
   get (\<lambda>items. Inr (hd items)) (\<lambda>a::nat. (Inr NoneVal, a)) True (Frames [1, 2])
     = (Inl TypeError :: error + (unit, unit) pyval, Frames [1, 2])"
  by (simp add: average_results_def py_mean_def)

text \<open>
  C5, amended. For a non-empty trajectory whose frames all extract without raising, with
  \<open>average=True\<close>: if every frame's result is a list and the first frame's list is
  non-empty with a first object carrying \<open>data\<close>, the result is the per-site list, of
  length the minimum frame result length, whose \<open>i\<close>-th entry is
  \<open>NMRTensor.average\<close> of the frames' \<open>i\<close>-th entries (or the first raise of
  \<open>NMRTensor.average\<close>). If every frame's result is a number or a numeric array, the
  result is the sum of the per-frame results, with numpy's addition, divided by the number of
  frames (or the \<open>ValueError\<close> of shapes that do not broadcast together); when the
  results have one common shape, of any number of dimensions, that is the elementwise
  arithmetic mean, and for numbers it is their arithmetic mean.
\<close>

theorem get_average_frames:
  assumes "s \<noteq> []" and "get_frames extract s = (Inr results, s')"
  shows "(results = map PyList ls \<and> (\<exists>x xs. hd ls = x # xs \<and> hasattr_data x) \<longrightarrow>
            get tensor_average extract True (Frames s) =
              ((case traverse (\<lambda>i. tensor_average (map (\<lambda>l. l ! i) ls))
                              [0..<Min (length ` set ls)] of
                  Inl e \<Rightarrow> Inl e | Inr avs \<Rightarrow> Inr (PyList avs)), Frames s')) \<and>
         (results = map (\<lambda>x. NdArray (fst x) (snd x)) (r # rest) \<longrightarrow>
            get tensor_average extract True (Frames s) =
              ((case nd_sum_from r rest of
                  Inl e \<Rightarrow> Inl e
                | Inr tot \<Rightarrow> Inr (NdArray (fst tot) (map (\<lambda>x. x / real (length s)) (snd tot)))),
               Frames s')) \<and>
         (results = map (NdArray sh) arrs \<and> (\<forall>a \<in> set arrs. length a = prod_list sh) \<longrightarrow>
            get tensor_average extract True (Frames s) =
              (Inr (NdArray sh (map (\<lambda>j. (\<Sum>a\<leftarrow>arrs. a ! j) / real (length s)) [0..<prod_list sh])),
               Frames s')) \<and>
         (results = map scalar nums \<longrightarrow>
            get tensor_average extract True (Frames s) =
              (Inr (scalar (sum_list nums / real (length s))), Frames s'))"
proof (intro conjI impI)
  have len: "length results = length s" using assms(2) by (rule get_frames_length)
  then have ne: "results \<noteq> []" using assms(1) by auto
  have run: "get tensor_average extract True (Frames s) = (average_results tensor_average results, Frames s')"
    using assms(2) by simp
  {
    assume h: "results = map PyList ls \<and> (\<exists>x xs. hd ls = x # xs \<and> hasattr_data x)"
    then obtain x xs where hx: "hd ls = x # xs" "hasattr_data x" by blast
    have lne: "ls \<noteq> []" using h ne by auto
    then obtain l0 rest where ll: "ls = l0 # rest" by (cases ls) auto
    have "average_results tensor_average results = average_sites tensor_average results"
      using h hx ll by (simp add: average_results_def)
    then show "get tensor_average extract True (Frames s) =
              ((case traverse (\<lambda>i. tensor_average (map (\<lambda>l. l ! i) ls))
                              [0..<Min (length ` set ls)] of
                  Inl e \<Rightarrow> Inl e | Inr avs \<Rightarrow> Inr (PyList avs)), Frames s')"
      using run h average_sites_lists[OF lne, of tensor_average] by simp
  }
  {
    assume h: "results = map (\<lambda>x. NdArray (fst x) (snd x)) (r # rest)"
    have "average_results tensor_average results = py_mean results"
      using h by (simp add: average_results_def)
    moreover have eq: "Suc (length rest) = length s" using h len by auto
    ultimately show "get tensor_average extract True (Frames s) =
              ((case nd_sum_from r rest of
                  Inl e \<Rightarrow> Inl e
                | Inr tot \<Rightarrow> Inr (NdArray (fst tot) (map (\<lambda>x. x / real (length s)) (snd tot)))),
               Frames s')"
      unfolding run h py_mean_nd eq by simp
  }
  {
    assume h: "results = map (NdArray sh) arrs \<and> (\<forall>a \<in> set arrs. length a = prod_list sh)"
    have ane: "arrs \<noteq> []" using h ne by auto
    then obtain a0 rest where ar: "arrs = a0 # rest" by (cases arrs) auto
    have "average_results tensor_average results = py_mean results"
      using h ar by (simp add: average_results_def)
    moreover have "length arrs = length s" using h len by auto
    ultimately show "get tensor_average extract True (Frames s) =
              (Inr (NdArray sh (map (\<lambda>j. (\<Sum>a\<leftarrow>arrs. a ! j) / real (length s)) [0..<prod_list sh])),
               Frames s')"
      using run h py_mean_arrays[OF ane, of sh] by simp
  }
  {
    assume h: "results = map scalar nums"
    have nne: "nums \<noteq> []" using h ne by auto
    then obtain n0 rest where nr: "nums = n0 # rest" by (cases nums) auto
    have "average_results tensor_average results = py_mean results"
      using h nr by (simp add: average_results_def scalar_def)
    moreover have "length nums = length s" using h len by auto
    ultimately show "get tensor_average extract True (Frames s) =
              (Inr (scalar (sum_list nums / real (length s))), Frames s')"
      using run h py_mean_scalars[OF nne] by simp
  }
qed

theorem get_average_frames_witness:
  "get (\<lambda>items. Inr (HasData (length items)))
       (\<lambda>a::nat. (Inr (PyList [HasData a, HasData (a + 1)] :: (nat, unit) pyval), a)) True (Frames [1, 2])
     = (Inr (PyList [HasData 2, HasData 2]), Frames [1, 2]) \<and>
   get (\<lambda>items. Inr (HasData (length items)))
       (\<lambda>a::nat. (Inr (if a = 1 then scalar 1 else NdArray [2] [2, 10] :: (nat, unit) pyval), a)) True
       (Frames [1, 2])
     = (Inr (NdArray [2] [3 / 2, 11 / 2]), Frames [1, 2]) \<and>
   get (\<lambda>items. Inr (HasData (length items)))
       (\<lambda>a::nat. (Inr (NdArray [2, 2] [real a, 0, 10, 2 * real a] :: (nat, unit) pyval), a)) True
       (Frames [1, 2])
     = (Inr (NdArray [2, 2] [3 / 2, 0, 10, 3]), Frames [1, 2]) \<and>
   get (\<lambda>items. Inr (HasData (length items)))
       (\<lambda>a::nat. (Inr (scalar (real a) :: (nat, unit) pyval), a)) True (Frames [1, 2])
     = (Inr (scalar (3 / 2)), Frames [1, 2])"
proof -
  let ?ta = "\<lambda>items :: (nat, unit) pyobj list. Inr (HasData (length items)) :: error + (nat, unit) pyobj"
  let ?e1 = "\<lambda>a::nat. (Inr (PyList [HasData a, HasData (a + 1)] :: (nat, unit) pyval), a)"
  let ?e2 = "\<lambda>a::nat. (Inr (if a = 1 then scalar 1 else NdArray [2] [2, 10] :: (nat, unit) pyval), a)"
  let ?e3 = "\<lambda>a::nat. (Inr (NdArray [2, 2] [real a, 0, 10, 2 * real a] :: (nat, unit) pyval), a)"
  let ?e4 = "\<lambda>a::nat. (Inr (scalar (real a) :: (nat, unit) pyval), a)"
  have ne: "[1, 2 :: nat] \<noteq> []" by simp
  have upt2: "[0..<2] = [0, Suc 0]" by code_simp
  have upt4: "[0..<4] = [0, Suc 0, Suc (Suc 0), Suc (Suc (Suc 0))]" by code_simp
  have f1: "get_frames ?e1 [1, 2] = (Inr [PyList [HasData 1, HasData 2], PyList [HasData 2, HasData 3]], [1, 2])"
    by simp
  have f2: "get_frames ?e2 [1, 2] = (Inr [scalar 1, NdArray [2] [2, 10]], [1, 2])"
    by simp
  have f3: "get_frames ?e3 [1, 2] = (Inr [NdArray [2, 2] [1, 0, 10, 2], NdArray [2, 2] [2, 0, 10, 4]], [1, 2])"
    by simp
  have f4: "get_frames ?e4 [1, 2] = (Inr [scalar 1, scalar 2], [1, 2])"
    by simp
  have bs: "nd_add ([], [1]) ([2], [2, 10]) = Inr ([2], [3, 11])"
    by (simp add: nd_add_def broadcast_shape_def nd_item_def upt2)
  from get_average_frames[OF ne f1, where ls = "[[HasData 1, HasData 2], [HasData 2, HasData 3]]"
      and tensor_average = ?ta]
  have a: "get ?ta ?e1 True (Frames [1, 2]) = (Inr (PyList [HasData 2, HasData 2]), Frames [1, 2])"
    by (simp add: upt2)
  from get_average_frames[OF ne f2, where r = "([], [1])" and rest = "[([2], [2, 10])]"
      and tensor_average = ?ta]
  have b: "get ?ta ?e2 True (Frames [1, 2]) = (Inr (NdArray [2] [3 / 2, 11 / 2]), Frames [1, 2])"
    by (simp add: scalar_def bs)
  from get_average_frames[OF ne f3, where sh = "[2, 2]" and arrs = "[[1, 0, 10, 2], [2, 0, 10, 4]]"
      and tensor_average = ?ta]
  have c: "get ?ta ?e3 True (Frames [1, 2]) = (Inr (NdArray [2, 2] [3 / 2, 0, 10, 3]), Frames [1, 2])"
    by (simp add: upt4)
  from get_average_frames[OF ne f4, where nums = "[1, 2]" and tensor_average = ?ta]
  have d: "get ?ta ?e4 True (Frames [1, 2]) = (Inr (scalar (3 / 2)), Frames [1, 2])"
    by simp
  from a b c d show ?thesis by simp
qed

section \<open>Properties of average_quaternions_by_tags\<close>

subsection \<open>Helper facts\<close>

lemma distinct_tally_append:
  "distinct (map fst tally) \<Longrightarrow> distinct (map fst (tally_append tally item i))"
  by (simp add: tally_append_def distinct_update)

lemma map_of_tally_append:
  "map_of (tally_append tally item i) k =
     (if k = item then Some ((case map_of tally item of None \<Rightarrow> [] | Some locs \<Rightarrow> locs) @ [i])
      else map_of tally k)"
  by (simp add: tally_append_def update_conv')

lemma distinct_tally_from:
  "distinct (map fst tally) \<Longrightarrow> distinct (map fst (tally_from i seq tally))"
  by (induction seq arbitrary: i tally) (simp_all add: distinct_tally_append)

lemma map_of_tally_from:
  "map_of (tally_from i seq tally) k =
     (let new = map (\<lambda>j. i + j) (filter (\<lambda>j. seq ! j = k) [0..<length seq])
      in if new = [] then map_of tally k
         else Some ((case map_of tally k of None \<Rightarrow> [] | Some locs \<Rightarrow> locs) @ new))"
proof (induction seq arbitrary: i tally)
  case Nil
  then show ?case by simp
next
  case (Cons item seq)
  have upt: "[0..<length (item # seq)] = 0 # map Suc [0..<length seq]"
    by (simp add: upt_conv_Cons map_Suc_upt del: upt_Suc)
  show ?case
    unfolding tally_from.simps Cons.IH upt
    by (auto simp: Let_def map_of_tally_append filter_map comp_def split: option.splits)
qed

lemma map_of_tally: "map_of (tally_from 0 tags []) t =
    (if positions tags t = [] then None else Some (positions tags t))"
  by (simp add: map_of_tally_from positions_def Let_def)

lemma distinct_get_duplicates: "distinct (map fst (get_duplicates tags))"
  unfolding get_duplicates_def
  by (rule distinct_map_filter) (simp add: distinct_tally_from)

lemma in_get_duplicates:
  "(t, idx) \<in> set (get_duplicates tags) \<longleftrightarrow> idx = positions tags t \<and> 1 < length idx"
proof -
  have d: "distinct (map fst (tally_from 0 tags []))" by (simp add: distinct_tally_from)
  have "(t, idx) \<in> set (tally_from 0 tags []) \<longleftrightarrow> map_of (tally_from 0 tags []) t = Some idx"
    using d by simp
  then show ?thesis
    by (auto simp: get_duplicates_def map_of_tally split: if_splits)
qed

lemma set_positions: "set (positions tags t) = {j. j < length tags \<and> tags ! j = t}"
  by (auto simp: positions_def)

lemma distinct_positions: "distinct (positions tags t)"
  by (simp add: positions_def)

lemma shared_positions:
  assumes "i < length tags"
  shows "1 < length (positions tags (tags ! i)) \<longleftrightarrow> (\<exists>j < length tags. j \<noteq> i \<and> tags ! j = tags ! i)"
proof
  assume l: "1 < length (positions tags (tags ! i))"
  have "card (set (positions tags (tags ! i))) = length (positions tags (tags ! i))"
    by (rule distinct_card) (rule distinct_positions)
  with l have "1 < card (set (positions tags (tags ! i)))" by simp
  then have "\<not> set (positions tags (tags ! i)) \<subseteq> {i}"
    using card_mono[of "{i}" "set (positions tags (tags ! i))"] by auto
  then show "\<exists>j < length tags. j \<noteq> i \<and> tags ! j = tags ! i"
    by (auto simp: set_positions)
next
  assume "\<exists>j < length tags. j \<noteq> i \<and> tags ! j = tags ! i"
  then obtain j where j: "j < length tags" "j \<noteq> i" "tags ! j = tags ! i" by blast
  have "{i, j} \<subseteq> set (positions tags (tags ! i))"
    using assms j by (auto simp: set_positions)
  then have "card {i, j} \<le> card (set (positions tags (tags ! i)))"
    by (intro card_mono) auto
  then have "2 \<le> length (positions tags (tags ! i))"
    using j(2) by (simp add: distinct_card[OF distinct_positions])
  then show "1 < length (positions tags (tags ! i))" by simp
qed

lemma traverse_getitem:
  "\<forall>j \<in> set idx. j < length qs \<Longrightarrow> traverse (list_getitem qs) idx = Inr (map ((!) qs) idx)"
  by (induction idx) (auto simp: list_getitem_def)

lemma traverse_getitem_Inr:
  "traverse (list_getitem qs) idx = Inr g \<Longrightarrow> (\<forall>j \<in> set idx. j < length qs) \<and> g = map ((!) qs) idx"
  by (induction idx arbitrary: g) (auto simp: list_getitem_def split: if_splits sum.splits)

lemma length_fold_update: "length (fold (\<lambda>ig qs. qs[ig := v]) idx qs) = length qs"
  by (induction idx arbitrary: qs) auto

lemma nth_fold_update:
  "i < length qs \<Longrightarrow> fold (\<lambda>ig qs. qs[ig := v]) idx qs ! i = (if i \<in> set idx then v else qs ! i)"
  by (induction idx arbitrary: qs) (auto simp: length_fold_update)

lemma average_groups_result:
  assumes "average_groups avg gs qs = Inr qs'"
    and "distinct (map fst gs)"
    and "\<forall>(t, idx) \<in> set gs. idx = positions tags t"
  shows "length qs' = length qs \<and>
         (\<forall>(t, idx) \<in> set gs. \<forall>i \<in> set idx. i < length qs \<and> avg (map ((!) qs) idx) = Inr (qs' ! i)) \<and>
         (\<forall>i < length qs. (\<forall>(t, idx) \<in> set gs. i \<notin> set idx) \<longrightarrow> qs' ! i = qs ! i)"
  using assms
proof (induction gs arbitrary: qs)
  case Nil
  then show ?case by simp
next
  case (Cons g gs)
  obtain t idx where g: "g = (t, idx)" by (cases g)
  from Cons.prems(1) g obtain grp av where
    grp: "traverse (list_getitem qs) idx = Inr grp" and av: "avg grp = Inr av" and
    rest: "average_groups avg gs (fold (\<lambda>ig qs. qs[ig := av]) idx qs) = Inr qs'"
    by (auto split: sum.splits)
  let ?qs1 = "fold (\<lambda>ig qs. qs[ig := av]) idx qs"
  from traverse_getitem_Inr[OF grp] have inr: "\<forall>j \<in> set idx. j < length qs"
    and grp_eq: "grp = map ((!) qs) idx" by auto
  have idx: "idx = positions tags t" using Cons.prems(3) g by simp
  have d: "distinct (map fst gs)" and tnot: "t \<notin> fst ` set gs" using Cons.prems(2) g by auto
  have pos: "\<forall>(t, idx) \<in> set gs. idx = positions tags t" using Cons.prems(3) by simp
  from Cons.IH[OF rest d pos] have
    len: "length qs' = length ?qs1" and
    ingrp: "\<forall>(t', idx') \<in> set gs. \<forall>i \<in> set idx'. i < length ?qs1 \<and> avg (map ((!) ?qs1) idx') = Inr (qs' ! i)" and
    outgrp: "\<forall>i < length ?qs1. (\<forall>(t', idx') \<in> set gs. i \<notin> set idx') \<longrightarrow> qs' ! i = ?qs1 ! i"
    by auto
  have disj: "set idx' \<inter> set idx = {}" if "(t', idx') \<in> set gs" for t' idx'
  proof -
    have "idx' = positions tags t'" using pos that by auto
    moreover have "t' \<noteq> t" using tnot that by force
    ultimately show ?thesis using idx by (auto simp: set_positions)
  qed
  have same: "map ((!) ?qs1) idx' = map ((!) qs) idx'" if "(t', idx') \<in> set gs" for t' idx'
  proof (rule map_cong[OF refl])
    fix j assume j: "j \<in> set idx'"
    then have "j \<notin> set idx" using disj[OF that] by auto
    moreover have "j < length qs" using ingrp that j by (auto simp: length_fold_update)
    ultimately show "?qs1 ! j = qs ! j" by (simp add: nth_fold_update)
  qed
  have c1: "length qs' = length qs" using len by (simp add: length_fold_update)
  have c2: "\<forall>i \<in> set idx. i < length qs \<and> avg (map ((!) qs) idx) = Inr (qs' ! i)"
  proof
    fix i assume i: "i \<in> set idx"
    then have il: "i < length qs" using inr by simp
    have "\<forall>(t', idx') \<in> set gs. i \<notin> set idx'" using disj i by auto
    then have "qs' ! i = ?qs1 ! i" using outgrp il by (simp add: length_fold_update)
    then have "qs' ! i = av" using il i by (simp add: nth_fold_update)
    then show "i < length qs \<and> avg (map ((!) qs) idx) = Inr (qs' ! i)"
      using il av grp_eq by simp
  qed
  have c3: "\<forall>(t', idx') \<in> set gs. \<forall>i \<in> set idx'. i < length qs \<and> avg (map ((!) qs) idx') = Inr (qs' ! i)"
  proof (intro ballI, clarify)
    fix t' idx' i assume m: "(t', idx') \<in> set gs" and i: "i \<in> set idx'"
    from ingrp m i have "i < length ?qs1" and "avg (map ((!) ?qs1) idx') = Inr (qs' ! i)"
      by auto
    then show "i < length qs \<and> avg (map ((!) qs) idx') = Inr (qs' ! i)"
      using same[OF m] by (simp add: length_fold_update)
  qed
  have c4: "\<forall>i < length qs. (\<forall>(t', idx') \<in> set (g # gs). i \<notin> set idx') \<longrightarrow> qs' ! i = qs ! i"
    using outgrp g by (auto simp: length_fold_update nth_fold_update)
  show ?case using c1 c2 c3 c4 g by auto
qed

lemma average_groups_returns:
  assumes "\<forall>(t, idx) \<in> set gs. \<forall>j \<in> set idx. j < length qs"
    and "\<forall>g. \<exists>q. avg g = Inr q"
  shows "\<exists>qs'. average_groups avg gs qs = Inr qs'"
  using assms(1)
proof (induction gs arbitrary: qs)
  case Nil
  then show ?case by simp
next
  case (Cons g gs)
  obtain t idx where g: "g = (t, idx)" by (cases g)
  have "\<forall>j \<in> set idx. j < length qs" using Cons.prems g by auto
  then have grp: "traverse (list_getitem qs) idx = Inr (map ((!) qs) idx)"
    by (rule traverse_getitem)
  obtain av where av: "avg (map ((!) qs) idx) = Inr av" using assms(2) by blast
  have "\<forall>(t', idx') \<in> set gs. \<forall>j \<in> set idx'. j < length (fold (\<lambda>ig qs. qs[ig := av]) idx qs)"
    using Cons.prems by (auto simp: length_fold_update)
  then obtain qs' where "average_groups avg gs (fold (\<lambda>ig qs. qs[ig := av]) idx qs) = Inr qs'"
    using Cons.IH by blast
  then show ?case using g grp av by simp
qed

subsection \<open>The claim\<close>

text \<open>
  C9. \<open>average_quaternions_by_tags\<close>, on a list of quaternions with one tag each: the call
  returns when \<open>average_quaternions\<close> does not raise; and when it returns, the list has
  its length unchanged, every entry whose tag is shared with another entry holds the value
  \<open>average_quaternions\<close> gives on the original quaternions of all entries with that tag
  (so all entries of the group hold the same value), and every entry whose tag is unique
  keeps its original quaternion.
\<close>

theorem average_quaternions_by_tags_groups:
  assumes "length quaternions = length tags"
  shows "((\<forall>g. \<exists>q. average_quaternions g = Inr q) \<longrightarrow>
            (\<exists>qs'. average_quaternions_by_tags average_quaternions quaternions tags = Inr qs')) \<and>
         (\<forall>qs'. average_quaternions_by_tags average_quaternions quaternions tags = Inr qs' \<longrightarrow>
            length qs' = length quaternions \<and>
            (\<forall>i < length tags.
               if (\<exists>j < length tags. j \<noteq> i \<and> tags ! j = tags ! i)
               then average_quaternions (map ((!) quaternions) (positions tags (tags ! i))) = Inr (qs' ! i)
               else qs' ! i = quaternions ! i))"
proof (intro conjI impI allI)
  let ?gs = "get_duplicates tags"
  have pos: "\<forall>(t, idx) \<in> set ?gs. idx = positions tags t"
    by (auto simp: in_get_duplicates)
  {
    assume tot: "\<forall>g. \<exists>q. average_quaternions g = Inr q"
    have "\<forall>(t, idx) \<in> set ?gs. \<forall>j \<in> set idx. j < length quaternions"
      using pos assms by (auto simp: set_positions)
    from average_groups_returns[OF this tot]
    show "\<exists>qs'. average_quaternions_by_tags average_quaternions quaternions tags = Inr qs'"
      by (auto simp: average_quaternions_by_tags_def)
  }
  fix qs'
  assume run: "average_quaternions_by_tags average_quaternions quaternions tags = Inr qs'"
  have nodup: "\<not> (\<exists>j < length tags. j \<noteq> i \<and> tags ! j = tags ! i)"
    if "length (remdups tags) = length tags" and "i < length tags" for i
  proof -
    have "distinct tags" using that(1) by simp
    then show ?thesis using that(2) by (auto simp: nth_eq_iff_index_eq)
  qed
  show "length qs' = length quaternions"
  proof (cases "length (remdups tags) = length tags")
    case True
    then show ?thesis using run by (simp add: average_quaternions_by_tags_def)
  next
    case False
    then have "average_groups average_quaternions ?gs quaternions = Inr qs'"
      using run by (simp add: average_quaternions_by_tags_def)
    from average_groups_result[OF this distinct_get_duplicates pos] show ?thesis by simp
  qed
  fix i assume i: "i < length tags"
  show "if (\<exists>j < length tags. j \<noteq> i \<and> tags ! j = tags ! i)
        then average_quaternions (map ((!) quaternions) (positions tags (tags ! i))) = Inr (qs' ! i)
        else qs' ! i = quaternions ! i"
  proof (cases "length (remdups tags) = length tags")
    case True
    then have same: "qs' = quaternions" using run by (simp add: average_quaternions_by_tags_def)
    have nd: "\<not> (\<exists>j < length tags. j \<noteq> i \<and> tags ! j = tags ! i)" using nodup[OF True i] .
    show ?thesis unfolding if_not_P[OF nd] using same by simp
  next
    case False
    then have "average_groups average_quaternions ?gs quaternions = Inr qs'"
      using run by (simp add: average_quaternions_by_tags_def)
    from average_groups_result[OF this distinct_get_duplicates pos] have
      ingrp: "\<forall>(t, idx) \<in> set ?gs. \<forall>i \<in> set idx.
                 average_quaternions (map ((!) quaternions) idx) = Inr (qs' ! i)" and
      outgrp: "\<forall>i < length quaternions. (\<forall>(t, idx) \<in> set ?gs. i \<notin> set idx) \<longrightarrow> qs' ! i = quaternions ! i"
      by auto
    show ?thesis
    proof (cases "\<exists>j < length tags. j \<noteq> i \<and> tags ! j = tags ! i")
      case True
      then have "1 < length (positions tags (tags ! i))" using shared_positions[OF i] by simp
      then have m: "(tags ! i, positions tags (tags ! i)) \<in> set ?gs"
        by (simp add: in_get_duplicates)
      have "i \<in> set (positions tags (tags ! i))" using i by (simp add: set_positions)
      with ingrp m True show ?thesis by auto
    next
      case nd: False
      have "\<forall>(t, idx) \<in> set ?gs. i \<notin> set idx"
      proof (clarify)
        fix t idx assume m: "(t, idx) \<in> set ?gs" and ii: "i \<in> set idx"
        from m have idx: "idx = positions tags t" and l: "1 < length idx"
          by (auto simp: in_get_duplicates)
        from ii idx have "tags ! i = t" by (simp add: set_positions)
        with l idx have "1 < length (positions tags (tags ! i))" by simp
        with shared_positions[OF i] nd show False by simp
      qed
      with outgrp i assms have "qs' ! i = quaternions ! i" by simp
      then show ?thesis unfolding if_not_P[OF nd] .
    qed
  qed
qed

theorem average_quaternions_by_tags_groups_witness:
  "length [1, 2, 3 :: int] = length [7, 8, 7 :: nat] \<and>
   average_quaternions_by_tags (\<lambda>g. Inr (sum_list g)) [1, 2, 3 :: int] [7, 8, 7 :: nat] = Inr [4, 2, 4] \<and>
   positions [7, 8, 7 :: nat] 7 = [0, 2] \<and>
   length [4, 2, 4 :: int] = length [1, 2, 3 :: int]"
proof -
  let ?avg = "\<lambda>g :: int list. Inr (sum_list g) :: error + int"
  have len: "length [1, 2, 3 :: int] = length [7, 8, 7 :: nat]" by simp
  have upt3: "[0..<3] = [0, Suc 0, Suc (Suc 0)]" by code_simp
  have pos: "positions [7, 8, 7 :: nat] 7 = [0, 2]" by (simp add: positions_def upt3)
  have dup: "get_duplicates [7, 8, 7 :: nat] = [(7, [0, 2])]"
    by (simp add: get_duplicates_def tally_append_def)
  have run: "average_quaternions_by_tags ?avg [1, 2, 3] [7, 8, 7 :: nat] = Inr [4, 2, 4]"
    by (simp add: average_quaternions_by_tags_def dup list_getitem_def)
  from average_quaternions_by_tags_groups[OF len, of ?avg] run
  have "length [4, 2, 4 :: int] = length [1, 2, 3 :: int]" by blast
  with len run pos show ?thesis by blast
qed

section \<open>Properties of the EFG extracts\<close>

subsection \<open>Printed lines are carried along\<close>

lemma has_efg_check_absent:
  "\<not> has s ''efg'' \<Longrightarrow>
   has_efg_check f (s, out) =
     (Inl (RuntimeError ''No electric field gradient data found for this system''), (s, out))"
  by (simp add: has_efg_check_def)

lemma has_efg_check_present: "has s ''efg'' \<Longrightarrow> has_efg_check f (s, out) = f (s, out)"
  by (simp add: has_efg_check_def)

lemma EFGDiagonal_out:
  "EFGDiagonal_extract lib sa (s, out) = (r, (s', out')) \<Longrightarrow>
   out' = out \<and> EFGDiagonal_extract lib sa (s, out2) = (r, (s', out2))"
  by (auto simp: EFGDiagonal_extract_def has_efg_check_def Let_def split: option.splits if_splits)

lemma ensure_diagonal_out:
  "ensure_diagonal lib fr (s, out) = (r, (s', out')) \<Longrightarrow>
   out' = out \<and> ensure_diagonal lib fr (s, out2) = (r, (s', out2))"
proof -
  assume a: "ensure_diagonal lib fr (s, out) = (r, (s', out'))"
  show ?thesis
  proof (cases "\<not> has s ''efg_diagonal_evals_hsort'' \<or> fr")
    case False
    then show ?thesis using a by (auto simp: ensure_diagonal_def)
  next
    case True
    obtain r0 s0 o0 where d: "EFGDiagonal_extract lib True (s, out) = (r0, (s0, o0))"
      by (metis prod.exhaust)
    from EFGDiagonal_out[OF d, of out2] have o: "o0 = out"
      and d2: "EFGDiagonal_extract lib True (s, out2) = (r0, (s0, out2))" by auto
    show ?thesis using a True d d2 o
      by (auto simp: ensure_diagonal_def split: sum.splits)
  qed
qed

lemma EFGDiagonal_symbols:
  "EFGDiagonal_extract lib sa (s, out) = (r, (s', out')) \<Longrightarrow> symbols s' = symbols s"
  by (auto simp: EFGDiagonal_extract_def has_efg_check_def Let_def split: option.splits if_splits)

lemma ensure_diagonal_symbols:
  "ensure_diagonal lib fr (s, out) = (r, (s', out')) \<Longrightarrow> symbols s' = symbols s"
proof -
  assume a: "ensure_diagonal lib fr (s, out) = (r, (s', out'))"
  obtain r0 s0 o0 where d: "EFGDiagonal_extract lib True (s, out) = (r0, (s0, o0))"
    by (metis prod.exhaust)
  from EFGDiagonal_symbols[OF d] show ?thesis using a d
    by (auto simp: ensure_diagonal_def split: if_splits sum.splits)
qed

lemma EFGVzz_out:
  "EFGVzz_extract lib fr (s, out) = (r, (s', out')) \<Longrightarrow>
   out' = out \<and> EFGVzz_extract lib fr (s, out2) = (r, (s', out2))"
proof -
  assume a: "EFGVzz_extract lib fr (s, out) = (r, (s', out'))"
  obtain e0 s0 o0 where d: "ensure_diagonal lib fr (s, out) = (e0, (s0, o0))"
    by (metis prod.exhaust)
  from ensure_diagonal_out[OF d, of out2] have o: "o0 = out"
    and d2: "ensure_diagonal lib fr (s, out2) = (e0, (s0, out2))" by auto
  show ?thesis using a d d2 o
    by (auto simp: EFGVzz_extract_def has_efg_check_def split: option.splits sum.splits if_splits)
qed

lemma EFGAsymmetry_out:
  "EFGAsymmetry_extract lib fr (s, out) = (r, (s', out')) \<Longrightarrow>
   out' = out \<and> EFGAsymmetry_extract lib fr (s, out2) = (r, (s', out2))"
proof -
  assume a: "EFGAsymmetry_extract lib fr (s, out) = (r, (s', out'))"
  obtain e0 s0 o0 where d: "ensure_diagonal lib fr (s, out) = (e0, (s0, o0))"
    by (metis prod.exhaust)
  from ensure_diagonal_out[OF d, of out2] have o: "o0 = out"
    and d2: "ensure_diagonal lib fr (s, out2) = (e0, (s0, out2))" by auto
  show ?thesis using a d d2 o
    by (auto simp: EFGAsymmetry_extract_def has_efg_check_def split: option.splits sum.splits if_splits)
qed

lemma nqr_loop_out:
  "nqr_loop lib q_list I_list eta_list is nqr (s, out) = (r, (s', out')) \<Longrightarrow>
   out' = out \<and> nqr_loop lib q_list I_list eta_list is nqr (s, out2) = (r, (s', out2))"
proof (induction "is" arbitrary: nqr s)
  case Nil
  then show ?case by simp
next
  case (Cons i "is")
  obtain rv sv ov where v: "EFGVzz_extract lib False (s, out) = (rv, (sv, ov))"
    by (metis prod.exhaust)
  from EFGVzz_out[OF v, of out2] have o: "ov = out"
    and v2: "EFGVzz_extract lib False (s, out2) = (rv, (sv, out2))" by auto
  define pure where "pure =
    (case rv of Inl e \<Rightarrow> Inl e
     | Inr vzz \<Rightarrow>
        (case list_getitem vzz i of Inl e \<Rightarrow> Inl e
         | Inr vv \<Rightarrow>
        (case list_getitem q_list i of Inl e \<Rightarrow> Inl e
         | Inr q \<Rightarrow>
        (case frange (- (I_list ! i)) (I_list ! i + 1) 1 of None \<Rightarrow> Inl NonTermination
         | Some fr \<Rightarrow>
             set_transitions (EFG_TO_CHI lib * vv * q / (4 * (I_list ! i) * (2 * (I_list ! i) - 1)))
               eta_list i (butlast (filter (\<lambda>m. m \<ge> 0) fr)) nqr))))"
  have step: "nqr_loop lib q_list I_list eta_list (i # is) nqr (s, o') =
      (case pure of Inl e \<Rightarrow> (Inl e, (sv, o'))
       | Inr nqr' \<Rightarrow> nqr_loop lib q_list I_list eta_list is nqr' (sv, o'))"
    if "EFGVzz_extract lib False (s, o') = (rv, (sv, o'))" for o'
    using that unfolding pure_def
    by (simp add: Let_def split: sum.splits option.splits)
  show ?case
  proof (cases pure)
    case (Inl e)
    have "nqr_loop lib q_list I_list eta_list (i # is) nqr (s, out) = (Inl e, (sv, out))"
      using step[of out] v o Inl by simp
    moreover have "nqr_loop lib q_list I_list eta_list (i # is) nqr (s, out2) = (Inl e, (sv, out2))"
      using step[of out2] v2 Inl by simp
    ultimately show ?thesis using Cons.prems by auto
  next
    case (Inr nqr')
    have a: "nqr_loop lib q_list I_list eta_list (i # is) nqr (s, out) =
             nqr_loop lib q_list I_list eta_list is nqr' (sv, out)"
      using step[of out] v o Inr by simp
    have b: "nqr_loop lib q_list I_list eta_list (i # is) nqr (s, out2) =
             nqr_loop lib q_list I_list eta_list is nqr' (sv, out2)"
      using step[of out2] v2 Inr by simp
    have "nqr_loop lib q_list I_list eta_list is nqr' (sv, out) = (r, (s', out'))"
      using Cons.prems a by simp
    from Cons.IH[OF this] show ?thesis using b by simp
  qed
qed

subsection \<open>A list of the wrong length\<close>

lemma check_isotope_list_mismatch:
  "length il \<noteq> length elems \<Longrightarrow>
   check_isotope_list (Some il) elems out = (None, out @ [''WARNING - invalid isotope_list, ignoring''])"
  by (simp add: check_isotope_list_def)

lemma check_isotope_list_None: "check_isotope_list None elems out = (None, out)"
  by (simp add: check_isotope_list_def)

lemma EFGTensor_discards:
  assumes "length il \<noteq> length (symbols s)" and "efg s = Some efgs"
  shows "EFGTensor_extract lib order uq isos (Some il) (s, out) =
           ((case get_isotope_list lib (symbols s) isos None uq of
               Inl e \<Rightarrow> Inl e
             | Inr isotopelist \<Rightarrow>
                 traverse (\<lambda>(efg, species). ElectricFieldGradient lib efg species order)
                   (zip efgs (map (\<lambda>(iso, elem). show_int iso @ elem) (zip isotopelist (symbols s))))),
            (s, out @ [''WARNING - invalid isotope_list, ignoring'']))"
  using assms
  by (auto simp: EFGTensor_extract_def has_efg_check_def has_def Let_def
      check_isotope_list_mismatch split: sum.splits)

lemma EFGTensor_warns:
  assumes "length il \<noteq> length (symbols s)" and "has s ''efg''"
  shows "EFGTensor_extract lib order uq isos (Some il) (s, out) =
           (fst (EFGTensor_extract lib order uq isos None (s, out)),
            (fst (snd (EFGTensor_extract lib order uq isos None (s, out))),
             out @ [''WARNING - invalid isotope_list, ignoring'']))"
  using assms
  by (auto simp: EFGTensor_extract_def has_efg_check_def Let_def
      check_isotope_list_mismatch check_isotope_list_None split: sum.splits option.splits)

lemma EFGTensor_returned:
  assumes "EFGTensor_extract lib order uq isos il0 (s, out) = (Inr v, (s', out'))"
  shows "has s ''efg''"
  using assms by (auto simp: EFGTensor_extract_def has_efg_check_def split: if_splits)

lemma EFGTensor_None_out:
  assumes "EFGTensor_extract lib order uq isos None (s, out) = (r, (s', out'))"
  shows "out' = out"
  using assms
  by (auto simp: EFGTensor_extract_def has_efg_check_def Let_def check_isotope_list_None
      split: if_splits sum.splits option.splits)

lemma EFGQuadrupolarConstant_warns:
  assumes "length il \<noteq> length (symbols s)" and "has s ''efg''"
    and "fst (ensure_diagonal lib fr (s, out)) = None"
  shows "EFGQuadrupolarConstant_extract lib fr uq isos (Some il) (s, out) =
           (fst (EFGQuadrupolarConstant_extract lib fr uq isos None (s, out)),
            (fst (snd (EFGQuadrupolarConstant_extract lib fr uq isos None (s, out))),
             out @ [''WARNING - invalid isotope_list, ignoring'']))"
proof -
  let ?W = "''WARNING - invalid isotope_list, ignoring''"
  obtain e0 s0 o0 where d: "ensure_diagonal lib fr (s, out) = (e0, (s0, o0))"
    by (metis prod.exhaust)
  from ensure_diagonal_out[OF d] have o: "o0 = out" by simp
  have sy: "symbols s0 = symbols s" using ensure_diagonal_symbols[OF d] .
  have None: "e0 = None" using assms(3) d by simp
  obtain rv sv ov where v: "EFGVzz_extract lib False (s0, out) = (rv, (sv, ov))"
    by (metis prod.exhaust)
  from EFGVzz_out[OF v, of "out @ [?W]"] have ov: "ov = out"
    and v2: "EFGVzz_extract lib False (s0, out @ [?W]) = (rv, (sv, out @ [?W]))" by auto
  show ?thesis using assms(1,2) d o sy None v v2 ov
    by (auto simp: EFGQuadrupolarConstant_extract_def has_efg_check_def Let_def
        check_isotope_list_mismatch check_isotope_list_None split: sum.splits)
qed

lemma EFGQuadrupolarConstant_returned:
  assumes "EFGQuadrupolarConstant_extract lib fr uq isos il0 (s, out) = (Inr v, (s', out'))"
  shows "has s ''efg'' \<and> fst (ensure_diagonal lib fr (s, out)) = None"
  using assms
  by (auto simp: EFGQuadrupolarConstant_extract_def has_efg_check_def
      split: if_splits prod.splits option.splits)

lemma EFGQuadrupolarProduct_warns:
  assumes "length il \<noteq> length (symbols s)" and "has s ''efg''"
    and "fst (ensure_diagonal lib fr (s, out)) = None"
  shows "EFGQuadrupolarProduct_extract lib fr uq isos (Some il) (s, out) =
           (fst (EFGQuadrupolarProduct_extract lib fr uq isos None (s, out)),
            (fst (snd (EFGQuadrupolarProduct_extract lib fr uq isos None (s, out))),
             out @ [''WARNING - invalid isotope_list, ignoring'']))"
proof -
  let ?W = "''WARNING - invalid isotope_list, ignoring''"
  obtain e0 s0 o0 where d: "ensure_diagonal lib fr (s, out) = (e0, (s0, o0))"
    by (metis prod.exhaust)
  from ensure_diagonal_out[OF d] have o: "o0 = out" by simp
  have sy: "symbols s0 = symbols s" using ensure_diagonal_symbols[OF d] .
  have None: "e0 = None" using assms(3) d by simp
  obtain rv sv ov where v: "EFGVzz_extract lib False (s0, out) = (rv, (sv, ov))"
    by (metis prod.exhaust)
  from EFGVzz_out[OF v, of "out @ [?W]"] have ov: "ov = out"
    and v2: "EFGVzz_extract lib False (s0, out @ [?W]) = (rv, (sv, out @ [?W]))" by auto
  obtain ra sa oa where a: "EFGAsymmetry_extract lib False (sv, out) = (ra, (sa, oa))"
    by (metis prod.exhaust)
  from EFGAsymmetry_out[OF a, of "out @ [?W]"] have oa: "oa = out"
    and a2: "EFGAsymmetry_extract lib False (sv, out @ [?W]) = (ra, (sa, out @ [?W]))" by auto
  show ?thesis using assms(1,2) d o sy None v v2 ov a a2 oa
    by (auto simp: EFGQuadrupolarProduct_extract_def has_efg_check_def Let_def
        check_isotope_list_mismatch check_isotope_list_None split: sum.splits)
qed

lemma EFGQuadrupolarProduct_returned:
  assumes "EFGQuadrupolarProduct_extract lib fr uq isos il0 (s, out) = (Inr v, (s', out'))"
  shows "has s ''efg'' \<and> fst (ensure_diagonal lib fr (s, out)) = None"
  using assms
  by (auto simp: EFGQuadrupolarProduct_extract_def has_efg_check_def
      split: if_splits prod.splits option.splits)

lemma EFGNQR_warns:
  assumes "length il \<noteq> length (symbols s)" and "has s ''efg''"
    and "fst (ensure_diagonal lib fr (s, out)) = None"
  shows "EFGNQR_extract lib fr uq isos (Some il) (s, out) =
           (fst (EFGNQR_extract lib fr uq isos None (s, out)),
            (fst (snd (EFGNQR_extract lib fr uq isos None (s, out))),
             out @ [''WARNING - invalid isotope_list, ignoring'']))"
proof -
  let ?W = "''WARNING - invalid isotope_list, ignoring''"
  obtain e0 s0 o0 where d: "ensure_diagonal lib fr (s, out) = (e0, (s0, o0))"
    by (metis prod.exhaust)
  from ensure_diagonal_out[OF d] have o: "o0 = out" by simp
  have sy: "symbols s0 = symbols s" using ensure_diagonal_symbols[OF d] .
  have None: "e0 = None" using assms(3) d by simp
  obtain ra sa oa where a: "EFGAsymmetry_extract lib False (s0, out) = (ra, (sa, oa))"
    by (metis prod.exhaust)
  from EFGAsymmetry_out[OF a, of "out @ [?W]"] have oa: "oa = out"
    and a2: "EFGAsymmetry_extract lib False (s0, out @ [?W]) = (ra, (sa, out @ [?W]))" by auto
  have loop: "nqr_loop lib q I eta is nqr (sa, out @ [?W]) =
                (fst (nqr_loop lib q I eta is nqr (sa, out)),
                 (fst (snd (nqr_loop lib q I eta is nqr (sa, out))), out @ [?W]))" for q I eta "is" nqr
  proof -
    obtain r s' o' where l: "nqr_loop lib q I eta is nqr (sa, out) = (r, (s', o'))"
      by (metis prod.exhaust)
    from nqr_loop_out[OF l, of "out @ [?W]"] l show ?thesis by simp
  qed
  show ?thesis using assms(1,2) d o sy None a a2 oa loop
    by (auto simp: EFGNQR_extract_def has_efg_check_def Let_def
        check_isotope_list_mismatch check_isotope_list_None split: sum.splits)
qed

lemma EFGNQR_returned:
  assumes "EFGNQR_extract lib fr uq isos il0 (s, out) = (Inr v, (s', out'))"
  shows "has s ''efg'' \<and> fst (ensure_diagonal lib fr (s, out)) = None"
  using assms
  by (auto simp: EFGNQR_extract_def has_efg_check_def
      split: if_splits prod.splits option.splits)

subsection \<open>Text of half-integers\<close>

lemma digit_inj: "a < 10 \<Longrightarrow> b < 10 \<Longrightarrow> digit a = digit b \<Longrightarrow> a = b"
proof -
  assume a: "a < 10" and b: "b < 10" and e: "digit a = digit b"
  have d: "distinct ''0123456789''" by simp
  have "length ''0123456789'' = 10" by simp
  with a b e d show "a = b" unfolding digit_def
    by (metis nth_eq_iff_index_eq)
qed

lemma digit_in: "d < 10 \<Longrightarrow> digit d \<in> set ''0123456789''"
  unfolding digit_def by (rule nth_mem) simp

lemma show_nat_nonempty: "show_nat n \<noteq> []"
  by (subst show_nat.simps) simp

lemma show_nat_digits: "set (show_nat n) \<subseteq> set ''0123456789''"
proof (induction n rule: show_nat.induct)
  case (1 n)
  show ?case
  proof (cases "n < 10")
    case True
    then show ?thesis using digit_in[of n] by (subst show_nat.simps) simp
  next
    case False
    have "n mod 10 < 10" by simp
    from digit_in[OF this] 1[OF False] False show ?thesis
      by (subst show_nat.simps) simp
  qed
qed

lemma show_nat_inj: "show_nat n = show_nat m \<Longrightarrow> n = m"
proof (induction n arbitrary: m rule: show_nat.induct)
  case (1 n)
  show ?case
  proof (cases "n < 10")
    case True
    have sn: "show_nat n = [digit n]" using True by (subst show_nat.simps) simp
    show ?thesis
    proof (cases "m < 10")
      case mt: True
      then have "show_nat m = [digit m]" by (subst show_nat.simps) simp
      with sn "1.prems" have "digit n = digit m" by simp
      then show ?thesis using True mt by (rule digit_inj[rotated 2])
    next
      case False
      then have "show_nat m = show_nat (m div 10) @ [digit (m mod 10)]"
        by (subst show_nat.simps) simp
      with sn "1.prems" have "show_nat (m div 10) = []" by simp
      then show ?thesis using show_nat_nonempty by blast
    qed
  next
    case False
    have sn: "show_nat n = show_nat (n div 10) @ [digit (n mod 10)]"
      using False by (subst show_nat.simps) simp
    show ?thesis
    proof (cases "m < 10")
      case True
      then have "show_nat m = [digit m]" by (subst show_nat.simps) simp
      with sn "1.prems" have "show_nat (n div 10) = []" by simp
      then show ?thesis using show_nat_nonempty by blast
    next
      case mf: False
      then have sm: "show_nat m = show_nat (m div 10) @ [digit (m mod 10)]"
        by (subst show_nat.simps) simp
      from sn sm "1.prems" have p: "show_nat (n div 10) = show_nat (m div 10)"
        and l: "digit (n mod 10) = digit (m mod 10)" by simp_all
      from "1.IH"[OF False p] have "n div 10 = m div 10" .
      moreover have "n mod 10 = m mod 10" using l by (intro digit_inj) simp_all
      ultimately show ?thesis by (metis div_mult_mod_eq)
    qed
  qed
qed

lemma float_str_half:
  "float_str (real k / 2) = show_nat (k div 2) @ (if even k then ''.0'' else ''.5'')"
proof -
  have fl: "\<lfloor>real k / 2\<rfloor> = int (k div 2)"
    using floor_divide_of_nat_eq[of k 2, where ?'a = real] by simp
  have "frac (real k / 2) = 0 \<longleftrightarrow> even k"
  proof
    assume "frac (real k / 2) = 0"
    then have "real k / 2 = of_int \<lfloor>real k / 2\<rfloor>" by (simp add: frac_def)
    with fl have "real k / 2 = real (k div 2)" by simp
    then have "real k = real (2 * (k div 2))" by simp
    then have "k = 2 * (k div 2)" using of_nat_eq_iff by blast
    then show "even k" by (metis dvd_triv_left)
  next
    assume "even k"
    then obtain j where "k = 2 * j" by (auto elim: evenE)
    then show "frac (real k / 2) = 0" by (simp add: frac_def)
  qed
  then show ?thesis using fl by (simp add: float_str_def)
qed

lemma float_str_half_inj:
  assumes "float_str (real k / 2) = float_str (real j / 2)"
  shows "k = j"
proof -
  let ?s = "\<lambda>k::nat. if even k then ''.0'' else ''.5''"
  from assms have e: "show_nat (k div 2) @ ?s k = show_nat (j div 2) @ ?s j"
    by (simp only: float_str_half)
  have l: "length (?s k) = length (?s j)" by simp
  have "show_nat (k div 2) = show_nat (j div 2) \<and> ?s k = ?s j"
    using e l append_eq_append_conv[of "show_nat (k div 2)" "show_nat (j div 2)" "?s k" "?s j"]
    by blast
  then have a: "show_nat (k div 2) = show_nat (j div 2)" and b: "?s k = ?s j"
    by blast+
  from a have "k div 2 = j div 2" by (rule show_nat_inj)
  moreover from b have "even k \<longleftrightarrow> even j" by (auto split: if_splits)
  ultimately show ?thesis by (metis div_mult_mod_eq parity_cases odd_iff_mod_2_eq_one even_iff_mod_2_eq_zero)
qed

lemma minus_notin_float_str: "CHR ''-'' \<notin> set (float_str (real k / 2))"
  using show_nat_digits[of "k div 2"] by (auto simp: float_str_half)

lemma transition_key_half_inj:
  assumes "transition_key (real k / 2) = transition_key (real j / 2)"
  shows "k = j"
proof -
  let ?a = "float_str (real k / 2)" and ?b = "float_str (real j / 2)"
  from assms have "?a @ ''->'' @ float_str (real k / 2 + 1) = ?b @ ''->'' @ float_str (real j / 2 + 1)"
    by (simp add: transition_key_def)
  then have "takeWhile (\<lambda>c. c \<noteq> CHR ''-'') (?a @ CHR ''-'' # ''>'' @ float_str (real k / 2 + 1)) =
             takeWhile (\<lambda>c. c \<noteq> CHR ''-'') (?b @ CHR ''-'' # ''>'' @ float_str (real j / 2 + 1))"
    by simp
  moreover have "takeWhile (\<lambda>c. c \<noteq> CHR ''-'') (?a @ CHR ''-'' # ''>'' @ float_str (real k / 2 + 1)) = ?a"
    by (rule takeWhile_tail[THEN trans, OF _ takeWhile_eq_all_conv[THEN iffD2]])
       (use minus_notin_float_str in auto)
  moreover have "takeWhile (\<lambda>c. c \<noteq> CHR ''-'') (?b @ CHR ''-'' # ''>'' @ float_str (real j / 2 + 1)) = ?b"
    by (rule takeWhile_tail[THEN trans, OF _ takeWhile_eq_all_conv[THEN iffD2]])
       (use minus_notin_float_str in auto)
  ultimately have "?a = ?b" by simp
  then show ?thesis by (rule float_str_half_inj)
qed

subsection \<open>The transitions of one atom\<close>

lemma frange_unit: "frange a b 1 = Some (map (\<lambda>j. a + real j) [0..<nat \<lceil>b - a\<rceil>])"
proof (induction "nat \<lceil>b - a\<rceil>" arbitrary: a)
  case 0
  then have "\<not> a < b" by simp
  then show ?case using 0 by (subst frange.simps) simp
next
  case (Suc n)
  then have pos: "0 < \<lceil>b - a\<rceil>" by linarith
  then have ab: "a < b" by simp
  have "\<lceil>b - (a + 1)\<rceil> = \<lceil>b - a\<rceil> - 1"
    by (metis ceiling_diff_one diff_diff_eq)
  then have n: "n = nat \<lceil>b - (a + 1)\<rceil>" using Suc.hyps(2) by linarith
  from Suc.hyps(1)[OF n] have ih: "frange (a + 1) b 1 = Some (map (\<lambda>j. a + 1 + real j) [0..<n])"
    using n by simp
  have "[0..<Suc n] = 0 # map Suc [0..<n]"
    by (simp add: upt_conv_Cons map_Suc_upt del: upt_Suc)
  then have "map (\<lambda>j. a + real j) [0..<Suc n] = a # map (\<lambda>j. a + 1 + real j) [0..<n]"
    by (simp add: comp_def add.assoc add.commute)
  then show ?case using ab ih Suc.hyps(2)[symmetric]
    by (subst frange.simps) simp
qed

lemma spin_transitions:
  assumes "2 * I = real n" and "1 / 2 < I"
  shows "butlast (filter (\<lambda>m. m \<ge> 0) (the (frange (- I) (I + 1) 1))) =
         filter (\<lambda>m. 0 \<le> m) (map (\<lambda>j. - I + real j) [0..<nat \<lfloor>2 * I\<rfloor>])"
proof -
  have "I + 1 - (- I) = real (n + 1)" using assms(1) by simp
  then have c: "nat \<lceil>I + 1 - (- I)\<rceil> = Suc n" by (simp only: ceiling_of_nat nat_int)
  have f: "nat \<lfloor>2 * I\<rfloor> = n" using assms(1) by simp
  have last: "0 \<le> - I + real n" using assms by linarith
  show ?thesis
    unfolding frange_unit c f using last by simp
qed

lemma update_fresh: "k \<notin> fst ` set al \<Longrightarrow> AList.update k v al = al @ [(k, v)]"
  by (induction al) auto

lemma fold_update_fresh:
  "distinct (map k ms) \<Longrightarrow> \<forall>m \<in> set ms. k m \<notin> fst ` set d \<Longrightarrow>
   fold (\<lambda>m d. AList.update (k m) (f m) d) ms d = d @ map (\<lambda>m. (k m, f m)) ms"
proof (induction ms arbitrary: d)
  case Nil
  then show ?case by simp
next
  case (Cons m ms)
  have u: "AList.update (k m) (f m) d = d @ [(k m, f m)]"
    using Cons.prems(2) by (simp add: update_fresh)
  have "\<forall>m' \<in> set ms. k m' \<notin> fst ` set (d @ [(k m, f m)])"
    using Cons.prems by (auto simp: image_iff)
  from Cons.IH[OF _ this] Cons.prems(1) show ?case using u by simp
qed

lemma set_transitions_result:
  "set_transitions A eta i ms nqr = Inr nqr' \<Longrightarrow>
   length nqr' = length nqr \<and>
   (\<forall>j. j \<noteq> i \<longrightarrow> nqr' ! j = nqr ! j) \<and>
   (ms \<noteq> [] \<longrightarrow> i < length nqr \<and> i < length eta) \<and>
   (i < length nqr \<longrightarrow>
      nqr' ! i = fold (\<lambda>m d. AList.update (transition_key m)
                                (3 * A * (2 * m + 1) * sqrt (1 + (eta ! i) ^ 2 / 3)) d) ms (nqr ! i))"
proof (induction ms arbitrary: nqr)
  case Nil
  then show ?case by simp
next
  case (Cons m ms)
  from Cons.prems have ie: "i < length eta" and il: "i < length nqr"
    by (auto simp: list_getitem_def split: if_splits)
  let ?n1 = "nqr[i := AList.update (transition_key m)
                        (3 * A * (2 * m + 1) * sqrt (1 + (eta ! i) ^ 2 / 3)) (nqr ! i)]"
  have "set_transitions A eta i ms ?n1 = Inr nqr'"
    using Cons.prems ie il by (simp add: list_getitem_def)
  from Cons.IH[OF this] show ?case using ie il by simp
qed

lemma EFGVzz_cached:
  "has s ''efg'' \<Longrightarrow> efg_diagonal_evals_hsort s = Some evals \<Longrightarrow>
   EFGVzz_extract lib False (s, out) = (last_column evals, (s, out))"
  by (simp add: EFGVzz_extract_def has_efg_check_def ensure_diagonal_def get_evals_hsort_def has_def
      split: sum.splits)

lemma EFGAsymmetry_cached:
  "has s ''efg'' \<Longrightarrow> efg_diagonal_evals_hsort s = Some evals \<Longrightarrow>
   EFGAsymmetry_extract lib False (s, out) = (Inr (asymmetry lib evals), (s, out))"
  by (simp add: EFGAsymmetry_extract_def has_efg_check_def ensure_diagonal_def get_evals_hsort_def has_def)

lemma ensure_diagonal_post:
  assumes "ensure_diagonal lib fr (s, out) = (None, (s0, o0))" and "has s ''efg''"
  shows "has s0 ''efg'' \<and> efg_diagonal_evals_hsort s0 \<noteq> None"
  using assms
  by (auto simp: ensure_diagonal_def EFGDiagonal_extract_def has_efg_check_def has_def Let_def
      split: if_splits option.splits sum.splits)

lemma nqr_loop_result:
  assumes "has s ''efg''" and "efg_diagonal_evals_hsort s = Some evals"
    and "nqr_loop lib q I eta is nqr (s, out) = (Inr nqr', st')"
    and "distinct is"
  shows "st' = (s, out) \<and> length nqr' = length nqr \<and>
         (\<forall>i. i \<notin> set is \<longrightarrow> nqr' ! i = nqr ! i) \<and>
         (\<forall>i \<in> set is. \<exists>vzz. last_column evals = Inr vzz \<and> i < length vzz \<and> i < length q \<and>
            (i < length nqr \<longrightarrow>
               nqr' ! i =
                 fold (\<lambda>m d. AList.update (transition_key m)
                        (3 * (EFG_TO_CHI lib * vzz ! i * q ! i / (4 * (I ! i) * (2 * (I ! i) - 1))) *
                           (2 * m + 1) * sqrt (1 + (eta ! i) ^ 2 / 3)) d)
                      (butlast (filter (\<lambda>m. m \<ge> 0) (the (frange (- (I ! i)) (I ! i + 1) 1))))
                      (nqr ! i)))"
proof -
  define E where "E = (\<lambda>(vzz :: real list) i base.
                 fold (\<lambda>m d. AList.update (transition_key m)
                        (3 * (EFG_TO_CHI lib * vzz ! i * q ! i / (4 * (I ! i) * (2 * (I ! i) - 1))) *
                           (2 * m + 1) * sqrt (1 + (eta ! i) ^ 2 / 3)) d)
                      (butlast (filter (\<lambda>m. m \<ge> 0) (the (frange (- (I ! i)) (I ! i + 1) 1))))
                      base)"
  have "st' = (s, out) \<and> length nqr' = length nqr \<and>
         (\<forall>i. i \<notin> set is \<longrightarrow> nqr' ! i = nqr ! i) \<and>
         (\<forall>i \<in> set is. \<exists>vzz. last_column evals = Inr vzz \<and> i < length vzz \<and> i < length q \<and>
            (i < length nqr \<longrightarrow> nqr' ! i = E vzz i (nqr ! i)))"
    using assms(3,4)
  proof (induction "is" arbitrary: nqr)
    case Nil
    then show ?case by simp
  next
    case (Cons i "is")
    note vz = EFGVzz_cached[OF assms(1,2), of lib out]
    from Cons.prems(1) vz obtain vzz where lc: "last_column evals = Inr vzz"
      by (auto split: sum.splits)
    from Cons.prems(1) vz lc have iv: "i < length vzz"
      by (auto simp: list_getitem_def split: if_splits)
    from Cons.prems(1) vz lc iv have iq: "i < length q"
      by (auto simp: list_getitem_def split: if_splits)
    obtain fr where fr: "frange (- (I ! i)) (I ! i + 1) 1 = Some fr"
      by (simp add: frange_unit)
    let ?A = "EFG_TO_CHI lib * vzz ! i * q ! i / (4 * (I ! i) * (2 * (I ! i) - 1))"
    let ?ms = "butlast (filter (\<lambda>m. m \<ge> 0) fr)"
    have step: "nqr_loop lib q I eta (i # is) nqr (s, out) =
        (case set_transitions ?A eta i ?ms nqr of
           Inl e \<Rightarrow> (Inl e, (s, out))
         | Inr nqr1 \<Rightarrow> nqr_loop lib q I eta is nqr1 (s, out))"
      using vz lc iv iq fr by (simp add: list_getitem_def Let_def)
    from Cons.prems(1) obtain nqr1 where
      st: "set_transitions ?A eta i ?ms nqr = Inr nqr1" and
      rest: "nqr_loop lib q I eta is nqr1 (s, out) = (Inr nqr', st')"
      unfolding step by (auto split: sum.splits)
    from set_transitions_result[OF st] have
      l1: "length nqr1 = length nqr" and
      o1: "\<And>j. j \<noteq> i \<Longrightarrow> nqr1 ! j = nqr ! j" and
      i1: "i < length nqr \<Longrightarrow> nqr1 ! i = E vzz i (nqr ! i)"
      unfolding E_def using fr by simp_all
    have d: "distinct is" and ni: "i \<notin> set is" using Cons.prems(2) by auto
    from Cons.IH[OF rest d] have
      a: "st' = (s, out)" and b: "length nqr' = length nqr1" and
      c: "\<And>j. j \<notin> set is \<Longrightarrow> nqr' ! j = nqr1 ! j" and
      e: "\<And>j. j \<in> set is \<Longrightarrow> \<exists>vzz. last_column evals = Inr vzz \<and> j < length vzz \<and> j < length q \<and>
              (j < length nqr1 \<longrightarrow> nqr' ! j = E vzz j (nqr1 ! j))"
      by blast+
    have g1: "nqr' ! j = nqr ! j" if "j \<notin> set (i # is)" for j
      using c[of j] o1[of j] that by simp
    have g2: "\<exists>vzz. last_column evals = Inr vzz \<and> j < length vzz \<and> j < length q \<and>
              (j < length nqr \<longrightarrow> nqr' ! j = E vzz j (nqr ! j))" if "j \<in> set (i # is)" for j
    proof (cases "j = i")
      case True
      have "nqr' ! i = nqr1 ! i" using c ni by simp
      then show ?thesis using True lc iv iq i1 by auto
    next
      case False
      then have "j \<in> set is" using that by simp
      from e[OF this] obtain vz where P: "last_column evals = Inr vz \<and> j < length vz \<and> j < length q \<and>
              (j < length nqr1 \<longrightarrow> nqr' ! j = E vz j (nqr1 ! j))" by blast
      have "nqr1 ! j = nqr ! j" using o1 False by simp
      with P l1 show ?thesis by auto
    qed
    show ?case
    proof (intro conjI allI ballI impI)
      show "st' = (s, out)" by (rule a)
      show "length nqr' = length nqr" using b l1 by simp
      show "nqr' ! j = nqr ! j" if "j \<notin> set (i # is)" for j using g1[OF that] .
      show "\<exists>vzz. last_column evals = Inr vzz \<and> j < length vzz \<and> j < length q \<and>
              (j < length nqr \<longrightarrow> nqr' ! j = E vzz j (nqr ! j))" if "j \<in> set (i # is)" for j
        using g2[OF that] .
    qed
  qed
  then show ?thesis unfolding E_def .
qed

lemma half_transitions_keys:
  assumes "2 * I = real n"
  shows "distinct (map transition_key (filter (\<lambda>m. 0 \<le> m) (map (\<lambda>j. - I + real j) [0..<n])))"
proof -
  let ?ms = "filter (\<lambda>m. 0 \<le> m) (map (\<lambda>j. - I + real j) [0..<n])"
  have dm: "distinct ?ms"
    by (intro distinct_filter) (simp add: distinct_map inj_on_def)
  have half: "\<exists>k::nat. m = real k / 2" if "m \<in> set ?ms" for m
  proof -
    from that obtain j where j: "m = - I + real j" and m0: "0 \<le> m" by auto
    have "2 * m = real (2 * j) - real n" using j assms by simp
    moreover from this m0 have "n \<le> 2 * j" by linarith
    ultimately have "2 * m = real (2 * j - n)" by simp
    then have "m = real (2 * j - n) / 2" by simp
    then show ?thesis by blast
  qed
  have "inj_on transition_key (set ?ms)"
  proof (rule inj_onI)
    fix x y assume x: "x \<in> set ?ms" and y: "y \<in> set ?ms" and e: "transition_key x = transition_key y"
    from half[OF x] obtain k where k: "x = real k / 2" by blast
    from half[OF y] obtain l where l: "y = real l / 2" by blast
    from e k l have "k = l" by (auto dest: transition_key_half_inj)
    then show "x = y" using k l by simp
  qed
  with dm show ?thesis by (simp add: distinct_map)
qed

lemma fold_update_entry:
  assumes "distinct (map transition_key ms)"
  shows "fold (\<lambda>m d. AList.update (transition_key m) (3 * A * (2 * m + 1) * sqrt (1 + eta ^ 2 / 3)) d) ms []
         = nqr_entry A eta ms"
  using fold_update_fresh[OF assms, of "[]" "\<lambda>m. 3 * A * (2 * m + 1) * sqrt (1 + eta ^ 2 / 3)"]
  by (simp add: nqr_entry_def)

lemma EFGNQR_entries:
  assumes run: "EFGNQR_extract lib force_recalc use_q_isotopes isotopes isotope_list (s, out)
                  = (Inr nqr, (s', out'))"
    and Q: "get_isotope_data lib (symbols s) ''Q'' isotopes
              (fst (check_isotope_list isotope_list (symbols s) out)) use_q_isotopes = Inr q_list"
    and I: "get_isotope_data lib (symbols s) ''I'' isotopes
              (fst (check_isotope_list isotope_list (symbols s) out)) use_q_isotopes = Inr I_list"
    and i: "i < length (symbols s)" "i < length I_list"
  shows "\<exists>evals.
           efg_diagonal_evals_hsort s' = Some evals \<and>
           (1 / 2 < I_list ! i \<and> 2 * I_list ! i \<in> \<nat> \<longrightarrow>
              (\<exists>vzz. last_column evals = Inr vzz \<and> i < length vzz \<and> i < length q_list \<and>
                 nqr ! i =
                   nqr_entry (EFG_TO_CHI lib * q_list ! i * vzz ! i / (4 * I_list ! i * (2 * I_list ! i - 1)))
                             (asymmetry lib evals ! i)
                             (filter (\<lambda>m. 0 \<le> m)
                                (map (\<lambda>j. - (I_list ! i) + real j) [0..<nat \<lfloor>2 * I_list ! i\<rfloor>])) \<and>
                 distinct (map fst (nqr ! i)))) \<and>
           (I_list ! i \<le> 1 / 2 \<longrightarrow> nqr ! i = [])"
proof -
  have he: "has s ''efg''"
    using run by (auto simp: EFGNQR_extract_def has_efg_check_def split: if_splits)
  obtain e0 s0 o0 where d: "ensure_diagonal lib force_recalc (s, out) = (e0, (s0, o0))"
    by (metis prod.exhaust)
  from ensure_diagonal_out[OF d] have o0: "o0 = out" by simp
  have e0: "e0 = None"
    using run he d by (cases e0) (auto simp: EFGNQR_extract_def has_efg_check_def)
  from ensure_diagonal_post[OF d[unfolded e0] he] obtain evals where
    h0: "has s0 ''efg''" and hs: "efg_diagonal_evals_hsort s0 = Some evals" by auto
  have sy: "symbols s0 = symbols s" using ensure_diagonal_symbols[OF d] .
  obtain il1 out1 where ck: "check_isotope_list isotope_list (symbols s) out = (il1, out1)"
    by (metis prod.exhaust)
  let ?is = "filter (\<lambda>i. I_list ! i > 0.5) [0..<length I_list]"
  have loop: "nqr_loop lib q_list I_list (asymmetry lib evals) ?is
                (replicate (length (symbols s)) []) (s0, out1) = (Inr nqr, (s', out'))"
    using run he d e0 o0 sy ck Q I EFGAsymmetry_cached[OF h0 hs, of lib out1]
    by (simp add: EFGNQR_extract_def has_efg_check_def Let_def)
  have dis: "distinct ?is" by simp
  from nqr_loop_result[OF h0 hs loop dis] have
    st: "(s', out') = (s0, out1)" and
    untouched: "\<And>j. j \<notin> set ?is \<Longrightarrow> nqr ! j = replicate (length (symbols s)) [] ! j" and
    touched: "\<And>j. j \<in> set ?is \<Longrightarrow> \<exists>vzz. last_column evals = Inr vzz \<and> j < length vzz \<and> j < length q_list \<and>
            (j < length (replicate (length (symbols s)) ([] :: nqr_dict)) \<longrightarrow>
               nqr ! j =
                 fold (\<lambda>m d. AList.update (transition_key m)
                        (3 * (EFG_TO_CHI lib * vzz ! j * q_list ! j / (4 * (I_list ! j) * (2 * (I_list ! j) - 1))) *
                           (2 * m + 1) * sqrt (1 + (asymmetry lib evals ! j) ^ 2 / 3)) d)
                      (butlast (filter (\<lambda>m. m \<ge> 0) (the (frange (- (I_list ! j)) (I_list ! j + 1) 1))))
                      (replicate (length (symbols s)) [] ! j))"
    by blast+
  have s': "s' = s0" using st by simp
  have low: "nqr ! i = []" if "I_list ! i \<le> 1 / 2"
  proof -
    have "i \<notin> set ?is" using that by simp
    from untouched[OF this] show ?thesis using i(1) by simp
  qed
  have high: "\<exists>vzz. last_column evals = Inr vzz \<and> i < length vzz \<and> i < length q_list \<and>
                 nqr ! i =
                   nqr_entry (EFG_TO_CHI lib * q_list ! i * vzz ! i / (4 * I_list ! i * (2 * I_list ! i - 1)))
                             (asymmetry lib evals ! i)
                             (filter (\<lambda>m. 0 \<le> m)
                                (map (\<lambda>j. - (I_list ! i) + real j) [0..<nat \<lfloor>2 * I_list ! i\<rfloor>])) \<and>
                 distinct (map fst (nqr ! i))"
    if big: "1 / 2 < I_list ! i" and nat: "2 * I_list ! i \<in> \<nat>"
  proof -
    from nat obtain n where n: "2 * I_list ! i = real n" by (auto elim: Nats_cases)
    then have fl: "nat \<lfloor>2 * I_list ! i\<rfloor> = n" by simp
    let ?ms = "filter (\<lambda>m. 0 \<le> m) (map (\<lambda>j. - (I_list ! i) + real j) [0..<n])"
    have ms: "butlast (filter (\<lambda>m. m \<ge> 0) (the (frange (- (I_list ! i)) (I_list ! i + 1) 1))) = ?ms"
      using spin_transitions[OF n big] fl by simp
    have keys: "distinct (map transition_key ?ms)" using half_transitions_keys[OF n] .
    have "i \<in> set ?is" using big i(2) by simp
    from touched[OF this] obtain vzz where
      v: "last_column evals = Inr vzz" "i < length vzz" "i < length q_list" and
      e: "nqr ! i =
                 fold (\<lambda>m d. AList.update (transition_key m)
                        (3 * (EFG_TO_CHI lib * vzz ! i * q_list ! i / (4 * (I_list ! i) * (2 * (I_list ! i) - 1))) *
                           (2 * m + 1) * sqrt (1 + (asymmetry lib evals ! i) ^ 2 / 3)) d)
                      (butlast (filter (\<lambda>m. m \<ge> 0) (the (frange (- (I_list ! i)) (I_list ! i + 1) 1))))
                      (replicate (length (symbols s)) [] ! i)"
      using i(1) by auto
    have A: "EFG_TO_CHI lib * vzz ! i * q_list ! i = EFG_TO_CHI lib * q_list ! i * vzz ! i"
      by simp
    have nth: "replicate (length (symbols s)) ([] :: nqr_dict) ! i = []" using i(1) by simp
    have entry: "nqr ! i =
        nqr_entry (EFG_TO_CHI lib * q_list ! i * vzz ! i / (4 * I_list ! i * (2 * I_list ! i - 1)))
                  (asymmetry lib evals ! i) ?ms"
      unfolding e ms A nth by (rule fold_update_entry[OF keys])
    have "map fst (nqr ! i) = map transition_key ?ms"
      unfolding entry by (simp add: nqr_entry_def comp_def)
    with keys have "distinct (map fst (nqr ! i))" by simp
    with v entry fl show ?thesis by auto
  qed
  show ?thesis using hs s' low high by blast
qed

subsection \<open>The test structure, evaluated\<close>

lemma test_symmetrise:
  "symmetrise [[-1, 0, 0], [0, -1, 0], [0, 0, 2]] = [[-1, 0, 0], [0, -1, 0], [0, 0, 2]]"
  by (simp add: symmetrise_def transpose.simps)

lemma test_diagonal:
  "EFGDiagonal_extract test_lib True (test_atoms, out) =
     (Inr [([-1, -1, 2], [[-1, 0, 0], [0, -1, 0], [0, 0, 2]])], (test_atoms_diag, out))"
  by (simp add: EFGDiagonal_extract_def has_efg_check_def has_def test_atoms_def test_lib_def
      test_atoms_diag_def test_symmetrise Let_def)

lemma test_frange: "frange (- (3 / 2)) (5 / 2) 1 = Some [- (3 / 2), - (1 / 2), 1 / 2, 3 / 2]"
  by (simp add: frange.simps)

lemma test_key: "transition_key (1 / 2) = ''m=0.5->1.5''"
  by (simp add: transition_key_def float_str_def frac_def show_nat.simps digit_def)

lemma test_has: "has test_atoms ''efg''" "has test_atoms_diag ''efg''"
  "efg_diagonal_evals_hsort test_atoms = None"
  "efg_diagonal_evals_hsort test_atoms_diag = Some [[-1, -1, 2]]"
  "symbols test_atoms = [''Li'']" "symbols test_atoms_diag = [''Li'']"
  "\<not> has test_atoms ''efg_diagonal_evals_hsort''"
  by (simp_all add: has_def test_atoms_def test_atoms_diag_def)

lemma test_ensure:
  "ensure_diagonal test_lib False (test_atoms, out) = (None, (test_atoms_diag, out))"
  by (simp add: ensure_diagonal_def test_diagonal test_has)

lemma test_vzz:
  "EFGVzz_extract test_lib False (test_atoms_diag, out) = (Inr [2], (test_atoms_diag, out))"
  using EFGVzz_cached[OF test_has(2) test_has(4), of test_lib out]
  by (simp add: last_column_def)

lemma test_asymmetry:
  "EFGAsymmetry_extract test_lib False (test_atoms_diag, out) = (Inr [0], (test_atoms_diag, out))"
  using EFGAsymmetry_cached[OF test_has(2) test_has(4), of test_lib out]
  by (simp add: test_lib_def)

lemma test_data:
  "get_isotope_data test_lib [''Li''] ''Q'' isotopes il uq = Inr [5]"
  "get_isotope_data test_lib [''Li''] ''I'' isotopes il uq = Inr [3 / 2]"
  "EFG_TO_CHI test_lib = 2"
  by (simp_all add: test_lib_def)

lemma test_loop:
  "nqr_loop test_lib [5] [3 / 2] [0] [0] [[]] (test_atoms_diag, out) =
     (Inr [[(''m=0.5->1.5'', 10)]], (test_atoms_diag, out))"
  by (simp add: test_vzz list_getitem_def test_data test_frange test_key Let_def)

lemma test_nqr_run:
  "EFGNQR_extract test_lib False False isotopes None (test_atoms, out) =
     (Inr [[(''m=0.5->1.5'', 10)]], (test_atoms_diag, out))"
proof -
  show ?thesis
    unfolding EFGNQR_extract_def
    by (simp add: has_efg_check_def test_has test_ensure check_isotope_list_None test_data
        test_asymmetry test_vzz list_getitem_def test_frange test_key Let_def)
qed

lemma three_halves_ms:
  "filter (\<lambda>m. 0 \<le> m) (map (\<lambda>j. - (3 / 2) + real j) [0..<nat \<lfloor>2 * (3 / 2 :: real)\<rfloor>]) = [1 / 2]"
proof -
  have "nat \<lfloor>2 * (3 / 2 :: real)\<rfloor> = 3" by simp
  moreover have "[0..<3] = [0, Suc 0, Suc (Suc 0)]" by code_simp
  ultimately show ?thesis by simp
qed

lemma three_halves_entry:
  "nqr_entry (k * Q * V / (4 * (3 / 2) * (2 * (3 / 2) - 1))) 0 [1 / 2] =
     [(''m=0.5->1.5'', 3 * (k * Q * V / (4 * 1.5 * 2)) * 2)]"
  by (simp add: nqr_entry_def test_key)

lemma listed_fields:
  "EFG_TO_CHI test_lib_listed = 2"
  "eigh test_lib_listed = (\<lambda>m. ([m ! 0 ! 0, m ! 1 ! 1, m ! 2 ! 2], m))"
  "haeb_sort test_lib_listed = (\<lambda>evals. evals)"
  "asymmetry test_lib_listed = (\<lambda>evals. map (\<lambda>row. 0) evals)"
  "ElectricFieldGradient test_lib_listed = (\<lambda>efg species order. Inr species)"
  by (simp_all add: test_lib_listed_def test_lib_def)

lemma listed_resolvers:
  "get_isotope_list test_lib_listed [''Li''] isotopes None uq = Inr [7]"
  "get_isotope_list test_lib_listed [''Li''] isotopes (Some [Some 6]) uq = Inr [6]"
  "get_isotope_data test_lib_listed [''Li''] ''Q'' isotopes None uq = Inr [5]"
  "get_isotope_data test_lib_listed [''Li''] ''I'' isotopes None uq = Inr [3 / 2]"
  by (simp_all add: test_lib_listed_def)

lemma listed_diagonal:
  "EFGDiagonal_extract test_lib_listed True (test_atoms, out) =
     (Inr [([-1, -1, 2], [[-1, 0, 0], [0, -1, 0], [0, 0, 2]])], (test_atoms_diag, out))"
  by (simp add: EFGDiagonal_extract_def has_efg_check_def has_def test_atoms_def listed_fields
      test_atoms_diag_def test_symmetrise Let_def)

lemma listed_ensure:
  "ensure_diagonal test_lib_listed False (test_atoms, out) = (None, (test_atoms_diag, out))"
  by (simp add: ensure_diagonal_def listed_diagonal test_has)

lemma listed_vzz:
  "EFGVzz_extract test_lib_listed False (test_atoms_diag, out) = (Inr [2], (test_atoms_diag, out))"
  using EFGVzz_cached[OF test_has(2) test_has(4), of test_lib_listed out]
  by (simp add: last_column_def)

lemma listed_asymmetry:
  "EFGAsymmetry_extract test_lib_listed False (test_atoms_diag, out) = (Inr [0], (test_atoms_diag, out))"
  using EFGAsymmetry_cached[OF test_has(2) test_has(4), of test_lib_listed out]
  by (simp add: listed_fields)

lemma listed_nqr_run:
  "EFGNQR_extract test_lib_listed False False isotopes None (test_atoms, out) =
     (Inr [[(''m=0.5->1.5'', 10)]], (test_atoms_diag, out))"
  unfolding EFGNQR_extract_def
  by (simp add: has_efg_check_def test_has listed_ensure check_isotope_list_None listed_resolvers
      listed_fields listed_asymmetry listed_vzz list_getitem_def test_frange test_key Let_def)

lemma test_species: "show_int 7 @ ''Li'' = ''7Li''" "show_int 6 @ ''Li'' = ''6Li''"
  by (simp_all add: show_int_def show_nat.simps digit_def)

lemma listed_tensor_run:
  "EFGTensor_extract test_lib_listed order False isotopes None (test_atoms, out) =
     (Inr [''7Li''], (test_atoms, out))"
  "EFGTensor_extract test_lib_listed order False isotopes (Some [Some 6]) (test_atoms, out) =
     (Inr [''6Li''], (test_atoms, out))"
  unfolding EFGTensor_extract_def
  by (simp_all add: has_efg_check_def test_has check_isotope_list_def listed_resolvers
      listed_fields test_species Let_def) (simp_all add: test_atoms_def listed_fields)

subsection \<open>The claims\<close>

text \<open>
  C4. For a structure without the array \<open>efg\<close>, whatever \<open>_has_efg_check\<close> wraps
  raises \<open>RuntimeError\<close> with the message "No electric field gradient data found for
  this system", and the state after the raise is the state before it: the wrapped function
  is not called, no array is written and nothing is printed. This holds for the decorator
  applied to any function, and so for each extract of the module modelled here.
\<close>

theorem has_efg_check_missing_array:
  assumes "\<not> has s ''efg''"
  shows "has_efg_check f (s, out) =
           (Inl (RuntimeError ''No electric field gradient data found for this system''), (s, out)) \<and>
         EFGTensor_extract lib order use_q_isotopes isotopes isotope_list (s, out) =
           (Inl (RuntimeError ''No electric field gradient data found for this system''), (s, out)) \<and>
         EFGDiagonal_extract lib save_array (s, out) =
           (Inl (RuntimeError ''No electric field gradient data found for this system''), (s, out)) \<and>
         EFGVzz_extract lib force_recalc (s, out) =
           (Inl (RuntimeError ''No electric field gradient data found for this system''), (s, out)) \<and>
         EFGAsymmetry_extract lib force_recalc (s, out) =
           (Inl (RuntimeError ''No electric field gradient data found for this system''), (s, out)) \<and>
         EFGQuadrupolarConstant_extract lib force_recalc use_q_isotopes isotopes isotope_list (s, out) =
           (Inl (RuntimeError ''No electric field gradient data found for this system''), (s, out)) \<and>
         EFGNQR_extract lib force_recalc use_q_isotopes isotopes isotope_list (s, out) =
           (Inl (RuntimeError ''No electric field gradient data found for this system''), (s, out)) \<and>
         EFGQuadrupolarProduct_extract lib force_recalc use_q_isotopes isotopes isotope_list (s, out) =
           (Inl (RuntimeError ''No electric field gradient data found for this system''), (s, out))"
  unfolding EFGTensor_extract_def EFGDiagonal_extract_def EFGVzz_extract_def EFGAsymmetry_extract_def
    EFGQuadrupolarConstant_extract_def EFGNQR_extract_def EFGQuadrupolarProduct_extract_def
  using assms by (simp add: has_efg_check_absent)

theorem has_efg_check_missing_array_witness:
  "\<not> has test_atoms_no_efg ''efg'' \<and>
   has_efg_check (\<lambda>st. (Inr (0 :: nat), (test_atoms, snd st @ [''computed''])))
       (test_atoms_no_efg, []) =
     (Inl (RuntimeError ''No electric field gradient data found for this system''),
      (test_atoms_no_efg, [])) \<and>
   EFGNQR_extract test_lib True False Map.empty None (test_atoms_no_efg, []) =
     (Inl (RuntimeError ''No electric field gradient data found for this system''),
      (test_atoms_no_efg, []))"
proof -
  have h: "\<not> has test_atoms_no_efg ''efg''"
    by (simp add: has_def test_atoms_no_efg_def test_atoms_def)
  from has_efg_check_missing_array[OF h,
      of "\<lambda>st. (Inr (0 :: nat), (test_atoms, snd st @ [''computed'']))" "[]"
         test_lib _ _ Map.empty None _ True]
  show ?thesis using h by blast
qed

text \<open>
  C7 as stated fails: it is not every structure on which an extract with a list of the wrong
  length does not fail. On a structure without the array \<open>efg\<close> the decorator raises
  before the list is looked at, and nothing is printed; on a structure without atoms the
  diagonalisation that \<open>EFGQuadrupolarConstant\<close>, \<open>EFGNQR\<close> and
  \<open>EFGQuadrupolarProduct\<close> start with raises \<open>ValueError\<close>, before the list is
  looked at too.
\<close>

theorem invalid_isotope_list_ignored_counterexample:
  "length [Some 6, Some 7 :: int option] \<noteq> length (symbols test_atoms_no_efg) \<and>
   EFGTensor_extract test_lib_listed ''h'' False Map.empty (Some [Some 6, Some 7]) (test_atoms_no_efg, []) =
     (Inl (RuntimeError ''No electric field gradient data found for this system''),
      (test_atoms_no_efg, [])) \<and>
   length [Some 7 :: int option] \<noteq> length (symbols test_atoms_empty) \<and>
   EFGQuadrupolarConstant_extract test_lib_listed False False Map.empty (Some [Some 7]) (test_atoms_empty, []) =
     (Inl (ValueError ''not enough values to unpack''), (test_atoms_empty, []))"
proof -
  have h: "\<not> has test_atoms_no_efg ''efg''"
    by (simp add: has_def test_atoms_no_efg_def test_atoms_def)
  have a: "EFGTensor_extract test_lib_listed ''h'' False Map.empty (Some [Some 6, Some 7]) (test_atoms_no_efg, []) =
     (Inl (RuntimeError ''No electric field gradient data found for this system''),
      (test_atoms_no_efg, []))"
    unfolding EFGTensor_extract_def using h by (rule has_efg_check_absent)
  have e: "has test_atoms_empty ''efg''" "\<not> has test_atoms_empty ''efg_diagonal_evals_hsort''"
    "efg test_atoms_empty = Some []"
    by (simp_all add: has_def test_atoms_empty_def)
  have d: "EFGDiagonal_extract test_lib_listed True (test_atoms_empty, []) =
             (Inl (ValueError ''not enough values to unpack''), (test_atoms_empty, []))"
    by (simp add: EFGDiagonal_extract_def has_efg_check_def e)
  have b: "EFGQuadrupolarConstant_extract test_lib_listed False False Map.empty (Some [Some 7]) (test_atoms_empty, []) =
     (Inl (ValueError ''not enough values to unpack''), (test_atoms_empty, []))"
    by (simp add: EFGQuadrupolarConstant_extract_def has_efg_check_def e ensure_diagonal_def d)
  have l: "length [Some 6, Some 7 :: int option] \<noteq> length (symbols test_atoms_no_efg)"
    "length [Some 7 :: int option] \<noteq> length (symbols test_atoms_empty)"
    by (simp_all add: test_atoms_no_efg_def test_atoms_def test_atoms_empty_def)
  from a b l show ?thesis by blast
qed

text \<open>
  C7, amended. Let the length of the per-atom isotope list differ from the number of atoms.
  Whenever the extract of \<open>EFGTensor\<close>, \<open>EFGQuadrupolarConstant\<close>,
  \<open>EFGNQR\<close> or \<open>EFGQuadrupolarProduct\<close> returns a value with
  \<open>isotope_list=None\<close>, it returns with the list too: the same value, the same
  structure, and the warning printed after the lines printed before. The list is discarded:
  on a structure with the array \<open>efg\<close>, \<open>EFGTensor\<close> prints the warning, calls
  the resolver with \<open>None\<close> for the list and builds the tensors from what it answers
  (or raises what it raises); the other three, once the diagonalisation they start with has
  succeeded, print the warning and end with the value or the error, and the structure, of the
  run with \<open>isotope_list=None\<close>.
\<close>

theorem invalid_isotope_list_ignored:
  assumes "length il \<noteq> length (symbols s)"
  shows "(\<forall>v s' out'.
            EFGTensor_extract lib order use_q_isotopes isotopes None (s, out) = (Inr v, (s', out')) \<longrightarrow>
            EFGTensor_extract lib order use_q_isotopes isotopes (Some il) (s, out) =
              (Inr v, (s', out @ [''WARNING - invalid isotope_list, ignoring'']))) \<and>
         (\<forall>v s' out'.
            EFGQuadrupolarConstant_extract lib force_recalc use_q_isotopes isotopes None (s, out) = (Inr v, (s', out')) \<longrightarrow>
            EFGQuadrupolarConstant_extract lib force_recalc use_q_isotopes isotopes (Some il) (s, out) =
              (Inr v, (s', out @ [''WARNING - invalid isotope_list, ignoring'']))) \<and>
         (\<forall>v s' out'.
            EFGNQR_extract lib force_recalc use_q_isotopes isotopes None (s, out) = (Inr v, (s', out')) \<longrightarrow>
            EFGNQR_extract lib force_recalc use_q_isotopes isotopes (Some il) (s, out) =
              (Inr v, (s', out @ [''WARNING - invalid isotope_list, ignoring'']))) \<and>
         (\<forall>v s' out'.
            EFGQuadrupolarProduct_extract lib force_recalc use_q_isotopes isotopes None (s, out) = (Inr v, (s', out')) \<longrightarrow>
            EFGQuadrupolarProduct_extract lib force_recalc use_q_isotopes isotopes (Some il) (s, out) =
              (Inr v, (s', out @ [''WARNING - invalid isotope_list, ignoring'']))) \<and>
         (\<forall>efgs. efg s = Some efgs \<longrightarrow>
            EFGTensor_extract lib order use_q_isotopes isotopes (Some il) (s, out) =
              ((case get_isotope_list lib (symbols s) isotopes None use_q_isotopes of
                  Inl e \<Rightarrow> Inl e
                | Inr isotopelist \<Rightarrow>
                    traverse (\<lambda>(efg, species). ElectricFieldGradient lib efg species order)
                      (zip efgs (map (\<lambda>(iso, elem). show_int iso @ elem) (zip isotopelist (symbols s))))),
               (s, out @ [''WARNING - invalid isotope_list, ignoring'']))) \<and>
         (has s ''efg'' \<and> fst (ensure_diagonal lib force_recalc (s, out)) = None \<longrightarrow>
            EFGQuadrupolarConstant_extract lib force_recalc use_q_isotopes isotopes (Some il) (s, out) =
              (fst (EFGQuadrupolarConstant_extract lib force_recalc use_q_isotopes isotopes None (s, out)),
               (fst (snd (EFGQuadrupolarConstant_extract lib force_recalc use_q_isotopes isotopes None (s, out))),
                out @ [''WARNING - invalid isotope_list, ignoring''])) \<and>
            EFGNQR_extract lib force_recalc use_q_isotopes isotopes (Some il) (s, out) =
              (fst (EFGNQR_extract lib force_recalc use_q_isotopes isotopes None (s, out)),
               (fst (snd (EFGNQR_extract lib force_recalc use_q_isotopes isotopes None (s, out))),
                out @ [''WARNING - invalid isotope_list, ignoring''])) \<and>
            EFGQuadrupolarProduct_extract lib force_recalc use_q_isotopes isotopes (Some il) (s, out) =
              (fst (EFGQuadrupolarProduct_extract lib force_recalc use_q_isotopes isotopes None (s, out)),
               (fst (snd (EFGQuadrupolarProduct_extract lib force_recalc use_q_isotopes isotopes None (s, out))),
                out @ [''WARNING - invalid isotope_list, ignoring''])))"
proof (intro conjI allI impI)
  fix v s' out'
  assume r: "EFGTensor_extract lib order use_q_isotopes isotopes None (s, out) = (Inr v, (s', out'))"
  from EFGTensor_warns[OF assms EFGTensor_returned[OF r], of lib order use_q_isotopes isotopes out]
  show "EFGTensor_extract lib order use_q_isotopes isotopes (Some il) (s, out) =
          (Inr v, (s', out @ [''WARNING - invalid isotope_list, ignoring'']))"
    using r by simp
next
  fix v s' out'
  assume r: "EFGQuadrupolarConstant_extract lib force_recalc use_q_isotopes isotopes None (s, out) = (Inr v, (s', out'))"
  note p = EFGQuadrupolarConstant_returned[OF r]
  from EFGQuadrupolarConstant_warns[OF assms conjunct1[OF p] conjunct2[OF p], of use_q_isotopes isotopes]
  show "EFGQuadrupolarConstant_extract lib force_recalc use_q_isotopes isotopes (Some il) (s, out) =
          (Inr v, (s', out @ [''WARNING - invalid isotope_list, ignoring'']))"
    using r by simp
next
  fix v s' out'
  assume r: "EFGNQR_extract lib force_recalc use_q_isotopes isotopes None (s, out) = (Inr v, (s', out'))"
  note p = EFGNQR_returned[OF r]
  from EFGNQR_warns[OF assms conjunct1[OF p] conjunct2[OF p], of use_q_isotopes isotopes]
  show "EFGNQR_extract lib force_recalc use_q_isotopes isotopes (Some il) (s, out) =
          (Inr v, (s', out @ [''WARNING - invalid isotope_list, ignoring'']))"
    using r by simp
next
  fix v s' out'
  assume r: "EFGQuadrupolarProduct_extract lib force_recalc use_q_isotopes isotopes None (s, out) = (Inr v, (s', out'))"
  note p = EFGQuadrupolarProduct_returned[OF r]
  from EFGQuadrupolarProduct_warns[OF assms conjunct1[OF p] conjunct2[OF p], of use_q_isotopes isotopes]
  show "EFGQuadrupolarProduct_extract lib force_recalc use_q_isotopes isotopes (Some il) (s, out) =
          (Inr v, (s', out @ [''WARNING - invalid isotope_list, ignoring'']))"
    using r by simp
next
  fix efgs assume "efg s = Some efgs"
  from EFGTensor_discards[OF assms this]
  show "EFGTensor_extract lib order use_q_isotopes isotopes (Some il) (s, out) =
              ((case get_isotope_list lib (symbols s) isotopes None use_q_isotopes of
                  Inl e \<Rightarrow> Inl e
                | Inr isotopelist \<Rightarrow>
                    traverse (\<lambda>(efg, species). ElectricFieldGradient lib efg species order)
                      (zip efgs (map (\<lambda>(iso, elem). show_int iso @ elem) (zip isotopelist (symbols s))))),
               (s, out @ [''WARNING - invalid isotope_list, ignoring'']))" .
next
  assume h: "has s ''efg'' \<and> fst (ensure_diagonal lib force_recalc (s, out)) = None"
  from EFGQuadrupolarConstant_warns[OF assms conjunct1[OF h] conjunct2[OF h]]
  show "EFGQuadrupolarConstant_extract lib force_recalc use_q_isotopes isotopes (Some il) (s, out) =
              (fst (EFGQuadrupolarConstant_extract lib force_recalc use_q_isotopes isotopes None (s, out)),
               (fst (snd (EFGQuadrupolarConstant_extract lib force_recalc use_q_isotopes isotopes None (s, out))),
                out @ [''WARNING - invalid isotope_list, ignoring'']))" .
next
  assume h: "has s ''efg'' \<and> fst (ensure_diagonal lib force_recalc (s, out)) = None"
  from EFGNQR_warns[OF assms conjunct1[OF h] conjunct2[OF h]]
  show "EFGNQR_extract lib force_recalc use_q_isotopes isotopes (Some il) (s, out) =
              (fst (EFGNQR_extract lib force_recalc use_q_isotopes isotopes None (s, out)),
               (fst (snd (EFGNQR_extract lib force_recalc use_q_isotopes isotopes None (s, out))),
                out @ [''WARNING - invalid isotope_list, ignoring'']))" .
next
  assume h: "has s ''efg'' \<and> fst (ensure_diagonal lib force_recalc (s, out)) = None"
  from EFGQuadrupolarProduct_warns[OF assms conjunct1[OF h] conjunct2[OF h]]
  show "EFGQuadrupolarProduct_extract lib force_recalc use_q_isotopes isotopes (Some il) (s, out) =
              (fst (EFGQuadrupolarProduct_extract lib force_recalc use_q_isotopes isotopes None (s, out)),
               (fst (snd (EFGQuadrupolarProduct_extract lib force_recalc use_q_isotopes isotopes None (s, out))),
                out @ [''WARNING - invalid isotope_list, ignoring'']))" .
qed

theorem invalid_isotope_list_ignored_witness:
  "length [Some 6, Some 7 :: int option] \<noteq> length (symbols test_atoms) \<and>
   EFGTensor_extract test_lib_listed ''h'' False Map.empty (Some [Some 6]) (test_atoms, []) =
     (Inr [''6Li''], (test_atoms, [])) \<and>
   EFGTensor_extract test_lib_listed ''h'' False Map.empty None (test_atoms, []) =
     (Inr [''7Li''], (test_atoms, [])) \<and>
   EFGTensor_extract test_lib_listed ''h'' False Map.empty (Some [Some 6, Some 7]) (test_atoms, []) =
     (Inr [''7Li''], (test_atoms, [''WARNING - invalid isotope_list, ignoring''])) \<and>
   EFGNQR_extract test_lib_listed False False Map.empty None (test_atoms, []) =
     (Inr [[(''m=0.5->1.5'', 10)]], (test_atoms_diag, [])) \<and>
   EFGNQR_extract test_lib_listed False False Map.empty (Some [Some 6, Some 7]) (test_atoms, []) =
     (Inr [[(''m=0.5->1.5'', 10)]], (test_atoms_diag, [''WARNING - invalid isotope_list, ignoring'']))"
proof -
  have l: "length [Some 6, Some 7 :: int option] \<noteq> length (symbols test_atoms)"
    by (simp add: test_has)
  note t0 = listed_tensor_run(1)[of "''h''" Map.empty "[]"]
  note t6 = listed_tensor_run(2)[of "''h''" Map.empty "[]"]
  note n0 = listed_nqr_run[of Map.empty "[]"]
  note th = invalid_isotope_list_ignored[OF l, of test_lib_listed "''h''" False Map.empty "[]" False]
  from th t0
  have a: "EFGTensor_extract test_lib_listed ''h'' False Map.empty (Some [Some 6, Some 7]) (test_atoms, []) =
     (Inr [''7Li''], (test_atoms, [''WARNING - invalid isotope_list, ignoring'']))"
    by simp
  from th n0
  have b: "EFGNQR_extract test_lib_listed False False Map.empty (Some [Some 6, Some 7]) (test_atoms, []) =
     (Inr [[(''m=0.5->1.5'', 10)]], (test_atoms_diag, [''WARNING - invalid isotope_list, ignoring'']))"
    by simp
  from l t6 t0 a n0 b show ?thesis by blast
qed

text \<open>
  C1. When \<open>EFGNQR.extract\<close> returns, with \<open>q_list\<close> and \<open>I_list\<close> the
  quadrupole moments and spins the resolver gives for the isotope list in use, \<open>evals\<close>
  the Haeberlen-sorted eigenvalues stored on the structure, \<open>Vzz\<close> their last column and
  \<open>eta\<close> the asymmetry of \<open>evals\<close>: for an atom \<open>i\<close> whose spin \<open>I\<close> is
  above 1/2 (a nuclear spin, that is a multiple of 1/2), the mapping returned for \<open>i\<close>
  has exactly one entry for every \<open>m\<close> among \<open>-I, -I+1, \<dots>, I-1\<close> with
  \<open>m \<ge> 0\<close>, in that order, keyed \<open>m=<m>-><m+1>\<close> (the keys are pairwise
  different), with value \<open>3 A (2m+1) sqrt(1 + eta^2/3)\<close> where
  \<open>A = EFG_TO_CHI Q Vzz / (4 I (2I - 1))\<close>; for an atom with \<open>I \<le> 1/2\<close> the mapping
  is empty.
\<close>

theorem EFGNQR_transitions:
  assumes "EFGNQR_extract lib force_recalc use_q_isotopes isotopes isotope_list (s, out)
             = (Inr nqr, (s', out'))"
    and "get_isotope_data lib (symbols s) ''Q'' isotopes
           (fst (check_isotope_list isotope_list (symbols s) out)) use_q_isotopes = Inr q_list"
    and "get_isotope_data lib (symbols s) ''I'' isotopes
           (fst (check_isotope_list isotope_list (symbols s) out)) use_q_isotopes = Inr I_list"
    and "i < length (symbols s)" and "i < length I_list"
  shows "\<exists>evals.
           efg_diagonal_evals_hsort s' = Some evals \<and>
           (1 / 2 < I_list ! i \<and> 2 * I_list ! i \<in> \<nat> \<longrightarrow>
              (\<exists>vzz. last_column evals = Inr vzz \<and> i < length vzz \<and> i < length q_list \<and>
                 nqr ! i =
                   nqr_entry (EFG_TO_CHI lib * q_list ! i * vzz ! i / (4 * I_list ! i * (2 * I_list ! i - 1)))
                             (asymmetry lib evals ! i)
                             (filter (\<lambda>m. 0 \<le> m)
                                (map (\<lambda>j. - (I_list ! i) + real j) [0..<nat \<lfloor>2 * I_list ! i\<rfloor>])) \<and>
                 distinct (map fst (nqr ! i)))) \<and>
           (I_list ! i \<le> 1 / 2 \<longrightarrow> nqr ! i = [])"
  using assms by (rule EFGNQR_entries)

theorem EFGNQR_transitions_witness:
  "EFGNQR_extract test_lib False False Map.empty None (test_atoms, []) =
     (Inr [[(''m=0.5->1.5'', 10)]], (test_atoms_diag, [])) \<and>
   (0 :: nat) < length (symbols test_atoms) \<and>
   1 / 2 < [3 / 2 :: real] ! 0 \<and> 2 * [3 / 2 :: real] ! 0 \<in> \<nat> \<and>
   [[(''m=0.5->1.5'', 10 :: real)]] ! 0 =
     nqr_entry (2 * 5 * 2 / (4 * (3 / 2) * (2 * (3 / 2) - 1))) 0 [1 / 2]"
proof -
  note run = test_nqr_run[of Map.empty "[]"]
  have sy: "symbols test_atoms = [''Li'']" by (rule test_has)
  have Q: "get_isotope_data test_lib (symbols test_atoms) ''Q'' Map.empty
             (fst (check_isotope_list None (symbols test_atoms) [])) False = Inr [5]"
    by (simp add: sy test_data)
  have I: "get_isotope_data test_lib (symbols test_atoms) ''I'' Map.empty
             (fst (check_isotope_list None (symbols test_atoms) [])) False = Inr [3 / 2]"
    by (simp add: sy test_data)
  have i: "(0 :: nat) < length (symbols test_atoms)" "(0 :: nat) < length [3 / 2 :: real]"
    by (simp_all add: sy)
  have big: "1 / 2 < [3 / 2 :: real] ! 0" by simp
  have "2 * [3 / 2 :: real] ! 0 = real 3" by simp
  then have nat: "2 * [3 / 2 :: real] ! 0 \<in> \<nat>" by (simp only: of_nat_in_Nats)
  from EFGNQR_transitions[OF run Q I i] obtain evals where
    hs: "efg_diagonal_evals_hsort test_atoms_diag = Some evals" and
    hi: "1 / 2 < [3 / 2 :: real] ! 0 \<and> 2 * [3 / 2 :: real] ! 0 \<in> \<nat> \<longrightarrow>
              (\<exists>vzz. last_column evals = Inr vzz \<and> 0 < length vzz \<and> 0 < length [5 :: real] \<and>
                 [[(''m=0.5->1.5'', 10 :: real)]] ! 0 =
                   nqr_entry (EFG_TO_CHI test_lib * [5] ! 0 * vzz ! 0 / (4 * [3 / 2] ! 0 * (2 * [3 / 2] ! 0 - 1)))
                             (asymmetry test_lib evals ! 0)
                             (filter (\<lambda>m. 0 \<le> m)
                                (map (\<lambda>j. - ([3 / 2] ! 0) + real j) [0..<nat \<lfloor>2 * [3 / 2 :: real] ! 0\<rfloor>])) \<and>
                 distinct (map fst ([[(''m=0.5->1.5'', 10 :: real)]] ! 0)))"
    by blast
  have ev: "evals = [[-1, -1, 2]]" using hs by (simp add: test_has)
  from hi big nat obtain vzz where
    lc: "last_column evals = Inr vzz" and
    en: "[[(''m=0.5->1.5'', 10 :: real)]] ! 0 =
           nqr_entry (EFG_TO_CHI test_lib * [5] ! 0 * vzz ! 0 / (4 * [3 / 2] ! 0 * (2 * [3 / 2] ! 0 - 1)))
                     (asymmetry test_lib evals ! 0)
                     (filter (\<lambda>m. 0 \<le> m)
                        (map (\<lambda>j. - ([3 / 2] ! 0) + real j) [0..<nat \<lfloor>2 * [3 / 2 :: real] ! 0\<rfloor>]))"
    by blast
  have vz: "vzz = [2]" using lc ev by (simp add: last_column_def)
  have as: "asymmetry test_lib evals ! 0 = 0" using ev by (simp add: test_lib_def)
  have ms: "filter (\<lambda>m. 0 \<le> m)
              (map (\<lambda>j. - ([3 / 2] ! 0) + real j) [0..<nat \<lfloor>2 * [3 / 2 :: real] ! 0\<rfloor>]) = [1 / 2]"
    using three_halves_ms by simp
  have "[[(''m=0.5->1.5'', 10 :: real)]] ! 0 =
          nqr_entry (2 * 5 * 2 / (4 * (3 / 2) * (2 * (3 / 2) - 1))) 0 [1 / 2]"
    using en unfolding ms as vz by (simp add: test_data)
  with run i(1) big nat show ?thesis by blast
qed

text \<open>
  C2 as stated fails on the key: the key is built by \<open>f'm={m}->{m+1}'\<close> from the floats
  \<open>m\<close> and \<open>m+1\<close>, so for spin 3/2 it is \<open>m=0.5->1.5\<close>, not
  \<open>m=1/2->3/2\<close>. On the test structure (one atom of spin 3/2, asymmetry 0) the mapping
  returned has the single key \<open>m=0.5->1.5\<close>.
\<close>

theorem EFGNQR_spin_three_halves_counterexample:
  "get_isotope_data test_lib (symbols test_atoms) ''I'' Map.empty None False = Inr [3 / 2] \<and>
   EFGAsymmetry_extract test_lib False (test_atoms, []) = (Inr [0], (test_atoms_diag, [])) \<and>
   EFGNQR_extract test_lib False False Map.empty None (test_atoms, []) =
     (Inr [[(''m=0.5->1.5'', 10)]], (test_atoms_diag, [])) \<and>
   \<not> (\<exists>f. fst (EFGNQR_extract test_lib False False Map.empty None (test_atoms, [])) =
            Inr [[(''m=1/2->3/2'', f)]])"
proof -
  have av: "asymmetry test_lib [[-1, -1, 2]] = [0]" by (simp add: test_lib_def)
  have a: "EFGAsymmetry_extract test_lib False (test_atoms, []) = (Inr [0], (test_atoms_diag, []))"
    by (simp add: EFGAsymmetry_extract_def has_efg_check_def test_has test_ensure
        get_evals_hsort_def av)
  show ?thesis
    by (simp add: test_nqr_run a test_has test_data)
qed

text \<open>
  C2, amended. For an atom whose resolved isotope has spin \<open>I = 3/2\<close> and quadrupole
  moment \<open>Q\<close>, with asymmetry \<open>eta = 0\<close> and Haeberlen \<open>Vzz = V\<close>,
  \<open>EFGNQR.extract\<close> returns exactly one transition for that atom, with key
  \<open>m=0.5->1.5\<close> and frequency \<open>3 A 2\<close> where \<open>A = k Q V / (4 * 1.5 * 2)\<close>.
\<close>

theorem EFGNQR_spin_three_halves:
  assumes "EFGNQR_extract lib force_recalc use_q_isotopes isotopes isotope_list (s, out)
             = (Inr nqr, (s', out'))"
    and "get_isotope_data lib (symbols s) ''Q'' isotopes
           (fst (check_isotope_list isotope_list (symbols s) out)) use_q_isotopes = Inr q_list"
    and "get_isotope_data lib (symbols s) ''I'' isotopes
           (fst (check_isotope_list isotope_list (symbols s) out)) use_q_isotopes = Inr I_list"
    and "i < length (symbols s)" and "i < length I_list"
    and "I_list ! i = 3 / 2"
    and "efg_diagonal_evals_hsort s' = Some evals"
    and "asymmetry lib evals ! i = 0"
  shows "\<exists>vzz. last_column evals = Inr vzz \<and> i < length vzz \<and> i < length q_list \<and>
           nqr ! i = [(''m=0.5->1.5'', 3 * (EFG_TO_CHI lib * q_list ! i * vzz ! i / (4 * 1.5 * 2)) * 2)]"
proof -
  have big: "1 / 2 < I_list ! i" using assms(6) by simp
  have "2 * I_list ! i = real 3" using assms(6) by simp
  then have nat: "2 * I_list ! i \<in> \<nat>" by (simp only: of_nat_in_Nats)
  from EFGNQR_entries[OF assms(1-5)] assms(7) big nat obtain vzz where
    v: "last_column evals = Inr vzz" "i < length vzz" "i < length q_list" and
    e: "nqr ! i =
          nqr_entry (EFG_TO_CHI lib * q_list ! i * vzz ! i / (4 * I_list ! i * (2 * I_list ! i - 1)))
                    (asymmetry lib evals ! i)
                    (filter (\<lambda>m. 0 \<le> m)
                       (map (\<lambda>j. - (I_list ! i) + real j) [0..<nat \<lfloor>2 * I_list ! i\<rfloor>]))"
    by auto
  have "nqr ! i = [(''m=0.5->1.5'', 3 * (EFG_TO_CHI lib * q_list ! i * vzz ! i / (4 * 1.5 * 2)) * 2)]"
    unfolding e assms(6) assms(8) three_halves_ms by (rule three_halves_entry)
  with v show ?thesis by blast
qed

theorem EFGNQR_spin_three_halves_witness:
  "EFGNQR_extract test_lib False False Map.empty None (test_atoms, []) =
     (Inr [[(''m=0.5->1.5'', 10)]], (test_atoms_diag, [])) \<and>
   [3 / 2 :: real] ! 0 = 3 / 2 \<and>
   efg_diagonal_evals_hsort test_atoms_diag = Some [[-1, -1, 2]] \<and>
   asymmetry test_lib [[-1, -1, 2]] ! 0 = 0 \<and>
   last_column [[-1, -1, 2]] = Inr [2] \<and>
   [[(''m=0.5->1.5'', 10 :: real)]] ! 0 =
     [(''m=0.5->1.5'', 3 * (EFG_TO_CHI test_lib * [5] ! 0 * [2] ! 0 / (4 * 1.5 * 2)) * 2)]"
proof -
  note run = test_nqr_run[of Map.empty "[]"]
  have sy: "symbols test_atoms = [''Li'']" by (rule test_has)
  have Q: "get_isotope_data test_lib (symbols test_atoms) ''Q'' Map.empty
             (fst (check_isotope_list None (symbols test_atoms) [])) False = Inr [5]"
    by (simp add: sy test_data)
  have I: "get_isotope_data test_lib (symbols test_atoms) ''I'' Map.empty
             (fst (check_isotope_list None (symbols test_atoms) [])) False = Inr [3 / 2]"
    by (simp add: sy test_data)
  have i: "(0 :: nat) < length (symbols test_atoms)" "(0 :: nat) < length [3 / 2 :: real]"
    by (simp_all add: sy)
  have sp: "[3 / 2 :: real] ! 0 = 3 / 2" by simp
  have hs: "efg_diagonal_evals_hsort test_atoms_diag = Some [[-1, -1, 2]]" by (rule test_has)
  have as: "asymmetry test_lib [[-1, -1, 2]] ! 0 = 0" by (simp add: test_lib_def)
  have lc: "last_column [[-1, -1, 2]] = Inr [2]" by (simp add: last_column_def)
  from EFGNQR_spin_three_halves[OF run Q I i sp hs as] obtain vzz where
    "last_column [[-1, -1, 2]] = Inr vzz" and
    e: "[[(''m=0.5->1.5'', 10 :: real)]] ! 0 =
          [(''m=0.5->1.5'', 3 * (EFG_TO_CHI test_lib * [5] ! 0 * vzz ! 0 / (4 * 1.5 * 2)) * 2)]"
    by blast
  then have "vzz = [2]" using lc by simp
  with e have "[[(''m=0.5->1.5'', 10 :: real)]] ! 0 =
     [(''m=0.5->1.5'', 3 * (EFG_TO_CHI test_lib * [5] ! 0 * [2] ! 0 / (4 * 1.5 * 2)) * 2)]"
    by simp
  with run sp hs as lc show ?thesis by blast
qed

section \<open>Properties of the aggregation\<close>

subsection \<open>The example table, evaluated\<close>

lemma test_table_keys: "sort (remdups [0, 0, 1, 1 :: int]) = [0, 1]"
  by simp

lemma test_table_rules:
  "aggrules Mean (df_columns test_table) =
     Inr [(''labels'', SetRule), (''species'', First), (''multiplicity'', Count), (''file'', First),
          (''EFG_Vzz'', Mean), (''EFG_asymmetry'', Mean)]"
  by (simp add: aggrules_def test_table_def Let_def)

subsection \<open>The claim\<close>

text \<open>
  C8. Aggregating with the combine rule \<open>mean\<close> the table of four atoms tagged
  \<open>[0, 0, 1, 1]\<close> with asymmetries \<open>[0.1, 0.1, 0.3, 0.3]\<close> and Vzz
  \<open>[10, 10, 5, 5]\<close> gives exactly two rows: the row of tag 0 has asymmetry 0.1 and Vzz
  10, the row of tag 1 has asymmetry 0.3 and Vzz 5, and both have multiplicity 2, the count
  of the sites of the group. (The label of a row is the comma-joined set of the labels of
  its group; the column \<open>indices\<close> is dropped.)
\<close>

theorem aggregate_example:
  "aggregate set_iter Mean test_table =
     Inr \<lparr>df_tags = [0, 1],
          df_columns =
            [(''labels'', ObjCol [join '','' (set_iter {''H1''}), join '','' (set_iter {''H2''})]),
             (''species'', ObjCol [''2H'', ''2H'']),
             (''multiplicity'', IntCol [2, 2]),
             (''file'', ObjCol [''a.magres'', ''a.magres'']),
             (''EFG_Vzz'', FloatCol [Some 10, Some 5]),
             (''EFG_asymmetry'', FloatCol [Some 0.1, Some 0.3])]\<rparr>"
proof -
  have cols: "df_columns test_table =
        [(''indices'', IntCol [0, 1, 2, 3]),
         (''labels'', ObjCol [''H1'', ''H1'', ''H2'', ''H2'']),
         (''species'', ObjCol [''2H'', ''2H'', ''2H'', ''2H'']),
         (''multiplicity'', FloatCol [Some 1, Some 1, Some 1, Some 1]),
         (''file'', ObjCol [''a.magres'', ''a.magres'', ''a.magres'', ''a.magres'']),
         (''EFG_Vzz'', FloatCol [Some 10, Some 10, Some 5, Some 5]),
         (''EFG_asymmetry'', FloatCol [Some 0.1, Some 0.1, Some 0.3, Some 0.3])]"
    and tg: "df_tags test_table = [0, 0, 1, 1]"
    by (simp_all add: test_table_def)
  show ?thesis
    unfolding aggregate_def test_table_rules tg test_table_keys
    by (simp add: cols group_values_def mean_skipna_def dropna_def map_filter_simps Let_def)
qed

section \<open>Properties of find_XHn_groups\<close>

subsection \<open>The test molecule, evaluated\<close>

lemma test_split: "split_on CHR ''H'' ''CH3'' = [''C'', ''3'']" "split_on CHR '','' ''CH3'' = [''CH3'']"
  by simp_all

lemma test_digit: "digits_int ''3'' = Some 3"
  by (simp add: digits_int_def)

lemma upt8: "[0..<8] = [0, 1, 2, 3, 4, 5, 6, 7]" "[0..<6] = [0, 1, 2, 3, 4, 5]"
  by (simp_all add: upt_rec)

lemma test_hinds: "filter (\<lambda>i. test_symbs ! i = ''H'') [0..<length test_symbs] = [0, 1, 2, 3, 4, 5]"
  by (simp add: test_symbs_def upt8)

lemma test_xinds0: "filter (\<lambda>i. test_symbs ! i = ''C'') [0..<length test_symbs] = [6, 7]"
  by (simp add: test_symbs_def upt8)

lemma test_xinds:
  "filter (\<lambda>x. int (sum_list (map (test_bmat x) [0, 1, 2, 3, 4, 5])) = 3) [6, 7] = [6, 7]"
  by (simp add: test_bmat_def)

lemma test_group6:
  "filter (\<lambda>j. test_bmat 6 ([0, 1, 2, 3, 4, 5] ! j) = 1) [0..<length [0, 1, 2, 3, 4, 5 :: nat]] = [0, 1, 2]"
  by (simp add: test_bmat_def upt8)

lemma test_group7:
  "filter (\<lambda>j. test_bmat 7 ([0, 1, 2, 3, 4, 5] ! j) = 1) [0..<length [0, 1, 2, 3, 4, 5 :: nat]] = [3, 4, 5]"
  by (simp add: test_bmat_def upt8)

lemma test_tags_group:
  "traverse (list_getitem test_tags) [0, 1, 2] = Inr [1, 1, 1]"
  "traverse (list_getitem test_tags) [3, 4, 5] = Inr [1, 1, 1]"
  by (simp_all add: list_getitem_def test_tags_def)

lemma test_candidate6:
  "xhn_candidate test_bmat [0, 1, 2, 3, 4, 5] test_tags 3 ''CH3'' 6 ([], []) =
     Inr ([[1, 1, 1]], [[0, 1, 2]])"
  unfolding xhn_candidate_def prod.case test_group6 Let_def test_tags_group sum.case
  by (simp add: find_matches_def)

lemma test_candidate7:
  "xhn_candidate test_bmat [0, 1, 2, 3, 4, 5] test_tags 3 ''CH3'' 7 ([[1, 1, 1]], [[0, 1, 2]]) =
     Inr ([[1, 1, 1]], [[0, 1, 2, 3, 4, 5]])"
  unfolding xhn_candidate_def prod.case test_group7 Let_def test_tags_group sum.case
  by (simp add: find_matches_def)

lemma ethane_hinds: "filter (\<lambda>i. ethane_symbs ! i = ''H'') [0..<length ethane_symbs] = [2, 3, 4, 5, 6, 7]"
  by (simp add: ethane_symbs_def upt8)

lemma ethane_xinds0: "filter (\<lambda>i. ethane_symbs ! i = ''C'') [0..<length ethane_symbs] = [0, 1]"
  by (simp add: ethane_symbs_def upt8)

lemma ethane_xinds:
  "filter (\<lambda>x. int (sum_list (map (ethane_bmat x) [2, 3, 4, 5, 6, 7])) = 3) [0, 1] = [0, 1]"
  by (simp add: ethane_bmat_def)

lemma ethane_group0:
  "filter (\<lambda>j. ethane_bmat 0 ([2, 3, 4, 5, 6, 7] ! j) = 1) [0..<length [2, 3, 4, 5, 6, 7 :: nat]] = [0, 1, 2]"
  by (simp add: ethane_bmat_def upt8)

lemma ethane_group1:
  "filter (\<lambda>j. ethane_bmat 1 ([2, 3, 4, 5, 6, 7] ! j) = 1) [0..<length [2, 3, 4, 5, 6, 7 :: nat]] = [3, 4, 5]"
  by (simp add: ethane_bmat_def upt8)

lemma ethane_tags_group:
  "traverse (list_getitem ethane_tags) [0, 1, 2] = Inr [5, 5, 1]"
  "traverse (list_getitem ethane_tags) [3, 4, 5] = Inr [2, 3, 1]"
  "traverse (list_getitem ethane_tags) [2, 3, 4] = Inr [1, 2, 3]"
  "traverse (list_getitem ethane_tags) [5, 6, 7] = Inr [1, 2, 3]"
  by (simp_all add: list_getitem_def ethane_tags_def)

lemma ethane_candidate0:
  "xhn_candidate ethane_bmat [2, 3, 4, 5, 6, 7] ethane_tags 3 ''CH3'' 0 ([], []) =
     Inr ([[5, 5, 1]], [[0, 1, 2]])"
  unfolding xhn_candidate_def prod.case ethane_group0 Let_def ethane_tags_group sum.case
  by (simp add: find_matches_def)

lemma ethane_candidate1:
  "xhn_candidate ethane_bmat [2, 3, 4, 5, 6, 7] ethane_tags 3 ''CH3'' 1 ([[5, 5, 1]], [[0, 1, 2]]) =
     Inr ([[5, 5, 1], [2, 3, 1]], [[0, 1, 2], [3, 4, 5]])"
  unfolding xhn_candidate_def prod.case ethane_group1 Let_def ethane_tags_group sum.case
  by (simp add: find_matches_def)

lemma ethane_groups:
  "find_XHn_groups digits_int ethane_symbs ethane_bmat ''CH3'' (Some ethane_tags) =
     Inr [[[0, 1, 2], [3, 4, 5]]]"
proof -
  have p: "find_pattern_groups digits_int ethane_symbs ethane_bmat ethane_tags ''CH3'' = Inr [[0, 1, 2], [3, 4, 5]]"
    unfolding find_pattern_groups_def test_split list.case test_digit option.case ethane_hinds
      ethane_xinds0 Let_def ethane_xinds xhn_loop.simps ethane_candidate0 sum.case ethane_candidate1
    by simp
  show ?thesis
    unfolding find_XHn_groups_def option.case Let_def test_split traverse.simps p by simp
qed

lemma test_groups:
  "find_XHn_groups digits_int test_symbs test_bmat ''CH3'' (Some test_tags) =
     Inr [[[0, 1, 2, 3, 4, 5]]]"
proof -
  have p: "find_pattern_groups digits_int test_symbs test_bmat test_tags ''CH3'' = Inr [[0, 1, 2, 3, 4, 5]]"
    unfolding find_pattern_groups_def test_split list.case test_digit option.case test_hinds
      test_xinds0 Let_def test_xinds xhn_loop.simps test_candidate6 sum.case test_candidate7
    by simp
  show ?thesis
    unfolding find_XHn_groups_def option.case Let_def test_split traverse.simps p by simp
qed

lemma test_bonded:
  "filter (\<lambda>h. test_bmat 6 h = 1) [0, 1, 2, 3, 4, 5] = [0, 1, 2]"
  "filter (\<lambda>h. test_bmat 7 h = 1) [0, 1, 2, 3, 4, 5] = [3, 4, 5]"
  by (simp_all add: test_bmat_def)

lemma ethane_bonded:
  "filter (\<lambda>h. ethane_bmat 0 h = 1) [2, 3, 4, 5, 6, 7] = [2, 3, 4]"
  "filter (\<lambda>h. ethane_bmat 1 h = 1) [2, 3, 4, 5, 6, 7] = [5, 6, 7]"
  by (simp_all add: ethane_bmat_def)

subsection \<open>The tag vectors seen are pairwise different\<close>

lemma filter_index_upt: "filter (\<lambda>j. j = k) [0..<n] = (if k < n then [k] else [])"
  by (induction n) auto

lemma find_matches_distinct:
  assumes "distinct seen" and "k < length seen" and "seen ! k = tg"
  shows "find_matches seen tg = [k]"
proof -
  have "filter (\<lambda>j. seen ! j = tg) [0..<length seen] = filter (\<lambda>j. j = k) [0..<length seen]"
    using assms by (intro filter_cong) (auto simp: nth_eq_iff_index_eq)
  moreover have "seen \<noteq> []" using assms(2) by auto
  ultimately show ?thesis using assms(2) by (simp add: find_matches_def filter_index_upt)
qed

lemma find_matches_none:
  assumes "tg \<notin> set seen"
  shows "find_matches seen tg = []"
  using assms by (auto simp: find_matches_def filter_empty_conv)

lemma find_matches_cases:
  assumes "distinct seen"
  shows "(tg \<notin> set seen \<and> find_matches seen tg = []) \<or>
         (\<exists>k < length seen. seen ! k = tg \<and> find_matches seen tg = [k])"
proof (cases "tg \<in> set seen")
  case True
  then obtain k where "k < length seen" "seen ! k = tg" by (auto simp: in_set_conv_nth)
  with find_matches_distinct[OF assms this] show ?thesis by blast
next
  case False
  with find_matches_none show ?thesis by blast
qed

lemma xhn_candidate_invariant:
  assumes "distinct seen" and "length groups = length seen"
  shows "xhn_candidate bmat hinds tags n pat xind (seen, groups) \<noteq> Inl (ValueError (''Found multiple matches for '' @ pat)) \<and>
         (\<forall>seen' groups'. xhn_candidate bmat hinds tags n pat xind (seen, groups) = Inr (seen', groups') \<longrightarrow>
            distinct seen' \<and> length groups' = length seen')"
proof -
  let ?group = "filter (\<lambda>j. bmat xind (hinds ! j) = 1) [0..<length hinds]"
  show ?thesis
  proof (cases "int (length ?group) \<noteq> n")
    case True
    then show ?thesis by (simp add: xhn_candidate_def)
  next
    case False
    show ?thesis
    proof (cases "traverse (list_getitem tags) ?group")
      case (Inl e)
      have "e \<noteq> ValueError (''Found multiple matches for '' @ pat)"
      proof -
        have "\<And>g r. traverse (list_getitem tags) g = Inl r \<Longrightarrow> r = IndexError"
        proof -
          fix g r show "traverse (list_getitem tags) g = Inl r \<Longrightarrow> r = IndexError"
            by (induction g) (auto simp: list_getitem_def split: if_splits sum.splits)
        qed
        from this[OF Inl] show ?thesis by simp
      qed
      then show ?thesis using False Inl by (simp add: xhn_candidate_def)
    next
      case (Inr tg)
      from find_matches_cases[OF assms(1), of tg] show ?thesis
      proof
        assume "tg \<notin> set seen \<and> find_matches seen tg = []"
        then show ?thesis using False Inr assms by (simp add: xhn_candidate_def)
      next
        assume "\<exists>k < length seen. seen ! k = tg \<and> find_matches seen tg = [k]"
        then obtain k where "find_matches seen tg = [k]" by blast
        then show ?thesis using False Inr assms by (simp add: xhn_candidate_def)
      qed
    qed
  qed
qed

lemma xhn_loop_never_ambiguous:
  assumes "distinct seen" and "length groups = length seen"
  shows "xhn_loop bmat hinds tags n pat xinds (seen, groups) \<noteq> Inl (ValueError (''Found multiple matches for '' @ pat))"
  using assms
proof (induction xinds arbitrary: seen groups)
  case Nil
  then show ?case by simp
next
  case (Cons xind xinds)
  note inv = xhn_candidate_invariant[OF Cons.prems, of bmat hinds tags n pat xind]
  show ?case
  proof (cases "xhn_candidate bmat hinds tags n pat xind (seen, groups)")
    case (Inl e)
    then show ?thesis using inv by simp
  next
    case (Inr st)
    obtain seen' groups' where st: "st = (seen', groups')" by (cases st)
    with inv Inr have "distinct seen'" "length groups' = length seen'" by auto
    from Cons.IH[OF this] show ?thesis using Inr st by simp
  qed
qed

lemma xhn_candidate_merge:
  assumes "distinct seen" and "k < length seen" and "seen ! k = tg"
    and "int (length (filter (\<lambda>j. bmat xind (hinds ! j) = 1) [0..<length hinds])) = n"
    and "traverse (list_getitem tags) (filter (\<lambda>j. bmat xind (hinds ! j) = 1) [0..<length hinds]) = Inr tg"
  shows "xhn_candidate bmat hinds tags n pat xind (seen, groups) =
           Inr (seen, groups[k := groups ! k @ filter (\<lambda>j. bmat xind (hinds ! j) = 1) [0..<length hinds]])"
  using assms(4,5) find_matches_distinct[OF assms(1-3)]
  by (simp add: xhn_candidate_def)

lemma find_pattern_groups_never_ambiguous:
  "find_pattern_groups py_int symbs bmat tags pat \<noteq> Inl (ValueError (''Found multiple matches for '' @ pat))"
proof -
  let ?msg = "'' is not a valid group pattern (must contain an element symbol, H, and the number of H atoms. e.g. CH3)''"
  have m1: "pat @ ?msg \<noteq> ''Found multiple matches for '' @ pat"
  proof
    assume "pat @ ?msg = ''Found multiple matches for '' @ pat"
    then have "length (pat @ ?msg) = length (''Found multiple matches for '' @ pat)" by simp
    then show False by simp
  qed
  have loop: "xhn_loop bmat hinds tags n pat xinds ([], []) \<noteq> Inl (ValueError (''Found multiple matches for '' @ pat))"
    for hinds n xinds
    by (rule xhn_loop_never_ambiguous) simp_all
  show ?thesis
  proof (cases "CHR ''H'' \<notin> set pat")
    case True
    then show ?thesis using m1 by (simp add: find_pattern_groups_def)
  next
    case False
    show ?thesis
    proof (cases "\<exists>X n_str. split_on CHR ''H'' pat = [X, n_str]")
      case nsplit: False
      then have "find_pattern_groups py_int symbs bmat tags pat = Inl (ValueError ''too many values to unpack'')"
        using False by (auto simp: find_pattern_groups_def split: list.splits)
      then show ?thesis by simp
    next
      case True
      then obtain X n_str where sp: "split_on CHR ''H'' pat = [X, n_str]" by blast
      show ?thesis
      proof (cases "py_int n_str")
        case None
        then show ?thesis using False sp by (simp add: find_pattern_groups_def)
      next
        case (Some n)
        let ?hinds = "filter (\<lambda>i. symbs ! i = ''H'') [0..<length symbs]"
        let ?xinds = "filter (\<lambda>x. int (sum_list (map (bmat x) ?hinds)) = n)
                        (filter (\<lambda>i. symbs ! i = X) [0..<length symbs])"
        have "find_pattern_groups py_int symbs bmat tags pat =
                (case xhn_loop bmat ?hinds tags n pat ?xinds ([], []) of
                   Inl e \<Rightarrow> Inl e | Inr (seen_tags, groups) \<Rightarrow> Inr groups)"
          using False sp Some by (simp add: find_pattern_groups_def Let_def)
        then show ?thesis using loop[of ?hinds n ?xinds]
          by (auto split: sum.splits)
      qed
    qed
  qed
qed

subsection \<open>Hydrogens first\<close>

lemma hydrogens_first_group:
  assumes "hinds = [0..<m]"
  shows "filter (\<lambda>j. bmat xind (hinds ! j) = 1) [0..<length hinds] = filter (\<lambda>h. bmat xind h = 1) hinds"
proof -
  have "filter (\<lambda>j. bmat xind ([0..<m] ! j) = 1) [0..<m] = filter (\<lambda>h. bmat xind h = 1) [0..<m]"
    by (rule filter_cong) auto
  then show ?thesis using assms by simp
qed

lemma xhn_candidate_merge_first:
  assumes "distinct seen" and "k < length seen" and "hinds = [0..<m]"
    and "int (length (filter (\<lambda>h. bmat xind h = 1) hinds)) = n"
    and "traverse (list_getitem tags) (filter (\<lambda>h. bmat xind h = 1) hinds) = Inr (seen ! k)"
  shows "xhn_candidate bmat hinds tags n pat xind (seen, groups) =
           Inr (seen, groups[k := groups ! k @ filter (\<lambda>h. bmat xind h = 1) hinds])"
proof -
  note g = hydrogens_first_group[OF assms(3), of bmat xind]
  from xhn_candidate_merge[OF assms(1,2) refl, of bmat xind hinds n tags pat groups]
  show ?thesis unfolding g using assms(4,5) by simp
qed

subsection \<open>The claim\<close>

text \<open>
  C3 as stated fails. A candidate group whose hydrogen tag vector equals the tag vector of a
  group seen before, with other hydrogens, does not make the call raise. Two molecules of two
  methyl groups show it, for the pattern \<open>CH3\<close>. In the test molecule (hydrogens
  first, every hydrogen tagged 1) both groups have the hydrogen tag vector
  \<open>[1, 1, 1]\<close>, on the hydrogens 0, 1, 2 and 3, 4, 5: the second group is merged into
  the first and \<open>find_XHn_groups\<close> returns the single group
  \<open>[0, 1, 2, 3, 4, 5]\<close>. In ethane with the carbons first both groups have the hydrogen
  tag vector \<open>[1, 2, 3]\<close>, on the hydrogens 2, 3, 4 and 5, 6, 7: the source reads
  \<open>tags\<close> at the positions of the hydrogens among the hydrogens, finds
  \<open>[5, 5, 1]\<close> and \<open>[2, 3, 1]\<close>, and returns two groups. Nothing is raised in
  either.
\<close>

theorem find_XHn_groups_merges_counterexample:
  "traverse (list_getitem test_tags) (filter (\<lambda>h. test_bmat 6 h = 1) [0, 1, 2, 3, 4, 5]) = Inr [1, 1, 1] \<and>
   traverse (list_getitem test_tags) (filter (\<lambda>h. test_bmat 7 h = 1) [0, 1, 2, 3, 4, 5]) = Inr [1, 1, 1] \<and>
   filter (\<lambda>h. test_bmat 6 h = 1) [0, 1, 2, 3, 4, 5] = [0, 1, 2] \<and>
   filter (\<lambda>h. test_bmat 7 h = 1) [0, 1, 2, 3, 4, 5] = [3, 4, 5] \<and>
   find_XHn_groups digits_int test_symbs test_bmat ''CH3'' (Some test_tags) =
     Inr [[[0, 1, 2, 3, 4, 5]]] \<and>
   traverse (list_getitem ethane_tags) (filter (\<lambda>h. ethane_bmat 0 h = 1) [2, 3, 4, 5, 6, 7]) = Inr [1, 2, 3] \<and>
   traverse (list_getitem ethane_tags) (filter (\<lambda>h. ethane_bmat 1 h = 1) [2, 3, 4, 5, 6, 7]) = Inr [1, 2, 3] \<and>
   filter (\<lambda>h. ethane_bmat 0 h = 1) [2, 3, 4, 5, 6, 7] = [2, 3, 4] \<and>
   filter (\<lambda>h. ethane_bmat 1 h = 1) [2, 3, 4, 5, 6, 7] = [5, 6, 7] \<and>
   find_XHn_groups digits_int ethane_symbs ethane_bmat ''CH3'' (Some ethane_tags) =
     Inr [[[0, 1, 2], [3, 4, 5]]]"
  unfolding test_bonded ethane_bonded test_tags_group ethane_tags_group test_groups ethane_groups
  by simp

text \<open>
  C3, amended. \<open>find_XHn_groups\<close> never raises the error "Found multiple matches":
  that error needs a candidate that matches more than one of the tag vectors seen, and the
  tag vectors seen are pairwise different; so neither the loop over the candidates, from any
  state whose seen tag vectors are pairwise different, nor the search for a pattern raises
  it. In a structure whose hydrogens are its first atoms (\<open>hinds\<close> is
  \<open>0, \<dots>, len(hinds) - 1\<close>), a candidate XHn group whose hydrogen tag vector
  equals the tag vector of a previously seen group is merged into that group: its hydrogens
  are appended to the group, whatever the group holds, and nothing is raised.
\<close>

theorem find_XHn_groups_merges:
  assumes "distinct seen_tags" and "length groups = length seen_tags"
  shows "xhn_loop bmat hinds tags n group_pattern xinds (seen_tags, groups)
           \<noteq> Inl (ValueError (''Found multiple matches for '' @ group_pattern)) \<and>
         find_pattern_groups py_int symbs bmat tags group_pattern
           \<noteq> Inl (ValueError (''Found multiple matches for '' @ group_pattern)) \<and>
         (\<forall>k. hinds = [0..<length hinds] \<and> k < length seen_tags \<and>
               int (length (filter (\<lambda>h. bmat xind h = 1) hinds)) = n \<and>
               traverse (list_getitem tags) (filter (\<lambda>h. bmat xind h = 1) hinds) = Inr (seen_tags ! k) \<longrightarrow>
               xhn_candidate bmat hinds tags n group_pattern xind (seen_tags, groups) =
                 Inr (seen_tags, groups[k := groups ! k @ filter (\<lambda>h. bmat xind h = 1) hinds]))"
  using xhn_loop_never_ambiguous[OF assms] find_pattern_groups_never_ambiguous
    xhn_candidate_merge_first[OF assms(1), of _ hinds "length hinds"]
  by blast

theorem find_XHn_groups_merges_witness:
  "distinct [[1, 1, 1 :: int]] \<and> length [[0, 1, 2 :: nat]] = length [[1, 1, 1 :: int]] \<and>
   [0, 1, 2, 3, 4, 5] = [0..<length [0, 1, 2, 3, 4, 5 :: nat]] \<and>
   (0 :: nat) < length [[1, 1, 1 :: int]] \<and>
   int (length (filter (\<lambda>h. test_bmat 7 h = 1) [0, 1, 2, 3, 4, 5])) = 3 \<and>
   traverse (list_getitem test_tags) (filter (\<lambda>h. test_bmat 7 h = 1) [0, 1, 2, 3, 4, 5])
       = Inr ([[1, 1, 1]] ! 0) \<and>
   xhn_candidate test_bmat [0, 1, 2, 3, 4, 5] test_tags 3 ''CH3'' 7 ([[1, 1, 1]], [[0, 1, 2]]) =
     Inr ([[1, 1, 1]], [[0, 1, 2, 3, 4, 5]])"
proof -
  have d: "distinct [[1, 1, 1 :: int]]" and l: "length [[0, 1, 2 :: nat]] = length [[1, 1, 1 :: int]]"
    and k: "(0 :: nat) < length [[1, 1, 1 :: int]]"
    by simp_all
  have h: "[0, 1, 2, 3, 4, 5] = [0..<length [0, 1, 2, 3, 4, 5 :: nat]]"
    by (simp add: upt8)
  have g: "int (length (filter (\<lambda>h. test_bmat 7 h = 1) [0, 1, 2, 3, 4, 5])) = 3"
    unfolding test_bonded by simp
  have t: "traverse (list_getitem test_tags) (filter (\<lambda>h. test_bmat 7 h = 1) [0, 1, 2, 3, 4, 5])
       = Inr ([[1, 1, 1]] ! 0)"
    unfolding test_bonded test_tags_group by simp
  from find_XHn_groups_merges[OF d l, of test_bmat "[0, 1, 2, 3, 4, 5]" test_tags 3 "''CH3''" _ _ _ 7] h k g t
  have "xhn_candidate test_bmat [0, 1, 2, 3, 4, 5] test_tags 3 ''CH3'' 7 ([[1, 1, 1]], [[0, 1, 2]]) =
     Inr ([[1, 1, 1]],
          [[0, 1, 2]][0 := [[0, 1, 2]] ! 0 @ filter (\<lambda>h. test_bmat 7 h = 1) [0, 1, 2, 3, 4, 5]])"
    by blast
  then have "xhn_candidate test_bmat [0, 1, 2, 3, 4, 5] test_tags 3 ''CH3'' 7 ([[1, 1, 1]], [[0, 1, 2]]) =
     Inr ([[1, 1, 1]], [[0, 1, 2, 3, 4, 5]])"
    unfolding test_bonded by simp
  with d l h k g t show ?thesis by blast
qed

end
